theory Spec2Isabelle
  imports Complex_Main
begin

section \<open>The repository activity score of go-ghcrawl\<close>

text \<open>
  This theory embeds \<^verbatim>\<open>GetRepositoryActivityScore\<close> of \<^verbatim>\<open>src/cli/cli.go\<close> (lines 259-347;
  the copy in \<^verbatim>\<open>src/unnamed/part_000\<close>, lines 82-170, is textually the same function, and
  \<^verbatim>\<open>src/unnamed/part_001\<close> holds an earlier sketch that stops after the weighted counts).
  Line numbers below are those of cli.go.

  Conventions of the embedding:
  \<^item> Go's \<^verbatim>\<open>int\<close> is the 64-bit two's complement integer of the usual 64-bit targets: a value
    of type \<^verbatim>\<open>int\<close> is an \<open>int\<close> of HOL, and every \<^verbatim>\<open>+\<close> and \<^verbatim>\<open>*\<close> of the source is
    followed by \<open>wrap64\<close>, the wrap-around written out. Integer division truncates towards
    zero (\<open>go_quo\<close>).
  \<^item> A pointer field is an \<open>option\<close>; dereferencing \<open>None\<close> is the run-time panic
    \<open>NilPointerDereference\<close>.
  \<^item> \<^verbatim>\<open>float64\<close> is IEEE 754 binary64: a value is the real it denotes, and every conversion
    and operation of the source rounds its exact result to 53 bits, to nearest, ties to
    even (\<open>round64\<close>).
  \<^item> An instant (\<^verbatim>\<open>time.Time\<close>) is the number of nanoseconds since the zero \<^verbatim>\<open>Time\<close>
    (January 1, year 1, 00:00 UTC). The function reads the clock twice, once in each call of
    \<^verbatim>\<open>time.Since\<close>; the two readings are the first two arguments of the model.
  \<^item> The mutation of \<^verbatim>\<open>repo.Metadata.Score\<close> is explicit state passing: the model returns the
    outcome together with the \<^verbatim>\<open>Repo\<close> as it is when the function returns or panics.
\<close>

subsection \<open>Machine integers\<close>

definition wrap64 :: "int \<Rightarrow> int" where
  "wrap64 x = (x + 2 ^ 63) mod 2 ^ 64 - 2 ^ 63"

definition in_int64 :: "int \<Rightarrow> bool" where
  "in_int64 x = (- (2 ^ 63) \<le> x \<and> x < 2 ^ 63)"

text \<open>Go's \<^verbatim>\<open>/\<close> and \<^verbatim>\<open>%\<close> on integers: the quotient is truncated towards zero.\<close>

definition go_quo :: "int \<Rightarrow> int \<Rightarrow> int" where
  "go_quo a b = sgn a * sgn b * (\<bar>a\<bar> div \<bar>b\<bar>)"

definition go_rem :: "int \<Rightarrow> int \<Rightarrow> int" where
  "go_rem a b = a - b * go_quo a b"

subsection \<open>Floating point\<close>

text \<open>
  A \<^verbatim>\<open>float64\<close> value is the real number it denotes. Every \<^verbatim>\<open>float64\<close> operation of the
  source computes the exact result and rounds it once to the nearest number with a
  significand of 53 bits, ties to the even significand: \<open>round64\<close>, with \<open>rne\<close> the rounding
  of a real to the nearest integer, ties to even. No operation of the function leaves the
  range of the normal numbers unless its result is 0, so that the exponent range,
  infinities and NaN are not modelled; operations are not fused, as on the amd64 target.
\<close>

definition rne :: "real \<Rightarrow> int" where
  "rne y =
     (let n = \<lfloor>y\<rfloor>
      in if y - of_int n < 1 / 2 then n
         else if 1 / 2 < y - of_int n then n + 1
         else if even n then n else n + 1)"

definition round64 :: "real \<Rightarrow> real" where
  "round64 x =
     (if x = 0 then 0
      else (let u = 2 powi (\<lfloor>log 2 \<bar>x\<bar>\<rfloor> - 52)
            in of_int (rne (x / u)) * u))"

text \<open>The conversion \<^verbatim>\<open>float64(n)\<close> of an \<^verbatim>\<open>int\<close> and the four operations.\<close>

definition float64_of_int :: "int \<Rightarrow> real" where
  "float64_of_int n = round64 (of_int n)"

definition float64_add :: "real \<Rightarrow> real \<Rightarrow> real" where
  "float64_add x y = round64 (x + y)"

definition float64_sub :: "real \<Rightarrow> real \<Rightarrow> real" where
  "float64_sub x y = round64 (x - y)"

definition float64_mul :: "real \<Rightarrow> real \<Rightarrow> real" where
  "float64_mul x y = round64 (x * y)"

definition float64_div :: "real \<Rightarrow> real \<Rightarrow> real" where
  "float64_div x y = round64 (x / y)"

text \<open>
  The conversion \<^verbatim>\<open>int(x)\<close> of a \<^verbatim>\<open>float64\<close> discards the fraction (truncation towards zero).
  Where the truncated value does not fit, the result is implementation-dependent in Go; the
  model takes the least \<^verbatim>\<open>int64\<close>, the value the amd64 conversion instruction yields. No
  conversion of the function is of that kind for a score that has passed the logarithmic
  scale.
\<close>

definition int_of_float64 :: "real \<Rightarrow> int" where
  "int_of_float64 x =
     (let t = (if 0 \<le> x then \<lfloor>x\<rfloor> else \<lceil>x\<rceil>)
      in if in_int64 t then t else - (2 ^ 63))"

text \<open>
  \<^verbatim>\<open>math.Round\<close>: the nearest integer, halves away from zero; the result is a \<^verbatim>\<open>float64\<close>
  without rounding. \<^verbatim>\<open>math.Min\<close> returns one of its arguments.
\<close>

definition math_Round :: "real \<Rightarrow> real" where
  "math_Round x = (if 0 \<le> x then of_int \<lfloor>x + 1 / 2\<rfloor> else of_int \<lceil>x - 1 / 2\<rceil>)"

definition math_Min :: "real \<Rightarrow> real \<Rightarrow> real" where
  "math_Min x y = min x y"

text \<open>
  \<^verbatim>\<open>math.Log\<close> of the standard library, for a positive argument: the natural logarithm,
  rounded to \<^verbatim>\<open>float64\<close>. The library's algorithm has an error below one unit in the last
  place; the embedding takes the correctly rounded value.
\<close>

definition math_Log :: "real \<Rightarrow> real" where
  "math_Log x = round64 (ln x)"

subsection \<open>Instants and durations (package time)\<close>

type_synonym Time = int

type_synonym Duration = int

definition minDuration :: Duration where
  "minDuration = - (2 ^ 63)"

definition maxDuration :: Duration where
  "maxDuration = 2 ^ 63 - 1"

definition Hour :: Duration where
  "Hour = 3600000000000"

text \<open>\<^verbatim>\<open>t.Sub(u)\<close>: the duration \<open>t - u\<close>, saturated at the least and the greatest \<^verbatim>\<open>Duration\<close>.\<close>

definition Time_Sub :: "Time \<Rightarrow> Time \<Rightarrow> Duration" where
  "Time_Sub t u =
     (let d = t - u
      in if d < minDuration then minDuration
         else if maxDuration < d then maxDuration
         else d)"

text \<open>\<^verbatim>\<open>time.Since(t)\<close> is \<^verbatim>\<open>time.Now().Sub(t)\<close>; the clock reading is the argument \<open>now\<close>.\<close>

definition Since :: "Time \<Rightarrow> Time \<Rightarrow> Duration" where
  "Since now t = Time_Sub now t"

text \<open>
  \<^verbatim>\<open>d.Hours()\<close>: \<^verbatim>\<open>hour := d / Hour; nsec := d % Hour;
  return float64(hour) + float64(nsec)/(60*60*1e9)\<close>.
\<close>

definition Hours :: "Duration \<Rightarrow> real" where
  "Hours d =
     (let hour = go_quo d Hour; nsec = go_rem d Hour
      in float64_add (float64_of_int hour)
           (float64_div (float64_of_int nsec) (60 * 60 * 1000000000)))"

subsection \<open>The data model\<close>

text \<open>
  \<^verbatim>\<open>github.Repository\<close> (go-github v42), restricted to the fields the function reads; all of
  them are pointers. \<^verbatim>\<open>InnerSourceMetadata\<close> and \<^verbatim>\<open>Repo\<close> are the structs of cli.go.
\<close>

record Repository =
  ForksCount :: "int option"
  SubscribersCount :: "int option"
  StargazersCount :: "int option"
  OpenIssuesCount :: "int option"
  Description :: "string option"
  UpdatedAt :: "Time option"
  CreatedAt :: "Time option"

record InnerSourceMetadata =
  Title :: string
  Motivation :: string
  Contributions :: "string list"
  Skills :: "string list"
  Logo :: string
  Docs :: string
  Language :: string
  Participation :: string
  Guidelines :: string
  Score :: int

record Repo =
  GH :: "Repository option"
  Metadata :: "InnerSourceMetadata option"

text \<open>
  The ways a call can fail. The function has the result type \<^verbatim>\<open>int\<close> and no error result:
  the only failure of the source is the run-time panic of a nil dereference.
  \<open>MissingFieldError\<close> is the error the specification names; no path of the source
  produces it.
\<close>

datatype failure = NilPointerDereference | MissingFieldError string

text \<open>
  \<^verbatim>\<open>GetUpdatedAt\<close> and \<^verbatim>\<open>GetCreatedAt\<close> of go-github return the zero \<^verbatim>\<open>Timestamp\<close> for a nil
  field.
\<close>

definition GetUpdatedAt :: "Repository \<Rightarrow> Time" where
  "GetUpdatedAt r = (case UpdatedAt r of None \<Rightarrow> 0 | Some t \<Rightarrow> t)"

definition GetCreatedAt :: "Repository \<Rightarrow> Time" where
  "GetCreatedAt r = (case CreatedAt r of None \<Rightarrow> 0 | Some t \<Rightarrow> t)"

subsection \<open>The score\<close>

text \<open>Lines 265-273: the initial score and the weighted counts, dereferenced in this order.\<close>

definition weightedScore :: "Repository \<Rightarrow> failure + int" where
  "weightedScore ghRepo =
     (case ForksCount ghRepo of None \<Rightarrow> Inl NilPointerDereference | Some forks \<Rightarrow>
     (case SubscribersCount ghRepo of None \<Rightarrow> Inl NilPointerDereference | Some subscribers \<Rightarrow>
     (case StargazersCount ghRepo of None \<Rightarrow> Inl NilPointerDereference | Some stargazers \<Rightarrow>
     (case OpenIssuesCount ghRepo of None \<Rightarrow> Inl NilPointerDereference | Some openIssues \<Rightarrow>
        (let score = 50;
             score = wrap64 (score + wrap64 (forks * 5));
             score = wrap64 (score + subscribers);
             score = wrap64 (score + go_quo stargazers 3);
             score = wrap64 (score + go_quo openIssues 5)
         in Inr score)))))"

text \<open>Lines 279-281 and 308-310: \<^verbatim>\<open>time.Since(t).Hours() / 24\<close>.\<close>

definition daysSince :: "Time \<Rightarrow> Time \<Rightarrow> real" where
  "daysSince now t = float64_div (Hours (Since now t)) 24"

text \<open>Lines 283-284, as functions of \<^verbatim>\<open>daysSinceLastUpdate\<close>.\<close>

definition updateMultiplier64 :: "real \<Rightarrow> real" where
  "updateMultiplier64 daysSinceLastUpdate =
     float64_div (float64_add 1 (float64_sub 100 (math_Min daysSinceLastUpdate 100))) 100"

definition updateMultiplier :: "real \<Rightarrow> int" where
  "updateMultiplier daysSinceLastUpdate = int_of_float64 (updateMultiplier64 daysSinceLastUpdate)"

text \<open>
  Lines 301-302, as functions of \<^verbatim>\<open>daysSinceLastUpdate\<close>. The constant \<^verbatim>\<open>2.74\<close> is the
  \<^verbatim>\<open>float64\<close> nearest to 274/100.
\<close>

definition boost64 :: "real \<Rightarrow> real" where
  "boost64 daysSinceLastUpdate =
     float64_sub 1000 (float64_mul (math_Min daysSinceLastUpdate 365) (round64 (274 / 100)))"

definition boost :: "real \<Rightarrow> int" where
  "boost daysSinceLastUpdate = int_of_float64 (boost64 daysSinceLastUpdate)"

text \<open>Lines 312-313, as functions of \<^verbatim>\<open>daysSinceCreation\<close>.\<close>

definition creationBoost64 :: "real \<Rightarrow> real" where
  "creationBoost64 daysSinceCreation =
     float64_div (float64_sub 365 (math_Min daysSinceCreation 365)) 365"

definition creationBoost :: "real \<Rightarrow> int" where
  "creationBoost daysSinceCreation = int_of_float64 (creationBoost64 daysSinceCreation)"

text \<open>
  Lines 277-317: the score after the recency multiplier and the boost, from the weighted
  score \<open>score\<close>, the two clock readings and the two timestamps.
\<close>

definition boostedScore :: "Time \<Rightarrow> Time \<Rightarrow> Repository \<Rightarrow> int \<Rightarrow> int" where
  "boostedScore now\<^sub>1 now\<^sub>2 ghRepo score =
     (let daysSinceLastUpdate = daysSince now\<^sub>1 (GetUpdatedAt ghRepo);
          score = wrap64 (score * updateMultiplier daysSinceLastUpdate);
          boost = boost daysSinceLastUpdate;
          daysSinceCreation = daysSince now\<^sub>2 (GetCreatedAt ghRepo);
          boost = wrap64 (boost * creationBoost daysSinceCreation);
          score = wrap64 (score + boost)
      in score)"

text \<open>Lines 320-322 and 327-329: the two static bonuses.\<close>

definition descriptionBonus :: "string \<Rightarrow> string \<Rightarrow> int \<Rightarrow> int" where
  "descriptionBonus description motivation score =
     (if 30 < length description \<or> 30 < length motivation then wrap64 (score + 50) else score)"

definition guidelinesBonus :: "string \<Rightarrow> int \<Rightarrow> int" where
  "guidelinesBonus guidelines score =
     (if guidelines \<noteq> [] then wrap64 (score + 100) else score)"

text \<open>
  Lines 260-329: the score before the logarithmic scale. A nil \<^verbatim>\<open>repo.GH\<close> panics at line
  270, a nil \<^verbatim>\<open>Description\<close> at line 320, a nil \<^verbatim>\<open>repo.Metadata\<close> at line 320 or, when the
  description is longer than 30 bytes and \<^verbatim>\<open>||\<close> does not evaluate its right operand, at
  line 327: the same panic either way, and nothing is written before it.
\<close>

definition preCompressionScore :: "Time \<Rightarrow> Time \<Rightarrow> Repo \<Rightarrow> failure + int" where
  "preCompressionScore now\<^sub>1 now\<^sub>2 repo =
     (case GH repo of None \<Rightarrow> Inl NilPointerDereference | Some ghRepo \<Rightarrow>
     (case weightedScore ghRepo of Inl e \<Rightarrow> Inl e | Inr score \<Rightarrow>
        (let score = boostedScore now\<^sub>1 now\<^sub>2 ghRepo score
         in (case Description ghRepo of None \<Rightarrow> Inl NilPointerDereference | Some description \<Rightarrow>
            (case Metadata repo of None \<Rightarrow> Inl NilPointerDereference | Some metadata \<Rightarrow>
              Inr (guidelinesBonus (Guidelines metadata)
                     (descriptionBonus description (Motivation metadata) score)))))))"

text \<open>Lines 333-337: the logarithmic scale.\<close>

definition logScale :: "int \<Rightarrow> int" where
  "logScale score =
     (if 3000 < score
      then (let logScore64 = float64_add 3000 (float64_mul (math_Log (float64_of_int score)) 100);
                logScore = int_of_float64 logScore64
            in logScore)
      else score)"

text \<open>Line 341: the final score.\<close>

definition finalScore :: "int \<Rightarrow> int" where
  "finalScore score = int_of_float64 (math_Round (float64_sub (float64_of_int score) 50))"

text \<open>
  The function. The argument is the pointer \<^verbatim>\<open>repo\<close>; the result is the returned score or
  the panic, with the \<^verbatim>\<open>Repo\<close> as the call leaves it. Line 344 is the only assignment to a
  field.
\<close>

definition GetRepositoryActivityScore ::
  "Time \<Rightarrow> Time \<Rightarrow> Repo option \<Rightarrow> (failure + int) \<times> Repo option" where
  "GetRepositoryActivityScore now\<^sub>1 now\<^sub>2 p =
     (case p of None \<Rightarrow> (Inl NilPointerDereference, None) | Some repo \<Rightarrow>
     (case preCompressionScore now\<^sub>1 now\<^sub>2 repo of Inl e \<Rightarrow> (Inl e, Some repo) | Inr score \<Rightarrow>
        (let score = logScale score;
             score = finalScore score
         in (case Metadata repo of None \<Rightarrow> (Inl NilPointerDereference, Some repo)
             | Some metadata \<Rightarrow>
                 (Inr score, Some (repo\<lparr>Metadata := Some (metadata\<lparr>Score := score\<rparr>)\<rparr>))))))"

subsection \<open>Concrete inputs\<close>

text \<open>
  Inputs for the closed instances below: a snapshot with every field present, a metadata
  record, an instant (2022-01-01 00:00 UTC, in nanoseconds since the zero \<^verbatim>\<open>Time\<close>), the
  length of a day and a description of 31 bytes.
\<close>

definition snapshot ::
  "int \<Rightarrow> int \<Rightarrow> int \<Rightarrow> int \<Rightarrow> string \<Rightarrow> Time \<Rightarrow> Time \<Rightarrow> Repository" where
  "snapshot forks subscribers stargazers openIssues description updated created =
     \<lparr>ForksCount = Some forks, SubscribersCount = Some subscribers,
      StargazersCount = Some stargazers, OpenIssuesCount = Some openIssues,
      Description = Some description, UpdatedAt = Some updated, CreatedAt = Some created\<rparr>"

definition exampleMetadata :: InnerSourceMetadata where
  "exampleMetadata =
     \<lparr>Title = ''ghcrawl'', Motivation = '''', Contributions = [], Skills = [], Logo = '''',
      Docs = '''', Language = ''Go'', Participation = '''', Guidelines = '''', Score = 0\<rparr>"

definition exampleNow :: Time where
  "exampleNow = 63776592000000000000"

definition day :: Duration where
  "day = 86400000000000"

definition longDescription :: string where
  "longDescription = ''A crawler for InnerSource repos''"

section \<open>Auxiliary facts\<close>

subsection \<open>Machine integers\<close>

lemma wrap64_id: "in_int64 x \<Longrightarrow> wrap64 x = x"
  unfolding wrap64_def in_int64_def by (simp add: mod_pos_pos_trivial)

lemma in_int64_wrap64: "in_int64 (wrap64 x)"
  unfolding wrap64_def in_int64_def
  using pos_mod_bound [of "2 ^ 64" "x + 2 ^ 63"] pos_mod_sign [of "2 ^ 64" "x + 2 ^ 63"]
  by simp

lemma wrap64_wrap64: "wrap64 (wrap64 x) = wrap64 x"
  by (rule wrap64_id) (rule in_int64_wrap64)

lemma wrap64_0: "wrap64 0 = 0"
  by (simp add: wrap64_def)

lemma go_quo_nonneg: "0 \<le> a \<Longrightarrow> 0 < b \<Longrightarrow> go_quo a b = a div b"
  by (cases "a = 0") (simp_all add: go_quo_def)

subsection \<open>Rounding to the nearest integer\<close>

lemma rne_of_int: "rne (of_int n) = n"
  by (simp add: rne_def)

lemma rne_floor_le: "\<lfloor>y\<rfloor> \<le> rne y"
  by (simp add: rne_def Let_def)

lemma rne_le_floor1: "rne y \<le> \<lfloor>y\<rfloor> + 1"
  by (simp add: rne_def Let_def)

lemma rne_ge: "of_int n \<le> y \<Longrightarrow> n \<le> rne y"
  using rne_floor_le [of y] by (simp add: le_floor_iff [symmetric])

lemma rne_le: "y \<le> of_int n \<Longrightarrow> rne y \<le> n"
proof -
  assume a: "y \<le> of_int n"
  show ?thesis
  proof (cases "y = of_int n")
    case True
    then show ?thesis by (simp add: rne_of_int)
  next
    case False
    then have "y < of_int n" using a by simp
    then have "\<lfloor>y\<rfloor> < n" by (simp add: floor_less_iff)
    then show ?thesis using rne_le_floor1 [of y] by simp
  qed
qed

lemma rne_lt_half: "y < of_int n + 1 / 2 \<Longrightarrow> rne y \<le> n"
proof -
  assume a: "y < of_int n + 1 / 2"
  have f: "\<lfloor>y\<rfloor> \<le> n" using a by (simp add: floor_le_iff)
  show ?thesis
  proof (cases "\<lfloor>y\<rfloor> = n")
    case True
    then have "y - of_int \<lfloor>y\<rfloor> < 1 / 2" using a by simp
    then show ?thesis using True by (simp add: rne_def Let_def)
  next
    case False
    then show ?thesis using f rne_le_floor1 [of y] by simp
  qed
qed

lemma rne_gt_half: "of_int n - 1 / 2 < y \<Longrightarrow> n \<le> rne y"
proof -
  assume a: "of_int n - 1 / 2 < y"
  have "of_int (n - 1) \<le> y" using a by simp
  then have f: "n - 1 \<le> \<lfloor>y\<rfloor>" by (simp only: le_floor_iff)
  show ?thesis
  proof (cases "\<lfloor>y\<rfloor> = n - 1")
    case True
    then have "1 / 2 < y - of_int \<lfloor>y\<rfloor>" using a by simp
    then show ?thesis using True by (simp add: rne_def Let_def)
  next
    case False
    then show ?thesis using f rne_floor_le [of y] by simp
  qed
qed

lemma rne_tie_up: "even n \<Longrightarrow> of_int n - 1 / 2 \<le> y \<Longrightarrow> n \<le> rne y"
proof -
  assume e: "even n" and a: "of_int n - 1 / 2 \<le> y"
  show ?thesis
  proof (cases "y = of_int n - 1 / 2")
    case True
    have "\<lfloor>y\<rfloor> = n - 1" unfolding True by linarith
    then show ?thesis using e True by (simp add: rne_def Let_def)
  next
    case False
    then show ?thesis using a by (intro rne_gt_half) simp
  qed
qed

lemma rne_tie_down: "even n \<Longrightarrow> y \<le> of_int n + 1 / 2 \<Longrightarrow> rne y \<le> n"
proof -
  assume e: "even n" and a: "y \<le> of_int n + 1 / 2"
  show ?thesis
  proof (cases "y = of_int n + 1 / 2")
    case True
    have "\<lfloor>y\<rfloor> = n" unfolding True by linarith
    then show ?thesis using e True by (simp add: rne_def Let_def)
  next
    case False
    then show ?thesis using a by (intro rne_lt_half) simp
  qed
qed

lemma rne_mono: "x \<le> y \<Longrightarrow> rne x \<le> rne y"
proof -
  assume a: "x \<le> y"
  then have f: "\<lfloor>x\<rfloor> \<le> \<lfloor>y\<rfloor>" by (rule floor_mono)
  show ?thesis
  proof (cases "\<lfloor>x\<rfloor> = \<lfloor>y\<rfloor>")
    case True
    then show ?thesis using a by (auto simp add: rne_def Let_def)
  next
    case False
    then have "\<lfloor>x\<rfloor> + 1 \<le> \<lfloor>y\<rfloor>" using f by simp
    then show ?thesis using rne_le_floor1 [of x] rne_floor_le [of y] by linarith
  qed
qed

lemma rne_close: "\<bar>of_int (rne y) - y\<bar> \<le> 1 / 2"
proof -
  have "of_int \<lfloor>y\<rfloor> \<le> y" "y < of_int \<lfloor>y\<rfloor> + 1" by linarith+
  then show ?thesis by (auto simp add: rne_def Let_def)
qed

lemma rne_minus: "rne (- y) = - rne y"
proof (cases "y = of_int \<lfloor>y\<rfloor>")
  case True
  then obtain n where "y = of_int n" ..
  then show ?thesis by (simp add: rne_of_int flip: of_int_minus)
next
  case False
  define n where "n = \<lfloor>y\<rfloor>"
  have b: "of_int n < y" "y < of_int n + 1" using False unfolding n_def by linarith+
  have m: "\<lfloor>- y\<rfloor> = - n - 1" using b by linarith
  show ?thesis using b m n_def by (auto simp add: rne_def Let_def)
qed

subsection \<open>Rounding to \<^verbatim>\<open>float64\<close>\<close>

lemma expo_eq:
  assumes "2 powi e \<le> \<bar>x\<bar>" "\<bar>x\<bar> < 2 powi (e + 1)"
  shows "\<lfloor>log 2 \<bar>x\<bar>\<rfloor> = e"
proof -
  have p: "0 < \<bar>x\<bar>" using assms(1) by (smt (verit) zero_less_power_int)
  have 1: "(2::real) powr real_of_int e = 2 powi e" by (simp add: powr_real_of_int')
  have 2: "(2::real) powr (real_of_int e + 1) = 2 powi (e + 1)"
    using powr_real_of_int' [of 2 "e + 1"] by simp
  show ?thesis
    using assms floor_log_eq_powr_iff [of "\<bar>x\<bar>" 2 e] p by (simp add: 1 2)
qed

lemma expo_bounds:
  assumes "x \<noteq> 0"
  shows "2 powi \<lfloor>log 2 \<bar>x\<bar>\<rfloor> \<le> \<bar>x\<bar> \<and> \<bar>x\<bar> < 2 powi (\<lfloor>log 2 \<bar>x\<bar>\<rfloor> + 1)"
proof -
  define e where "e = \<lfloor>log 2 \<bar>x\<bar>\<rfloor>"
  have p: "0 < \<bar>x\<bar>" using assms by simp
  have 1: "(2::real) powr real_of_int e = 2 powi e" by (simp add: powr_real_of_int')
  have 2: "(2::real) powr (real_of_int e + 1) = 2 powi (e + 1)"
    using powr_real_of_int' [of 2 "e + 1"] by simp
  have "2 powr real_of_int e \<le> \<bar>x\<bar> \<and> \<bar>x\<bar> < 2 powr (real_of_int e + 1)"
    using floor_log_eq_powr_iff [of "\<bar>x\<bar>" 2 e] p e_def by simp
  then show ?thesis unfolding e_def [symmetric] by (simp add: 1 2)
qed

lemma round64_eval:
  assumes "2 powi e \<le> \<bar>x\<bar>" "\<bar>x\<bar> < 2 powi (e + 1)"
  shows "round64 x = of_int (rne (x / 2 powi (e - 52))) * 2 powi (e - 52)"
proof -
  have "x \<noteq> 0" using assms(1) by (smt (verit) zero_less_power_int)
  then show ?thesis by (simp add: round64_def Let_def expo_eq [OF assms])
qed

lemma round64_0: "round64 0 = 0"
  by (simp add: round64_def)

lemma round64_minus: "round64 (- x) = - round64 x"
  by (simp add: round64_def rne_minus Let_def)

lemma pow2_split: "(2::real) powi e = 2 ^ 52 * 2 powi (e - 52)"
proof -
  have "(2::real) powi e = 2 powi (52 + (e - 52))" by simp
  also have "\<dots> = 2 powi 52 * 2 powi (e - 52)" by (rule power_int_add) simp
  finally show ?thesis by simp
qed

lemma pow2_split1: "(2::real) powi (e + 1) = 2 ^ 53 * 2 powi (e - 52)"
proof -
  have "e + 1 = 53 + (e - 52)" by simp
  then have "(2::real) powi (e + 1) = 2 powi (53 + (e - 52))" by (simp only:)
  also have "\<dots> = 2 powi 53 * 2 powi (e - 52)" by (rule power_int_add) simp
  finally show ?thesis by simp
qed

lemma pow2_le_imp: "(2::real) powi e < 2 powi f \<Longrightarrow> e < f"
proof (rule ccontr)
  assume a: "(2::real) powi e < 2 powi f" and "\<not> e < f"
  then have "f \<le> e" by simp
  then have "(2::real) powi f \<le> 2 powi e" by (intro power_int_increasing) simp_all
  then show False using a by simp
qed

lemma round64_binade:
  assumes "2 powi e \<le> x" "x < 2 powi (e + 1)"
  shows "2 powi e \<le> round64 x \<and> round64 x \<le> 2 powi (e + 1)"
proof -
  define u :: real where "u = 2 powi (e - 52)"
  have u: "0 < u" unfolding u_def by simp
  have xp: "0 < x" using assms(1) by (smt (verit) zero_less_power_int)
  have a: "2 powi e \<le> \<bar>x\<bar>" "\<bar>x\<bar> < 2 powi (e + 1)" using assms xp by simp_all
  have r: "round64 x = of_int (rne (x / u)) * u"
    unfolding u_def using a by (rule round64_eval)
  have lo: "(2::real) powi e = 2 ^ 52 * u" unfolding u_def by (rule pow2_split)
  have hi: "(2::real) powi (e + 1) = 2 ^ 53 * u" unfolding u_def by (rule pow2_split1)
  have "2 ^ 52 * u \<le> x" using assms(1) unfolding lo .
  then have "2 ^ 52 \<le> x / u" using u by (simp add: pos_le_divide_eq)
  then have "of_int (2 ^ 52) \<le> x / u" by simp
  then have 1: "2 ^ 52 \<le> rne (x / u)" by (rule rne_ge)
  have "x < 2 ^ 53 * u" using assms(2) unfolding hi .
  then have "x / u \<le> 2 ^ 53" using u by (simp add: pos_divide_le_eq)
  then have "x / u \<le> of_int (2 ^ 53)" by simp
  then have 2: "rne (x / u) \<le> 2 ^ 53" by (rule rne_le)
  have "of_int (2 ^ 52) * u \<le> of_int (rne (x / u)) * u"
    using 1 u by (intro mult_right_mono) simp_all
  moreover have "of_int (rne (x / u)) * u \<le> of_int (2 ^ 53) * u"
    using 2 u by (intro mult_right_mono) simp_all
  ultimately show ?thesis unfolding r lo hi by simp
qed

lemma round64_pos: "0 < x \<Longrightarrow> 0 < round64 x"
proof -
  assume "0 < x"
  then have "x \<noteq> 0" "\<bar>x\<bar> = x" by simp_all
  then have "2 powi \<lfloor>log 2 \<bar>x\<bar>\<rfloor> \<le> x \<and> x < 2 powi (\<lfloor>log 2 \<bar>x\<bar>\<rfloor> + 1)"
    using expo_bounds [of x] by simp
  then have "2 powi \<lfloor>log 2 \<bar>x\<bar>\<rfloor> \<le> round64 x" using round64_binade by blast
  then show ?thesis by (smt (verit) zero_less_power_int)
qed

lemma round64_nonneg: "0 \<le> x \<Longrightarrow> 0 \<le> round64 x"
  using round64_pos [of x] by (cases "x = 0") (simp_all add: round64_0)

lemma round64_nonpos: "x \<le> 0 \<Longrightarrow> round64 x \<le> 0"
  using round64_nonneg [of "- x"] by (simp add: round64_minus)

lemma round64_mono_pos:
  assumes "0 < x" "x \<le> y"
  shows "round64 x \<le> round64 y"
proof -
  define e where "e = \<lfloor>log 2 \<bar>x\<bar>\<rfloor>"
  define f where "f = \<lfloor>log 2 \<bar>y\<bar>\<rfloor>"
  have yp: "0 < y" using assms by simp
  have bx: "2 powi e \<le> x" "x < 2 powi (e + 1)"
    using expo_bounds [of x] assms(1) unfolding e_def by simp_all
  have yb: "2 powi f \<le> y" "y < 2 powi (f + 1)"
    using expo_bounds [of y] yp unfolding f_def by simp_all
  have "(2::real) powi e < 2 powi (f + 1)" using bx(1) yb(2) assms(2) by linarith
  then have "e < f + 1" by (rule pow2_le_imp)
  then have ef: "e \<le> f" by simp
  show ?thesis
  proof (cases "e = f")
    case True
    define u :: real where "u = 2 powi (e - 52)"
    have u: "0 < u" unfolding u_def by simp
    have rx: "round64 x = of_int (rne (x / u)) * u"
      unfolding u_def using bx assms(1) by (intro round64_eval) simp_all
    have ry: "round64 y = of_int (rne (y / u)) * u"
      unfolding u_def using yb yp True by (intro round64_eval) simp_all
    have "x / u \<le> y / u" using assms(2) u by (simp add: divide_right_mono)
    then have "rne (x / u) \<le> rne (y / u)" by (rule rne_mono)
    then show ?thesis unfolding rx ry using u by (intro mult_right_mono) simp_all
  next
    case False
    then have "e + 1 \<le> f" using ef by simp
    then have "(2::real) powi (e + 1) \<le> 2 powi f" by (intro power_int_increasing) simp_all
    moreover have "round64 x \<le> 2 powi (e + 1)" using round64_binade [OF bx] by blast
    moreover have "2 powi f \<le> round64 y" using round64_binade [OF yb] by blast
    ultimately show ?thesis by linarith
  qed
qed

lemma round64_mono: "x \<le> y \<Longrightarrow> round64 x \<le> round64 y"
proof -
  assume a: "x \<le> y"
  consider "0 < x" | "x \<le> 0" "0 \<le> y" | "y < 0" by linarith
  then show ?thesis
  proof cases
    case 1
    then show ?thesis using a by (rule round64_mono_pos)
  next
    case 2
    then show ?thesis using round64_nonpos [of x] round64_nonneg [of y] by linarith
  next
    case 3
    then have "round64 (- y) \<le> round64 (- x)" using a by (intro round64_mono_pos) simp_all
    then show ?thesis by (simp add: round64_minus)
  qed
qed

lemma round64_exact:
  assumes "\<bar>m\<bar> < 2 ^ 53"
  shows "round64 (of_int m * 2 powi e) = of_int m * 2 powi e"
proof (cases "m = 0")
  case True
  then show ?thesis by (simp add: round64_0)
next
  case False
  define x :: real where "x = of_int m * 2 powi e"
  define k where "k = \<lfloor>log 2 \<bar>x\<bar>\<rfloor>"
  define u :: real where "u = 2 powi (k - 52)"
  have x0: "x \<noteq> 0" unfolding x_def using False by simp
  have u: "0 < u" unfolding u_def by simp
  have ax: "\<bar>x\<bar> = of_int \<bar>m\<bar> * 2 powi e" unfolding x_def by (simp add: abs_mult)
  have "of_int \<bar>m\<bar> < (of_int (2 ^ 53) :: real)" using assms by (simp only: of_int_less_iff)
  then have "of_int \<bar>m\<bar> * 2 powi e < (2 ^ 53 :: real) * 2 powi e"
    by (intro mult_strict_right_mono) simp_all
  also have "(2 ^ 53 :: real) * 2 powi e = 2 powi (53 + e)"
    using power_int_add [of "2 :: real" 53 e] by simp
  finally have "\<bar>x\<bar> < 2 powi (53 + e)" unfolding ax .
  moreover have "2 powi k \<le> \<bar>x\<bar>" using expo_bounds [OF x0] unfolding k_def by blast
  ultimately have "(2::real) powi k < 2 powi (53 + e)" by linarith
  then have "k < 53 + e" by (rule pow2_le_imp)
  then have j: "0 \<le> e - (k - 52)" by simp
  have "x / u = of_int m * (2 powi e / 2 powi (k - 52))" unfolding x_def u_def by simp
  also have "2 powi e / 2 powi (k - 52) = (2::real) powi (e - (k - 52))"
    by (rule power_int_diff [symmetric]) simp
  also have "\<dots> = 2 ^ nat (e - (k - 52))" using j by (rule power_int_nonneg_exp)
  also have "of_int m * 2 ^ nat (e - (k - 52)) = (of_int (m * 2 ^ nat (e - (k - 52))) :: real)"
    by simp
  finally have "rne (x / u) = m * 2 ^ nat (e - (k - 52))" by (simp only: rne_of_int)
  then have "of_int (rne (x / u)) * u = of_int m * (2 ^ nat (e - (k - 52)) * u)" by simp
  also have "2 ^ nat (e - (k - 52)) * u = (2::real) powi (e - (k - 52)) * 2 powi (k - 52)"
    unfolding u_def using j by (simp add: power_int_nonneg_exp)
  also have "\<dots> = 2 powi ((e - (k - 52)) + (k - 52))"
    by (rule power_int_add [symmetric]) simp
  also have "(e - (k - 52)) + (k - 52) = e" by simp
  finally have "of_int (rne (x / u)) * u = x" unfolding x_def .
  moreover have "round64 x = of_int (rne (x / u)) * u"
    using x0 by (simp add: round64_def Let_def k_def u_def)
  ultimately show ?thesis unfolding x_def by simp
qed

lemma round64_of_int:
  assumes "\<bar>n\<bar> \<le> 2 ^ 53"
  shows "round64 (of_int n) = of_int n"
proof (cases "\<bar>n\<bar> < 2 ^ 53")
  case True
  then show ?thesis using round64_exact [of n 0] by simp
next
  case False
  then have "n = 2 ^ 53 \<or> n = - (2 ^ 53)" using assms by linarith
  then show ?thesis
    using round64_exact [of 1 53] round64_exact [of "- 1" 53] by auto
qed

lemma round64_rel_error: "\<bar>round64 x - x\<bar> \<le> \<bar>x\<bar> * 2 powi (- 53)"
proof (cases "x = 0")
  case True
  then show ?thesis by (simp add: round64_0)
next
  case False
  define k where "k = \<lfloor>log 2 \<bar>x\<bar>\<rfloor>"
  define u :: real where "u = 2 powi (k - 52)"
  have u: "0 < u" unfolding u_def by simp
  have r: "round64 x = of_int (rne (x / u)) * u"
    using False by (simp add: round64_def Let_def k_def u_def)
  have "round64 x - x = (of_int (rne (x / u)) - x / u) * u"
    unfolding r using u by (simp add: field_simps)
  then have "\<bar>round64 x - x\<bar> = \<bar>of_int (rne (x / u)) - x / u\<bar> * u"
    using u by (simp add: abs_mult)
  also have "\<dots> \<le> (1 / 2) * u"
    using rne_close [of "x / u"] u by (intro mult_right_mono) simp_all
  also have "u = 2 powi k * 2 powi (- 52)"
    unfolding u_def using power_int_add [of "2 :: real" k "- 52"] by simp
  also have "(1 / 2) * (2 powi k * 2 powi (- 52)) = 2 powi k * ((2::real) powi (- 53))"
    by (simp add: power_int_minus)
  also have "\<dots> \<le> \<bar>x\<bar> * 2 powi (- 53)"
    using expo_bounds [OF False] unfolding k_def by (intro mult_right_mono) simp_all
  finally show ?thesis .
qed

lemma round64_le: "x \<le> of_int m * 2 powi e \<Longrightarrow> \<bar>m\<bar> < 2 ^ 53 \<Longrightarrow> round64 x \<le> of_int m * 2 powi e"
  using round64_mono [of x "of_int m * 2 powi e"] by (simp add: round64_exact)

lemma round64_ge: "of_int m * 2 powi e \<le> x \<Longrightarrow> \<bar>m\<bar> < 2 ^ 53 \<Longrightarrow> of_int m * 2 powi e \<le> round64 x"
  using round64_mono [of "of_int m * 2 powi e" x] by (simp add: round64_exact)

lemma round64_le_int: "x \<le> of_int n \<Longrightarrow> \<bar>n\<bar> \<le> 2 ^ 53 \<Longrightarrow> round64 x \<le> of_int n"
  using round64_mono [of x "of_int n"] by (simp add: round64_of_int)

lemma round64_ge_int: "of_int n \<le> x \<Longrightarrow> \<bar>n\<bar> \<le> 2 ^ 53 \<Longrightarrow> of_int n \<le> round64 x"
  using round64_mono [of "of_int n" x] by (simp add: round64_of_int)

lemma float64_of_int_exact: "\<bar>n\<bar> \<le> 2 ^ 53 \<Longrightarrow> float64_of_int n = of_int n"
  by (simp add: float64_of_int_def round64_of_int)

lemma round64_numeral: "(numeral n :: int) \<le> 2 ^ 53 \<Longrightarrow> round64 (numeral n) = numeral n"
  using round64_of_int [of "numeral n"] by simp

lemma round64_1: "round64 1 = 1"
  using round64_of_int [of 1] by simp

subsection \<open>Conversions to \<^verbatim>\<open>int\<close> and \<^verbatim>\<open>math.Round\<close>\<close>

lemma int_of_float64_nonneg:
  "0 \<le> x \<Longrightarrow> x < 2 ^ 63 \<Longrightarrow> int_of_float64 x = \<lfloor>x\<rfloor>"
proof -
  assume a: "0 \<le> x" "x < 2 ^ 63"
  have "0 \<le> \<lfloor>x\<rfloor>" using a by simp
  moreover have "\<lfloor>x\<rfloor> < 2 ^ 63" using a by (simp add: floor_less_iff)
  ultimately show ?thesis using a by (simp add: int_of_float64_def in_int64_def)
qed

lemma int_of_float64_of_int: "in_int64 n \<Longrightarrow> int_of_float64 (real_of_int n) = n"
  by (simp add: int_of_float64_def)

lemma int_of_float64_between:
  assumes "of_int n \<le> x" "x < of_int n + 1" "0 \<le> n" "n < 2 ^ 62"
  shows "int_of_float64 x = n"
proof -
  have x0: "0 \<le> x" using assms(1,3) by linarith
  have "real_of_int n < 2 ^ 62" using assms(4) by (simp add: of_int_less_numeral_power_cancel_iff)
  then have "x < 2 ^ 63" using assms(2) by simp
  then have "int_of_float64 x = \<lfloor>x\<rfloor>" using x0 by (intro int_of_float64_nonneg)
  also have "\<dots> = n" using assms(1,2) by linarith
  finally show ?thesis .
qed

lemma int_of_float64_mono_nonneg:
  assumes "0 \<le> x" "x \<le> y" "y < 2 ^ 63"
  shows "int_of_float64 x \<le> int_of_float64 y"
proof -
  have "int_of_float64 x = \<lfloor>x\<rfloor>" using assms by (intro int_of_float64_nonneg) simp_all
  moreover have "int_of_float64 y = \<lfloor>y\<rfloor>" using assms by (intro int_of_float64_nonneg) simp_all
  ultimately show ?thesis using assms(2) by (simp add: floor_mono)
qed

lemma math_Round_of_int: "math_Round (real_of_int n) = real_of_int n"
proof -
  have "\<lfloor>real_of_int n + 1 / 2\<rfloor> = n" by linarith
  moreover have "\<lceil>real_of_int n - 1 / 2\<rceil> = n" by linarith
  ultimately show ?thesis by (simp add: math_Round_def)
qed

subsection \<open>Durations and day counts\<close>

lemma Since_bounds: "- (2 ^ 63) \<le> Since now t \<and> Since now t < 2 ^ 63"
  by (simp add: Since_def Time_Sub_def minDuration_def maxDuration_def Let_def)

lemma Since_eq: "- (2 ^ 63) \<le> now - t \<Longrightarrow> now - t < 2 ^ 63 \<Longrightarrow> Since now t = now - t"
  by (simp add: Since_def Time_Sub_def minDuration_def maxDuration_def Let_def)

lemma div_Hour_le: "d \<le> 2 ^ 63 \<Longrightarrow> d div 3600000000000 \<le> (2562047 :: int)"
proof -
  assume "d \<le> 2 ^ 63"
  then have "d \<le> 9223372036854775808" by simp
  then have "d div 3600000000000 \<le> 9223372036854775808 div (3600000000000 :: int)"
    by (rule zdiv_mono1) simp
  then show ?thesis by simp
qed

lemma Hours_nonneg:
  assumes "0 \<le> d" "d \<le> 2 ^ 63"
  shows "Hours d =
    round64 (of_int (d div 3600000000000) + round64 (of_int (d mod 3600000000000) / 3600000000000))"
proof -
  have q: "go_quo d Hour = d div 3600000000000"
    using assms(1) by (simp add: go_quo_nonneg Hour_def)
  have r: "go_rem d Hour = d mod 3600000000000"
    unfolding go_rem_def q by (simp add: Hour_def minus_mult_div_eq_mod)
  have "0 \<le> d div 3600000000000" "d div 3600000000000 \<le> 2562047"
    using assms div_Hour_le [of d] by (simp_all add: pos_imp_zdiv_nonneg_iff)
  then have 1: "float64_of_int (d div 3600000000000) = of_int (d div 3600000000000)"
    by (intro float64_of_int_exact) simp
  have "0 \<le> d mod 3600000000000" "d mod 3600000000000 < 3600000000000" by simp_all
  then have 2: "float64_of_int (d mod 3600000000000) = of_int (d mod 3600000000000)"
    by (intro float64_of_int_exact) simp
  show ?thesis
    by (simp add: Hours_def Let_def q r 1 2 float64_add_def float64_div_def)
qed

lemma go_quo_minus: "go_quo (- a) b = - go_quo a b"
  by (simp add: go_quo_def sgn_minus)

lemma Hours_minus: "Hours (- d) = - Hours d"
proof -
  have r: "go_rem (- d) Hour = - go_rem d Hour"
    by (simp add: go_rem_def go_quo_minus)
  have a: "float64_of_int (- n) = - float64_of_int n" for n
    by (simp add: float64_of_int_def round64_minus)
  have b: "float64_div (- x) y = - float64_div x y" for x y
    by (simp add: float64_div_def round64_minus)
  have c: "float64_add (- x) (- y) = - float64_add x y" for x y
  proof -
    have "- x + - y = - (x + y)" by simp
    then show ?thesis unfolding float64_add_def by (simp only: round64_minus)
  qed
  show ?thesis
    unfolding Hours_def Let_def go_quo_minus r a b c ..
qed

lemma Hours_range_nonneg:
  assumes "0 \<le> d" "d \<le> 2 ^ 63"
  shows "0 \<le> Hours d \<and> Hours d \<le> 2562048"
proof -
  define h where "h = d div 3600000000000"
  define r where "r = d mod 3600000000000"
  define q where "q = round64 (of_int r / 3600000000000)"
  have hb: "0 \<le> h" "h \<le> 2562047"
    unfolding h_def using assms div_Hour_le [of d] by (simp_all add: pos_imp_zdiv_nonneg_iff)
  have rb: "0 \<le> r" "r < 3600000000000" unfolding r_def by simp_all
  have "0 \<le> real_of_int r / 3600000000000" using rb by simp
  then have q0: "0 \<le> q" unfolding q_def by (rule round64_nonneg)
  have "real_of_int r / 3600000000000 \<le> of_int 1" using rb by simp
  then have "q \<le> of_int 1" unfolding q_def by (rule round64_le_int) simp
  then have q1: "q \<le> 1" by simp
  have H: "Hours d = round64 (of_int h + q)"
    unfolding h_def r_def q_def using assms by (rule Hours_nonneg)
  have "0 \<le> of_int h + q" using hb q0 by simp
  then have "0 \<le> Hours d" unfolding H by (rule round64_nonneg)
  moreover have "of_int h + q \<le> of_int 2562048" using hb q1 by simp
  then have "Hours d \<le> of_int 2562048" unfolding H by (rule round64_le_int) simp
  ultimately show ?thesis by simp
qed

lemma Hours_range:
  assumes "- (2 ^ 63) \<le> d" "d < 2 ^ 63"
  shows "- 2562048 \<le> Hours d \<and> Hours d \<le> 2562048"
proof (cases "0 \<le> d")
  case True
  then show ?thesis using Hours_range_nonneg [of d] assms by simp
next
  case False
  then have "0 \<le> - d" "- d \<le> 2 ^ 63" using assms by simp_all
  then have "0 \<le> Hours (- d) \<and> Hours (- d) \<le> 2562048" by (rule Hours_range_nonneg)
  then show ?thesis by (simp add: Hours_minus)
qed

lemma daysSince_range: "- 106752 \<le> daysSince now t \<and> daysSince now t \<le> 106752"
proof -
  have H: "- 2562048 \<le> Hours (Since now t) \<and> Hours (Since now t) \<le> 2562048"
    using Since_bounds [of now t] by (intro Hours_range) simp_all
  have "of_int (- 106752) \<le> Hours (Since now t) / 24" using H by simp
  then have "of_int (- 106752) \<le> round64 (Hours (Since now t) / 24)"
    by (rule round64_ge_int) simp
  moreover have "Hours (Since now t) / 24 \<le> of_int 106752" using H by simp
  then have "round64 (Hours (Since now t) / 24) \<le> of_int 106752"
    by (rule round64_le_int) simp
  ultimately show ?thesis by (simp add: daysSince_def float64_div_def)
qed

lemma daysSince_lower: "- 106752 \<le> daysSince now t"
  using daysSince_range by blast

lemma Hours_0: "Hours 0 = 0"
  using Hours_nonneg [of 0] by (simp add: round64_0)

lemma daysSince_self: "daysSince t t = 0"
  by (simp add: daysSince_def Since_eq Hours_0 float64_div_def round64_0)

text \<open>Whole hours.\<close>

lemma Hours_whole:
  assumes "0 \<le> k" "k \<le> 2562047"
  shows "Hours (k * 3600000000000) = of_int k"
proof -
  have "k * 3600000000000 \<le> 2 ^ 63" using assms by simp
  moreover have "0 \<le> k * 3600000000000" using assms by simp
  ultimately have "Hours (k * 3600000000000) =
    round64 (of_int (k * 3600000000000 div 3600000000000) +
      round64 (of_int (k * 3600000000000 mod 3600000000000) / 3600000000000))"
    by (intro Hours_nonneg) simp_all
  also have "\<dots> = round64 (of_int k)" by (simp add: round64_0)
  also have "\<dots> = of_int k" using assms by (intro round64_of_int) simp
  finally show ?thesis .
qed

text \<open>
  The day count \<^verbatim>\<open>d.Hours() / 24\<close> of a duration of at most a day, of more than a day, of
  3 ns or more and of at most 2 ns.
\<close>

lemma Hours_parts:
  assumes "0 \<le> d" "d \<le> 2 ^ 63"
  shows "\<exists>q. Hours d = round64 (of_int (d div 3600000000000) + q) \<and> 0 \<le> q \<and> q \<le> 1 \<and>
     q = round64 (of_int (d mod 3600000000000) / 3600000000000)"
proof -
  define r where "r = d mod 3600000000000"
  define q where "q = round64 (of_int r / 3600000000000)"
  have rb: "0 \<le> r" "r < 3600000000000" unfolding r_def by simp_all
  have "0 \<le> real_of_int r / 3600000000000" using rb by simp
  then have q0: "0 \<le> q" unfolding q_def by (rule round64_nonneg)
  have "real_of_int r / 3600000000000 \<le> of_int 1" using rb by simp
  then have "q \<le> of_int 1" unfolding q_def by (rule round64_le_int) simp
  then have q1: "q \<le> 1" by simp
  have "Hours d = round64 (of_int (d div 3600000000000) + q)"
    unfolding r_def q_def using assms by (rule Hours_nonneg)
  then show ?thesis using q0 q1 q_def r_def by blast
qed

lemma days_within_day:
  assumes "0 \<le> d" "d \<le> 86400000000000"
  shows "0 \<le> round64 (Hours d / 24) \<and> round64 (Hours d / 24) \<le> 1"
proof -
  have d63: "d \<le> 2 ^ 63" using assms(2) by simp
  obtain q where H: "Hours d = round64 (of_int (d div 3600000000000) + q)"
    and q: "0 \<le> q" "q \<le> 1" and qd: "q = round64 (of_int (d mod 3600000000000) / 3600000000000)"
    using Hours_parts [OF assms(1) d63] by blast
  have h0: "0 \<le> d div 3600000000000" using assms(1) by (simp add: pos_imp_zdiv_nonneg_iff)
  have "d div 3600000000000 \<le> 86400000000000 div (3600000000000 :: int)"
    using assms(2) by (rule zdiv_mono1) simp
  then have h24: "d div 3600000000000 \<le> 24" by simp
  have le: "of_int (d div 3600000000000) + q \<le> 24"
  proof (cases "d div 3600000000000 = 24")
    case True
    then have "d mod 3600000000000 = d - 86400000000000"
      using minus_mult_div_eq_mod [of d 3600000000000] by simp
    moreover have "0 \<le> d mod 3600000000000" by simp
    ultimately have "d mod 3600000000000 = 0" using assms(2) by linarith
    then have "q = 0" using qd by (simp add: round64_0)
    then show ?thesis using True by simp
  next
    case False
    then have "d div 3600000000000 \<le> 23" using h24 by simp
    then have "real_of_int (d div 3600000000000) \<le> 23" by linarith
    then show ?thesis using q(2) by linarith
  qed
  have "0 \<le> of_int (d div 3600000000000) + q" using h0 q(1) by simp
  then have H0: "0 \<le> Hours d" unfolding H by (rule round64_nonneg)
  have "of_int (d div 3600000000000) + q \<le> of_int 24" using le by simp
  then have "Hours d \<le> of_int 24" unfolding H by (rule round64_le_int) simp
  then have H24: "Hours d \<le> 24" by simp
  have "0 \<le> Hours d / 24" using H0 by simp
  then have "0 \<le> round64 (Hours d / 24)" by (rule round64_nonneg)
  moreover have "Hours d / 24 \<le> of_int 1" using H24 by simp
  then have "round64 (Hours d / 24) \<le> of_int 1" by (rule round64_le_int) simp
  ultimately show ?thesis by simp
qed

lemma days_after_day:
  assumes "86400000000000 < d" "d < 2 ^ 63"
  shows "1 + 5 * 2 powi (- 49) \<le> round64 (Hours d / 24)"
proof -
  have d0: "0 \<le> d" and d63: "d \<le> 2 ^ 63" using assms by simp_all
  obtain q where H: "Hours d = round64 (of_int (d div 3600000000000) + q)"
    and q: "0 \<le> q" "q \<le> 1" and qd: "q = round64 (of_int (d mod 3600000000000) / 3600000000000)"
    using Hours_parts [OF d0 d63] by blast
  have "86400000000000 div (3600000000000 :: int) \<le> d div 3600000000000"
    using assms(1) by (intro zdiv_mono1) simp_all
  then have h24: "24 \<le> d div 3600000000000" by simp
  have ge: "of_int (100663296 * 2 ^ 20 + 1) * 2 powi (- 42) \<le> of_int (d div 3600000000000) + q"
  proof (cases "d div 3600000000000 = 24")
    case True
    then have "d mod 3600000000000 = d - 86400000000000"
      using minus_mult_div_eq_mod [of d 3600000000000] by simp
    then have "1 \<le> d mod 3600000000000" using assms(1) by simp
    then have "(1::real) \<le> of_int (d mod 3600000000000)" by linarith
    then have "of_int 1 * 2 powi (- 42) \<le> real_of_int (d mod 3600000000000) / 3600000000000"
      by (simp add: field_simps)
    then have "of_int 1 * 2 powi (- 42) \<le> q" unfolding qd by (rule round64_ge) simp
    then show ?thesis using True by simp
  next
    case False
    then have "25 \<le> d div 3600000000000" using h24 by simp
    then have "(25::real) \<le> of_int (d div 3600000000000)" by linarith
    then show ?thesis using q(1) by simp
  qed
  have "of_int (100663296 * 2 ^ 20 + 1) * 2 powi (- 42) \<le> Hours d"
    unfolding H using ge by (rule round64_ge) simp
  then have "24 + 2 powi (- 42) \<le> Hours d" by simp
  then have "of_int (2 ^ 49 + 5) * 2 powi (- 49) \<le> Hours d / 24" by simp
  then have "of_int (2 ^ 49 + 5) * 2 powi (- 49) \<le> round64 (Hours d / 24)"
    by (rule round64_ge) simp
  then show ?thesis by simp
qed

lemma days_3ns:
  assumes "3 \<le> d" "d < 2 ^ 63"
  shows "9 * 2 powi (- 48) \<le> round64 (Hours d / 24)"
proof -
  have d0: "0 \<le> d" and d63: "d \<le> 2 ^ 63" using assms by simp_all
  obtain q where H: "Hours d = round64 (of_int (d div 3600000000000) + q)"
    and q: "0 \<le> q" "q \<le> 1" and qd: "q = round64 (of_int (d mod 3600000000000) / 3600000000000)"
    using Hours_parts [OF d0 d63] by blast
  have h0: "0 \<le> d div 3600000000000" using d0 by (simp add: pos_imp_zdiv_nonneg_iff)
  have ge: "of_int 7 * 2 powi (- 43) \<le> of_int (d div 3600000000000) + q"
  proof (cases "d div 3600000000000 = 0")
    case True
    then have "d mod 3600000000000 = d"
      using minus_mult_div_eq_mod [of d 3600000000000] by simp
    then have "(3::real) \<le> of_int (d mod 3600000000000)" using assms(1) by simp
    then have "of_int 7 * 2 powi (- 43) \<le> real_of_int (d mod 3600000000000) / 3600000000000"
      by (simp add: field_simps)
    then have "of_int 7 * 2 powi (- 43) \<le> q" unfolding qd by (rule round64_ge) simp
    then show ?thesis using True by simp
  next
    case False
    then have "1 \<le> d div 3600000000000" using h0 by simp
    then have "(1::real) \<le> of_int (d div 3600000000000)" by linarith
    then show ?thesis using q(1) by simp
  qed
  have "of_int 7 * 2 powi (- 43) \<le> Hours d"
    unfolding H using ge by (rule round64_ge) simp
  then have "of_int 9 * 2 powi (- 48) \<le> Hours d / 24" by simp
  then have "of_int 9 * 2 powi (- 48) \<le> round64 (Hours d / 24)"
    by (rule round64_ge) simp
  then show ?thesis by simp
qed

lemma daysSince_eq: "daysSince now t = round64 (Hours (Since now t) / 24)"
  by (simp add: daysSince_def float64_div_def)

lemma days_pos:
  assumes "0 < d" "d < 2 ^ 63"
  shows "0 < round64 (Hours d / 24)"
proof -
  have d0: "0 \<le> d" and d63: "d \<le> 2 ^ 63" using assms by simp_all
  obtain q where H: "Hours d = round64 (of_int (d div 3600000000000) + q)"
    and q: "0 \<le> q" "q \<le> 1" and qd: "q = round64 (of_int (d mod 3600000000000) / 3600000000000)"
    using Hours_parts [OF d0 d63] by blast
  have h0: "0 \<le> d div 3600000000000" using d0 by (simp add: pos_imp_zdiv_nonneg_iff)
  have "0 < of_int (d div 3600000000000) + q"
  proof (cases "d div 3600000000000 = 0")
    case True
    then have "d mod 3600000000000 = d"
      using minus_mult_div_eq_mod [of d 3600000000000] by simp
    then have "0 < real_of_int (d mod 3600000000000) / 3600000000000" using assms(1) by simp
    then have "0 < q" unfolding qd by (rule round64_pos)
    then show ?thesis using True by simp
  next
    case False
    then have "1 \<le> d div 3600000000000" using h0 by simp
    then have "(1::real) \<le> of_int (d div 3600000000000)" by linarith
    then show ?thesis using q(1) by simp
  qed
  then have "0 < Hours d" unfolding H by (rule round64_pos)
  then have "0 < Hours d / 24" by simp
  then show ?thesis by (rule round64_pos)
qed

lemma days_2ns:
  assumes "0 \<le> d" "d \<le> 2"
  shows "0 \<le> round64 (Hours d / 24) \<and> round64 (Hours d / 24) \<le> 2 powi (- 45)"
proof -
  have d63: "d \<le> 2 ^ 63" using assms(2) by simp
  have dv: "d div 3600000000000 = 0" "d mod 3600000000000 = d" using assms by simp_all
  have H: "Hours d = round64 (round64 (of_int d / 3600000000000))"
    using Hours_nonneg [OF assms(1) d63] by (simp add: dv)
  have "real_of_int d \<le> 2" using assms(2) by simp
  then have "real_of_int d / 3600000000000 \<le> of_int 5 * 2 powi (- 43)" by (simp add: field_simps)
  then have "round64 (real_of_int d / 3600000000000) \<le> of_int 5 * 2 powi (- 43)"
    by (rule round64_le) simp
  then have "Hours d \<le> of_int 5 * 2 powi (- 43)" unfolding H by (rule round64_le) simp
  then have "Hours d / 24 \<le> of_int 1 * 2 powi (- 45)" by simp
  then have "round64 (Hours d / 24) \<le> of_int 1 * 2 powi (- 45)" by (rule round64_le) simp
  moreover have "0 \<le> real_of_int d / 3600000000000" using assms(1) by simp
  then have "0 \<le> round64 (real_of_int d / 3600000000000)" by (rule round64_nonneg)
  then have "0 \<le> Hours d" unfolding H by (rule round64_nonneg)
  then have "0 \<le> Hours d / 24" by simp
  then have "0 \<le> round64 (Hours d / 24)" by (rule round64_nonneg)
  ultimately show ?thesis by simp
qed

lemma daysSince_within_day:
  assumes "0 \<le> Since now t" "Since now t \<le> 86400000000000"
  shows "0 \<le> daysSince now t \<and> daysSince now t \<le> 1"
  unfolding daysSince_eq using assms by (rule days_within_day)

lemma daysSince_after_day:
  assumes "86400000000000 < Since now t"
  shows "1 + 2 powi (- 47) < daysSince now t"
proof -
  have "Since now t < 2 ^ 63" using Since_bounds by blast
  then have "1 + 5 * 2 powi (- 49) \<le> daysSince now t"
    unfolding daysSince_eq using assms by (intro days_after_day)
  then show ?thesis by simp
qed

lemma daysSince_from_3ns:
  assumes "3 \<le> Since now t"
  shows "2 powi (- 45) < daysSince now t"
proof -
  have "Since now t < 2 ^ 63" using Since_bounds by blast
  then have "9 * 2 powi (- 48) \<le> daysSince now t"
    unfolding daysSince_eq using assms by (intro days_3ns)
  then show ?thesis by simp
qed

lemma daysSince_upto_2ns:
  assumes "0 \<le> Since now t" "Since now t \<le> 2"
  shows "0 \<le> daysSince now t \<and> daysSince now t \<le> 2 powi (- 45)"
  unfolding daysSince_eq using assms by (rule days_2ns)

lemma daysSince_pos:
  assumes "0 < Since now t"
  shows "0 < daysSince now t"
proof -
  have "Since now t < 2 ^ 63" using Since_bounds by blast
  then show ?thesis unfolding daysSince_eq using assms by (intro days_pos)
qed

lemma daysSince_hours:
  assumes "0 \<le> k" "k \<le> 2562047"
  shows "daysSince now (now - k * 3600000000000) = round64 (of_int k / 24)"
proof -
  have "Since now (now - k * 3600000000000) = now - (now - k * 3600000000000)"
    using assms by (intro Since_eq) simp_all
  then have "Since now (now - k * 3600000000000) = k * 3600000000000" by simp
  then show ?thesis using Hours_whole [OF assms] by (simp add: daysSince_eq)
qed

lemma daysSince_half_day: "daysSince now (now - 12 * Hour) = 1 / 2"
proof -
  have "round64 (of_int 1 * 2 powi (- 1)) = of_int 1 * 2 powi (- 1)"
    by (rule round64_exact) simp
  then have "round64 (1 / 2) = 1 / 2" by simp
  then show ?thesis using daysSince_hours [of 12 now] by (simp add: Hour_def)
qed

lemma daysSince_days:
  assumes "0 \<le> n" "n \<le> 106751"
  shows "daysSince now (now - n * day) = of_int n"
proof -
  have "daysSince now (now - (n * 24) * 3600000000000) = round64 (of_int (n * 24) / 24)"
    using assms by (intro daysSince_hours) simp_all
  moreover have "round64 (of_int n) = of_int n" using assms by (intro round64_of_int) simp
  ultimately show ?thesis by (simp add: day_def mult.commute)
qed

subsection \<open>The recency multiplier\<close>

lemma updateMultiplier64_eq:
  "updateMultiplier64 d = round64 (round64 (1 + round64 (100 - min d 100)) / 100)"
  by (simp add: updateMultiplier64_def float64_div_def float64_add_def float64_sub_def math_Min_def)

lemma round64_near_99:
  assumes "99 - 2 powi (- 47) \<le> x" "x \<le> 100"
  shows "99 \<le> round64 x"
proof -
  have p: "(2::real) powi (- 47) \<le> 1" by simp
  have b: "2 powi 6 \<le> \<bar>x\<bar>" "\<bar>x\<bar> < 2 powi (6 + 1)" using assms p by simp_all
  have e: "round64 x = of_int (rne (x / 2 powi (6 - 52))) * 2 powi (6 - 52)"
    using b by (rule round64_eval)
  have "real_of_int (99 * 2 ^ 46) - 1 / 2 \<le> x / 2 powi (6 - 52)"
    using assms(1) by (simp add: field_simps)
  then have "99 * 2 ^ 46 \<le> rne (x / 2 powi (6 - 52))"
    by (intro rne_tie_up) simp_all
  then have "real_of_int (99 * 2 ^ 46) \<le> real_of_int (rne (x / 2 powi (6 - 52)))"
    by (rule of_int_le_iff [THEN iffD2])
  then have "real_of_int (99 * 2 ^ 46) * 2 powi (6 - 52) \<le> round64 x"
    unfolding e by (intro mult_right_mono) simp_all
  then show ?thesis by simp
qed

lemma round64_below_99:
  assumes "0 \<le> x" "x < 99 - 2 powi (- 47)"
  shows "round64 x \<le> of_int (99 * 2 ^ 46 - 1) * 2 powi (- 46)"
proof (cases "64 \<le> x")
  case True
  have b: "2 powi 6 \<le> \<bar>x\<bar>" "\<bar>x\<bar> < 2 powi (6 + 1)" using assms True by simp_all
  have e: "round64 x = of_int (rne (x / 2 powi (6 - 52))) * 2 powi (6 - 52)"
    using b by (rule round64_eval)
  have "x / 2 powi (6 - 52) < real_of_int (99 * 2 ^ 46 - 1) + 1 / 2"
    using assms(2) by (simp add: field_simps)
  then have "rne (x / 2 powi (6 - 52)) \<le> 99 * 2 ^ 46 - 1"
    by (rule rne_lt_half)
  then have "real_of_int (rne (x / 2 powi (6 - 52))) \<le> real_of_int (99 * 2 ^ 46 - 1)"
    by (rule of_int_le_iff [THEN iffD2])
  then have "round64 x \<le> real_of_int (99 * 2 ^ 46 - 1) * 2 powi (6 - 52)"
    unfolding e by (intro mult_right_mono) simp_all
  then show ?thesis by simp
next
  case False
  then have "x \<le> of_int 64" by simp
  then have "round64 x \<le> of_int 64" by (rule round64_le_int) simp
  then show ?thesis by simp
qed

lemma updateMultiplier_one:
  assumes "0 \<le> d" "d \<le> 1 + 2 powi (- 47)"
  shows "updateMultiplier d = 1"
proof -
  have p: "(2::real) powi (- 47) \<le> 1" by simp
  have m: "min d 100 = d" using assms p by simp
  define x where "x = round64 (100 - d)"
  define y where "y = round64 (1 + x)"
  define z where "z = round64 (y / 100)"
  have x1: "99 \<le> x" unfolding x_def using assms by (intro round64_near_99) simp_all
  have "100 - d \<le> of_int 100" using assms by simp
  then have "x \<le> of_int 100" unfolding x_def by (rule round64_le_int) simp
  then have x2: "x \<le> 100" by simp
  have "of_int 100 \<le> 1 + x" using x1 by simp
  then have "of_int 100 \<le> y" unfolding y_def by (rule round64_ge_int) simp
  then have y1: "100 \<le> y" by simp
  have "1 + x \<le> of_int 101" using x2 by simp
  then have "y \<le> of_int 101" unfolding y_def by (rule round64_le_int) simp
  then have y2: "y \<le> 101" by simp
  have "of_int 1 \<le> y / 100" using y1 by simp
  then have "of_int 1 \<le> z" unfolding z_def by (rule round64_ge_int) simp
  then have z1: "of_int 1 \<le> z" by simp
  have "y / 100 \<le> of_int 3 * 2 powi (- 1)" using y2 by simp
  then have "z \<le> of_int 3 * 2 powi (- 1)" unfolding z_def by (rule round64_le) simp
  then have z2: "z < of_int 1 + 1" by simp
  have "int_of_float64 z = 1" using z1 z2 by (rule int_of_float64_between) simp_all
  then show ?thesis
    by (simp add: updateMultiplier_def updateMultiplier64_eq m x_def y_def z_def)
qed

lemma updateMultiplier_zero:
  assumes "1 + 2 powi (- 47) < d"
  shows "updateMultiplier d = 0"
proof -
  define x where "x = round64 (100 - min d 100)"
  define y where "y = round64 (1 + x)"
  define z where "z = round64 (y / 100)"
  have x1: "0 \<le> x" unfolding x_def by (rule round64_nonneg) simp
  have "100 - min d 100 < 99 - 2 powi (- 47)" using assms by (simp add: min_def)
  then have x2: "x \<le> of_int (99 * 2 ^ 46 - 1) * 2 powi (- 46)"
    unfolding x_def by (intro round64_below_99) simp_all
  have "0 \<le> 1 + x" using x1 by simp
  then have y1: "0 \<le> y" unfolding y_def by (rule round64_nonneg)
  have "1 + x \<le> of_int (100 * 2 ^ 46 - 1) * 2 powi (- 46)" using x2 by simp
  then have y2: "y \<le> of_int (100 * 2 ^ 46 - 1) * 2 powi (- 46)"
    unfolding y_def by (rule round64_le) simp
  have "0 \<le> y / 100" using y1 by simp
  then have z1: "of_int 0 \<le> z" unfolding z_def using round64_nonneg by simp
  have "y / 100 \<le> of_int (2 ^ 53 - 1) * 2 powi (- 53)" using y2 by simp
  then have "z \<le> of_int (2 ^ 53 - 1) * 2 powi (- 53)" unfolding z_def by (rule round64_le) simp
  then have z2: "z < of_int 0 + 1" by simp
  have "int_of_float64 z = 0" using z1 z2 by (rule int_of_float64_between) simp_all
  then show ?thesis
    by (simp add: updateMultiplier_def updateMultiplier64_eq x_def y_def z_def)
qed

lemma updateMultiplier_bounds:
  assumes "- 106752 \<le> d"
  shows "0 \<le> updateMultiplier d \<and> updateMultiplier d \<le> 1069"
proof -
  define x where "x = round64 (100 - min d 100)"
  define y where "y = round64 (1 + x)"
  define z where "z = round64 (y / 100)"
  have x1: "0 \<le> x" unfolding x_def by (rule round64_nonneg) simp
  have "100 - min d 100 \<le> of_int 106852" using assms by (simp add: min_def)
  then have "x \<le> of_int 106852" unfolding x_def by (rule round64_le_int) simp
  then have x2: "x \<le> 106852" by simp
  have "0 \<le> 1 + x" using x1 by simp
  then have y1: "0 \<le> y" unfolding y_def by (rule round64_nonneg)
  have "1 + x \<le> of_int 106853" using x2 by simp
  then have "y \<le> of_int 106853" unfolding y_def by (rule round64_le_int) simp
  then have y2: "y \<le> 106853" by simp
  have "0 \<le> y / 100" using y1 by simp
  then have z1: "0 \<le> z" unfolding z_def by (rule round64_nonneg)
  have "y / 100 \<le> of_int 1069" using y2 by simp
  then have "z \<le> of_int 1069" unfolding z_def by (rule round64_le_int) simp
  then have z2: "z \<le> 1069" by simp
  have "int_of_float64 z = \<lfloor>z\<rfloor>" using z1 z2 by (intro int_of_float64_nonneg) simp_all
  moreover have "0 \<le> \<lfloor>z\<rfloor>" using z1 by simp
  moreover have "\<lfloor>z\<rfloor> \<le> 1069" using z2 by (simp add: floor_le_iff)
  ultimately show ?thesis
    by (simp add: updateMultiplier_def updateMultiplier64_eq x_def y_def z_def)
qed

subsection \<open>The creation factor\<close>

lemma creationBoost64_eq:
  "creationBoost64 d = round64 (round64 (365 - min d 365) / 365)"
  by (simp add: creationBoost64_def float64_div_def float64_sub_def math_Min_def)

lemma round64_near_365:
  assumes "365 - 2 powi (- 45) \<le> x" "x \<le> 365"
  shows "round64 x = 365"
proof -
  have p: "(2::real) powi (- 45) \<le> 1" by simp
  have b: "2 powi 8 \<le> \<bar>x\<bar>" "\<bar>x\<bar> < 2 powi (8 + 1)" using assms p by simp_all
  have e: "round64 x = of_int (rne (x / 2 powi (8 - 52))) * 2 powi (8 - 52)"
    using b by (rule round64_eval)
  have "real_of_int (365 * 2 ^ 44) - 1 / 2 \<le> x / 2 powi (8 - 52)"
    using assms(1) by (simp add: field_simps)
  then have "365 * 2 ^ 44 \<le> rne (x / 2 powi (8 - 52))"
    by (intro rne_tie_up) simp_all
  then have "real_of_int (365 * 2 ^ 44) \<le> real_of_int (rne (x / 2 powi (8 - 52)))"
    by (rule of_int_le_iff [THEN iffD2])
  then have "real_of_int (365 * 2 ^ 44) * 2 powi (8 - 52) \<le> round64 x"
    unfolding e by (intro mult_right_mono) simp_all
  then have "365 \<le> round64 x" by simp
  moreover have "x \<le> of_int 365" using assms(2) by simp
  then have "round64 x \<le> of_int 365" by (rule round64_le_int) simp
  ultimately show ?thesis by simp
qed

lemma round64_below_365:
  assumes "0 \<le> x" "x < 365 - 2 powi (- 45)"
  shows "round64 x \<le> of_int (365 * 2 ^ 44 - 1) * 2 powi (- 44)"
proof (cases "256 \<le> x")
  case True
  have b: "2 powi 8 \<le> \<bar>x\<bar>" "\<bar>x\<bar> < 2 powi (8 + 1)" using assms True by simp_all
  have e: "round64 x = of_int (rne (x / 2 powi (8 - 52))) * 2 powi (8 - 52)"
    using b by (rule round64_eval)
  have "x / 2 powi (8 - 52) < real_of_int (365 * 2 ^ 44 - 1) + 1 / 2"
    using assms(2) by (simp add: field_simps)
  then have "rne (x / 2 powi (8 - 52)) \<le> 365 * 2 ^ 44 - 1"
    by (rule rne_lt_half)
  then have "real_of_int (rne (x / 2 powi (8 - 52))) \<le> real_of_int (365 * 2 ^ 44 - 1)"
    by (rule of_int_le_iff [THEN iffD2])
  then have "round64 x \<le> real_of_int (365 * 2 ^ 44 - 1) * 2 powi (8 - 52)"
    unfolding e by (intro mult_right_mono) simp_all
  then show ?thesis by simp
next
  case False
  then have "x \<le> of_int 256" by simp
  then have "round64 x \<le> of_int 256" by (rule round64_le_int) simp
  then show ?thesis by simp
qed

lemma creationBoost_one:
  assumes "0 \<le> d" "d \<le> 2 powi (- 45)"
  shows "creationBoost d = 1"
proof -
  have p: "(2::real) powi (- 45) \<le> 1" by simp
  have m: "min d 365 = d" using assms p by simp
  have "round64 (365 - d) = 365" using assms by (intro round64_near_365) simp_all
  then have "creationBoost64 d = 1" by (simp add: creationBoost64_eq m round64_1)
  then show ?thesis by (simp add: creationBoost_def int_of_float64_def in_int64_def)
qed

lemma creationBoost_zero:
  assumes "2 powi (- 45) < d"
  shows "creationBoost d = 0"
proof -
  define x where "x = round64 (365 - min d 365)"
  define z where "z = round64 (x / 365)"
  have x1: "0 \<le> x" unfolding x_def by (rule round64_nonneg) simp
  have "365 - min d 365 < 365 - 2 powi (- 45)" using assms by (simp add: min_def)
  then have x2: "x \<le> of_int (365 * 2 ^ 44 - 1) * 2 powi (- 44)"
    unfolding x_def by (intro round64_below_365) simp_all
  have "0 \<le> x / 365" using x1 by simp
  then have z1: "of_int 0 \<le> z" unfolding z_def using round64_nonneg by simp
  have "x / 365 \<le> of_int (2 ^ 53 - 1) * 2 powi (- 53)" using x2 by simp
  then have "z \<le> of_int (2 ^ 53 - 1) * 2 powi (- 53)" unfolding z_def by (rule round64_le) simp
  then have z2: "z < of_int 0 + 1" by simp
  have "int_of_float64 z = 0" using z1 z2 by (rule int_of_float64_between) simp_all
  then show ?thesis
    by (simp add: creationBoost_def creationBoost64_eq x_def z_def)
qed

lemma creationBoost_bounds:
  assumes "- 106752 \<le> d"
  shows "0 \<le> creationBoost d \<and> creationBoost d \<le> 294"
proof -
  define x where "x = round64 (365 - min d 365)"
  define z where "z = round64 (x / 365)"
  have x1: "0 \<le> x" unfolding x_def by (rule round64_nonneg) simp
  have "365 - min d 365 \<le> of_int 107117" using assms by (simp add: min_def)
  then have "x \<le> of_int 107117" unfolding x_def by (rule round64_le_int) simp
  then have x2: "x \<le> 107117" by simp
  have "0 \<le> x / 365" using x1 by simp
  then have z1: "0 \<le> z" unfolding z_def by (rule round64_nonneg)
  have "x / 365 \<le> of_int 294" using x2 by simp
  then have "z \<le> of_int 294" unfolding z_def by (rule round64_le_int) simp
  then have z2: "z \<le> 294" by simp
  have "int_of_float64 z = \<lfloor>z\<rfloor>" using z1 z2 by (intro int_of_float64_nonneg) simp_all
  moreover have "0 \<le> \<lfloor>z\<rfloor>" using z1 by simp
  moreover have "\<lfloor>z\<rfloor> \<le> 294" using z2 by (simp add: floor_le_iff)
  ultimately show ?thesis
    by (simp add: creationBoost_def creationBoost64_eq x_def z_def)
qed

subsection \<open>The boost\<close>

lemma boost64_eq:
  "boost64 d = round64 (1000 - round64 (min d 365 * round64 (274 / 100)))"
  by (simp add: boost64_def float64_sub_def float64_mul_def math_Min_def)

lemma const_274_bounds:
  "of_int 21 * 2 powi (- 3) \<le> round64 (274 / 100) \<and> round64 (274 / 100) \<le> of_int 351 * 2 powi (- 7)"
proof -
  have "of_int 21 * 2 powi (- 3) \<le> (274 / 100 :: real)" by simp
  then have "of_int 21 * 2 powi (- 3) \<le> round64 (274 / 100)" by (rule round64_ge) simp
  moreover have "(274 / 100 :: real) \<le> of_int 351 * 2 powi (- 7)" by simp
  then have "round64 (274 / 100) \<le> of_int 351 * 2 powi (- 7)" by (rule round64_le) simp
  ultimately show ?thesis ..
qed

lemma boost_0: "boost 0 = 1000"
proof -
  have "round64 1000 = 1000" by (rule round64_numeral) simp
  then have "boost64 0 = 1000" by (simp add: boost64_eq round64_0)
  then show ?thesis by (simp add: boost_def int_of_float64_def in_int64_def)
qed

lemma boost_2: "boost 2 = 994"
proof -
  define c where "c = round64 (274 / 100)"
  define p where "p = round64 (2 * c)"
  define b where "b = round64 (1000 - p)"
  have c: "of_int 21 * 2 powi (- 3) \<le> c" "c \<le> of_int 351 * 2 powi (- 7)"
    unfolding c_def using const_274_bounds by simp_all
  have "of_int 21 * 2 powi (- 2) \<le> 2 * c" using c(1) by simp
  then have p1: "of_int 21 * 2 powi (- 2) \<le> p" unfolding p_def by (rule round64_ge) simp
  have "2 * c \<le> of_int 11 * 2 powi (- 1)" using c(2) by simp
  then have p2: "p \<le> of_int 11 * 2 powi (- 1)" unfolding p_def by (rule round64_le) simp
  have "of_int 994 \<le> 1000 - p" using p2 by simp
  then have b1: "of_int 994 \<le> b" unfolding b_def by (rule round64_ge_int) simp
  have "1000 - p \<le> of_int 3979 * 2 powi (- 2)" using p1 by simp
  then have "b \<le> of_int 3979 * 2 powi (- 2)" unfolding b_def by (rule round64_le) simp
  then have b2: "b < of_int 994 + 1" by simp
  have "int_of_float64 b = 994" using b1 b2 by (rule int_of_float64_between) simp_all
  then show ?thesis by (simp add: boost_def boost64_eq b_def p_def c_def)
qed

lemma boost_bounds:
  assumes "- 106752 \<le> d"
  shows "0 \<le> boost d \<and> boost d \<le> 293735"
proof -
  define c where "c = round64 (274 / 100)"
  define m where "m = min d 365"
  define p where "p = round64 (m * c)"
  define b where "b = round64 (1000 - p)"
  have c: "of_int 21 * 2 powi (- 3) \<le> c" "c \<le> of_int 351 * 2 powi (- 7)"
    unfolding c_def using const_274_bounds by simp_all
  have c0: "0 \<le> c" "c \<le> 351 / 128" using c by simp_all
  have m: "- 106752 \<le> m" "m \<le> 365" unfolding m_def using assms by simp_all
  have "m * c \<le> 365 * (351 / 128)"
  proof (cases "0 \<le> m")
    case True
    then show ?thesis using m(2) c0 by (intro mult_mono) simp_all
  next
    case False
    then have "m * c \<le> 0" using c0 by (simp add: mult_le_0_iff)
    then show ?thesis by simp
  qed
  then have "m * c \<le> of_int 128115 * 2 powi (- 7)" by simp
  then have p2: "p \<le> of_int 128115 * 2 powi (- 7)" unfolding p_def by (rule round64_le) simp
  have "- m * c \<le> 106752 * (351 / 128)"
  proof (cases "0 \<le> - m")
    case True
    then show ?thesis using m(1) c0 by (intro mult_mono) simp_all
  next
    case False
    then have "- m * c \<le> 0" using c0 by (simp add: mult_le_0_iff)
    then show ?thesis by simp
  qed
  then have "of_int (- 292735) \<le> m * c" by simp
  then have "of_int (- 292735) \<le> p" unfolding p_def by (rule round64_ge_int) simp
  then have p1: "- 292735 \<le> p" by simp
  have "of_int (- 115) * 2 powi (- 7) \<le> 1000 - p" using p2 by simp
  then have "of_int (- 115) * 2 powi (- 7) \<le> b" unfolding b_def by (rule round64_ge) simp
  then have b1: "- 1 < b" by simp
  have "1000 - p \<le> of_int 293735" using p1 by simp
  then have "b \<le> of_int 293735" unfolding b_def by (rule round64_le_int) simp
  then have b2: "b \<le> 293735" by simp
  have "0 \<le> int_of_float64 b \<and> int_of_float64 b \<le> 293735"
  proof (cases "0 \<le> b")
    case True
    then have "int_of_float64 b = \<lfloor>b\<rfloor>" using b2 by (intro int_of_float64_nonneg) simp_all
    then show ?thesis using True b2 by (simp add: floor_le_iff)
  next
    case False
    then have "\<lceil>b\<rceil> = 0" using b1 by (simp add: ceiling_eq_iff)
    then have "int_of_float64 b = 0" using False
      by (simp add: int_of_float64_def in_int64_def)
    then show ?thesis by simp
  qed
  then show ?thesis by (simp add: boost_def boost64_eq b_def p_def m_def c_def)
qed

subsection \<open>The final score\<close>

lemma finalScore_eq:
  assumes "- (2 ^ 53) + 50 \<le> s" "s \<le> 2 ^ 53"
  shows "finalScore s = s - 50"
proof -
  have "\<bar>s\<bar> \<le> 2 ^ 53" using assms by simp
  then have a: "float64_of_int s = of_int s" by (rule float64_of_int_exact)
  have "\<bar>s - 50\<bar> \<le> 2 ^ 53" using assms by simp
  then have "round64 (of_int (s - 50)) = of_int (s - 50)" by (rule round64_of_int)
  then have b: "float64_sub (of_int s) 50 = of_int (s - 50)" by (simp add: float64_sub_def)
  have "in_int64 (s - 50)" using assms by (simp add: in_int64_def)
  then show ?thesis
    unfolding finalScore_def a b math_Round_of_int by (rule int_of_float64_of_int)
qed

lemma round64_least: 
  assumes "- (2 ^ 63) - 50 \<le> x" "x \<le> - (2 ^ 63) + 50"
  shows "round64 x = - (2 ^ 63)"
proof -
  have "- x \<le> of_int 1 * 2 powi 63 + 50" using assms(1) by simp
  have "of_int (2 ^ 53 - 1) * 2 powi 10 \<le> - x" using assms(2) by simp
  then have lo: "of_int (2 ^ 53 - 1) * 2 powi 10 \<le> round64 (- x)" by (rule round64_ge) simp
  show ?thesis
  proof (cases "- x < 2 ^ 63")
    case True
    then have "- x \<le> of_int 1 * 2 powi 63" by simp
    then have "round64 (- x) \<le> of_int 1 * 2 powi 63" by (rule round64_le) simp
    moreover have b: "2 powi 62 \<le> \<bar>- x\<bar>" "\<bar>- x\<bar> < 2 powi (62 + 1)" using assms True by simp_all
    have e: "round64 (- x) = of_int (rne (- x / 2 powi (62 - 52))) * 2 powi (62 - 52)"
      using b by (rule round64_eval)
    have "real_of_int (2 ^ 53) - 1 / 2 < - x / 2 powi (62 - 52)"
      using assms(2) by (simp add: field_simps)
    then have "2 ^ 53 \<le> rne (- x / 2 powi (62 - 52))" by (rule rne_gt_half)
    then have "real_of_int (2 ^ 53) \<le> real_of_int (rne (- x / 2 powi (62 - 52)))"
      by (rule of_int_le_iff [THEN iffD2])
    then have "real_of_int (2 ^ 53) * 2 powi (62 - 52) \<le> round64 (- x)"
      unfolding e by (intro mult_right_mono) simp_all
    ultimately have "round64 (- x) = 2 ^ 63" by simp
    then show ?thesis by (simp add: round64_minus)
  next
    case False
    then have "of_int 1 * 2 powi 63 \<le> - x" by simp
    then have "of_int 1 * 2 powi 63 \<le> round64 (- x)" by (rule round64_ge) simp
    moreover have b: "2 powi 63 \<le> \<bar>- x\<bar>" "\<bar>- x\<bar> < 2 powi (63 + 1)" using assms False by simp_all
    have e: "round64 (- x) = of_int (rne (- x / 2 powi (63 - 52))) * 2 powi (63 - 52)"
      using b by (rule round64_eval)
    have "- x / 2 powi (63 - 52) < real_of_int (2 ^ 52) + 1 / 2"
      using assms(1) by (simp add: field_simps)
    then have "rne (- x / 2 powi (63 - 52)) \<le> 2 ^ 52" by (rule rne_lt_half)
    then have "real_of_int (rne (- x / 2 powi (63 - 52))) \<le> real_of_int (2 ^ 52)"
      by (rule of_int_le_iff [THEN iffD2])
    then have "round64 (- x) \<le> real_of_int (2 ^ 52) * 2 powi (63 - 52)"
      unfolding e by (intro mult_right_mono) simp_all
    ultimately have "round64 (- x) = 2 ^ 63" by simp
    then show ?thesis by (simp add: round64_minus)
  qed
qed

lemma finalScore_least:
  assumes "- (2 ^ 63) \<le> s" "s \<le> - (2 ^ 63) + 50"
  shows "finalScore s = - (2 ^ 63)"
proof -
  have "real_of_int (- (2 ^ 63)) \<le> real_of_int s" "real_of_int s \<le> real_of_int (- (2 ^ 63) + 50)"
    using assms by (simp_all only: of_int_le_iff)
  then have s: "- (2 ^ 63) \<le> real_of_int s" "real_of_int s \<le> - (2 ^ 63) + 50" by simp_all
  have a: "float64_of_int s = - (2 ^ 63)"
    unfolding float64_of_int_def using s by (intro round64_least) simp_all
  have b: "float64_sub (- (2 ^ 63)) 50 = - (2 ^ 63)"
    unfolding float64_sub_def by (intro round64_least) simp_all
  have "math_Round (real_of_int (- (2 ^ 63))) = real_of_int (- (2 ^ 63))"
    by (rule math_Round_of_int)
  then have c: "math_Round (- (2 ^ 63)) = real_of_int (- (2 ^ 63))" by simp
  have "int_of_float64 (real_of_int (- (2 ^ 63))) = - (2 ^ 63)"
    by (rule int_of_float64_of_int) (simp add: in_int64_def)
  then show ?thesis unfolding finalScore_def a b c .
qed

subsection \<open>The stages of the score\<close>

lemma boostedScore_no_boost:
  assumes "creationBoost (daysSince now2 (GetCreatedAt gh)) = 0"
  shows "boostedScore now1 now2 gh s = wrap64 (s * updateMultiplier (daysSince now1 (GetUpdatedAt gh)))"
  using assms
  by (simp add: boostedScore_def Let_def wrap64_0 wrap64_wrap64)

lemma weightedScore_Some:
  assumes "ForksCount gh = Some f" "SubscribersCount gh = Some w"
    "StargazersCount gh = Some g" "OpenIssuesCount gh = Some i"
  shows "weightedScore gh = Inr (wrap64 (wrap64 (wrap64 (wrap64 (50 + wrap64 (f * 5)) + w) + go_quo g 3) + go_quo i 5))"
  using assms by (simp add: weightedScore_def)

lemma weightedScore_None:
  assumes "ForksCount gh = None \<or> SubscribersCount gh = None \<or> StargazersCount gh = None
     \<or> OpenIssuesCount gh = None"
  shows "weightedScore gh = Inl NilPointerDereference"
  using assms by (auto simp add: weightedScore_def split: option.splits)

lemma preCompressionScore_cong:
  assumes "Motivation md = Motivation md'" "Guidelines md = Guidelines md'"
  shows "preCompressionScore now1 now2 \<lparr>GH = gh, Metadata = Some md\<rparr> =
     preCompressionScore now1 now2 \<lparr>GH = gh, Metadata = Some md'\<rparr>"
  using assms by (simp add: preCompressionScore_def split: option.splits sum.splits)

lemma preCompressionScore_Some:
  "preCompressionScore now1 now2 \<lparr>GH = Some gh, Metadata = Some md\<rparr> =
     (case weightedScore gh of Inl e \<Rightarrow> Inl e | Inr w \<Rightarrow>
       (case Description gh of None \<Rightarrow> Inl NilPointerDereference | Some d \<Rightarrow>
          Inr (guidelinesBonus (Guidelines md)
                 (descriptionBonus d (Motivation md) (boostedScore now1 now2 gh w)))))"
  by (simp add: preCompressionScore_def Let_def split: sum.splits option.splits)

lemma weightedScore_Description_update:
  "weightedScore (gh\<lparr>Description := x\<rparr>) = weightedScore gh"
  by (simp add: weightedScore_def split: option.splits)

lemma boostedScore_Description_update:
  "boostedScore now1 now2 (gh\<lparr>Description := x\<rparr>) w = boostedScore now1 now2 gh w"
  by (simp add: boostedScore_def GetUpdatedAt_def GetCreatedAt_def)

lemma in_int64_boostedScore: "in_int64 (boostedScore now1 now2 gh s)"
  by (simp add: boostedScore_def Let_def in_int64_wrap64)

lemma in_int64_descriptionBonus: "in_int64 s \<Longrightarrow> in_int64 (descriptionBonus d m s)"
  by (simp add: descriptionBonus_def in_int64_wrap64)

lemma in_int64_guidelinesBonus: "in_int64 s \<Longrightarrow> in_int64 (guidelinesBonus g s)"
  by (simp add: guidelinesBonus_def in_int64_wrap64)

lemma in_int64_preCompressionScore:
  "preCompressionScore now1 now2 repo = Inr s \<Longrightarrow> in_int64 s"
  by (auto simp add: preCompressionScore_def Let_def in_int64_guidelinesBonus
      in_int64_descriptionBonus in_int64_boostedScore split: option.splits sum.splits)

lemma GetRepositoryActivityScore_fst:
  assumes "preCompressionScore now1 now2 repo = Inr s"
  shows "fst (GetRepositoryActivityScore now1 now2 (Some repo)) = Inr (finalScore (logScale s))"
proof -
  obtain md where "Metadata repo = Some md"
    using assms by (auto simp add: preCompressionScore_def split: option.splits sum.splits)
  then show ?thesis using assms by (simp add: GetRepositoryActivityScore_def Let_def)
qed

lemma score_below_threshold:
  assumes "preCompressionScore now1 now2 repo = Inr p" "p \<le> 3000" "- (2 ^ 53) + 50 \<le> p"
  shows "fst (GetRepositoryActivityScore now1 now2 (Some repo)) = Inr (p - 50)"
proof -
  have "logScale p = p" using assms(2) by (simp add: logScale_def)
  moreover have "finalScore p = p - 50"
    using assms(2,3) by (intro finalScore_eq) simp_all
  ultimately show ?thesis using GetRepositoryActivityScore_fst [OF assms(1)] by simp
qed

subsection \<open>Counts that cannot overflow\<close>

lemma weightedScore_bounded:
  assumes "ForksCount gh = Some f" "SubscribersCount gh = Some w"
    "StargazersCount gh = Some g" "OpenIssuesCount gh = Some i"
    and "0 \<le> f" "f \<le> 10 ^ 15" "0 \<le> w" "w \<le> 10 ^ 15"
    and "0 \<le> g" "g \<le> 10 ^ 15" "0 \<le> i" "i \<le> 10 ^ 15"
  shows "weightedScore gh = Inr (50 + f * 5 + w + g div 3 + i div 5)"
proof -
  have g3: "go_quo g 3 = g div 3" using assms(9) by (simp add: go_quo_nonneg)
  have i5: "go_quo i 5 = i div 5" using assms(11) by (simp add: go_quo_nonneg)
  have gb: "0 \<le> g div 3 \<and> g div 3 \<le> 10 ^ 15" using assms(9,10) by linarith
  have ib: "0 \<le> i div 5 \<and> i div 5 \<le> 10 ^ 15" using assms(11,12) by linarith
  have 1: "wrap64 (f * 5) = f * 5"
    using assms(5,6) by (intro wrap64_id) (simp add: in_int64_def)
  have 2: "wrap64 (50 + f * 5) = 50 + f * 5"
    using assms(5,6) by (intro wrap64_id) (simp add: in_int64_def)
  have 3: "wrap64 (50 + f * 5 + w) = 50 + f * 5 + w"
    using assms(5-8) by (intro wrap64_id) (simp add: in_int64_def)
  have 4: "wrap64 (50 + f * 5 + w + g div 3) = 50 + f * 5 + w + g div 3"
    using assms(5-8) gb by (intro wrap64_id) (simp add: in_int64_def)
  have 5: "wrap64 (50 + f * 5 + w + g div 3 + i div 5) = 50 + f * 5 + w + g div 3 + i div 5"
    using assms(5-8) gb ib by (intro wrap64_id) (simp add: in_int64_def)
  show ?thesis
    using assms(1-4) by (simp add: weightedScore_Some g3 i5 1 2 3 4 5)
qed

lemma boostedScore_bounded:
  assumes "0 \<le> s" "s \<le> 81 * 10 ^ 14"
  shows "boostedScore now1 now2 gh s =
      s * updateMultiplier (daysSince now1 (GetUpdatedAt gh)) +
      boost (daysSince now1 (GetUpdatedAt gh)) * creationBoost (daysSince now2 (GetCreatedAt gh))
    \<and> 0 \<le> boostedScore now1 now2 gh s \<and> boostedScore now1 now2 gh s \<le> 9 * 10 ^ 18"
proof -
  define m where "m = updateMultiplier (daysSince now1 (GetUpdatedAt gh))"
  define b where "b = boost (daysSince now1 (GetUpdatedAt gh))"
  define c where "c = creationBoost (daysSince now2 (GetCreatedAt gh))"
  have mb: "0 \<le> m \<and> m \<le> 1069"
    unfolding m_def by (rule updateMultiplier_bounds) (rule daysSince_lower)
  have bb: "0 \<le> b \<and> b \<le> 293735"
    unfolding b_def by (rule boost_bounds) (rule daysSince_lower)
  have cb: "0 \<le> c \<and> c \<le> 294"
    unfolding c_def by (rule creationBoost_bounds) (rule daysSince_lower)
  have sm0: "0 \<le> s * m" using assms(1) mb by simp
  have "s * m \<le> (81 * 10 ^ 14) * 1069" using assms mb by (intro mult_mono) simp_all
  then have sm1: "s * m \<le> 8658900000000000000" by simp
  have bc0: "0 \<le> b * c" using bb cb by simp
  have "b * c \<le> 293735 * 294" using bb cb by (intro mult_mono) simp_all
  then have bc1: "b * c \<le> 86358090" by simp
  have 1: "wrap64 (s * m) = s * m"
    using sm0 sm1 by (intro wrap64_id) (simp add: in_int64_def)
  have 2: "wrap64 (b * c) = b * c"
    using bc0 bc1 by (intro wrap64_id) (simp add: in_int64_def)
  have 3: "wrap64 (s * m + b * c) = s * m + b * c"
    using sm0 sm1 bc0 bc1 by (intro wrap64_id) (simp add: in_int64_def)
  have "boostedScore now1 now2 gh s = s * m + b * c"
    by (simp add: boostedScore_def Let_def m_def [symmetric] b_def [symmetric] c_def [symmetric] 1 2 3)
  then show ?thesis using sm0 sm1 bc0 bc1 unfolding m_def b_def c_def by simp
qed

lemma descriptionBonus_bounded:
  assumes "0 \<le> s" "s \<le> 9 * 10 ^ 18"
  shows "descriptionBonus d m s = s + (if 30 < length d \<or> 30 < length m then 50 else 0)"
proof -
  have "wrap64 (s + 50) = s + 50"
    using assms by (intro wrap64_id) (simp add: in_int64_def)
  then show ?thesis by (simp add: descriptionBonus_def)
qed

lemma guidelinesBonus_bounded:
  assumes "0 \<le> s" "s \<le> 9 * 10 ^ 18 + 50"
  shows "guidelinesBonus gl s = s + (if gl \<noteq> [] then 100 else 0)"
proof -
  have "wrap64 (s + 100) = s + 100"
    using assms by (intro wrap64_id) (simp add: in_int64_def)
  then show ?thesis by (simp add: guidelinesBonus_def)
qed

lemma bonuses_bounded:
  assumes "0 \<le> s" "s \<le> 9 * 10 ^ 18"
  shows "guidelinesBonus gl (descriptionBonus d m s) =
     s + (if 30 < length d \<or> 30 < length m then 50 else 0) + (if gl \<noteq> [] then 100 else 0)"
proof -
  have d: "descriptionBonus d m s = s + (if 30 < length d \<or> 30 < length m then 50 else 0)"
    using assms by (rule descriptionBonus_bounded)
  have "0 \<le> descriptionBonus d m s" "descriptionBonus d m s \<le> 9 * 10 ^ 18 + 50"
    unfolding d using assms by simp_all
  then have "guidelinesBonus gl (descriptionBonus d m s) =
      descriptionBonus d m s + (if gl \<noteq> [] then 100 else 0)"
    by (rule guidelinesBonus_bounded)
  then show ?thesis by (simp only: d)
qed

lemma preCompressionScore_bounded:
  assumes "ForksCount gh = Some f" "SubscribersCount gh = Some w"
    "StargazersCount gh = Some g" "OpenIssuesCount gh = Some i"
    "Description gh = Some d"
    and "0 \<le> f" "f \<le> 10 ^ 15" "0 \<le> w" "w \<le> 10 ^ 15"
    and "0 \<le> g" "g \<le> 10 ^ 15" "0 \<le> i" "i \<le> 10 ^ 15"
  shows "preCompressionScore now1 now2 \<lparr>GH = Some gh, Metadata = Some md\<rparr> =
     Inr ((50 + f * 5 + w + g div 3 + i div 5) * updateMultiplier (daysSince now1 (GetUpdatedAt gh)) +
      boost (daysSince now1 (GetUpdatedAt gh)) * creationBoost (daysSince now2 (GetCreatedAt gh)) +
      (if 30 < length d \<or> 30 < length (Motivation md) then 50 else 0) +
      (if Guidelines md \<noteq> [] then 100 else 0))"
proof -
  define e where "e = 50 + f * 5 + w + g div 3 + i div 5"
  have w: "weightedScore gh = Inr e"
    unfolding e_def using assms(1-4,6-13) by (rule weightedScore_bounded)
  have gb: "0 \<le> g div 3 \<and> g div 3 \<le> 10 ^ 15" using assms(10,11) by linarith
  have ib: "0 \<le> i div 5 \<and> i div 5 \<le> 10 ^ 15" using assms(12,13) by linarith
  have e0: "0 \<le> e" unfolding e_def using assms(6-9) gb ib by simp
  have e1: "e \<le> 81 * 10 ^ 14" unfolding e_def using assms(6-9) gb ib by simp
  note bs = boostedScore_bounded [OF e0 e1, of now1 now2 gh]
  have "guidelinesBonus (Guidelines md) (descriptionBonus d (Motivation md) (boostedScore now1 now2 gh e)) =
     boostedScore now1 now2 gh e + (if 30 < length d \<or> 30 < length (Motivation md) then 50 else 0)
       + (if Guidelines md \<noteq> [] then 100 else 0)"
    using bs by (intro bonuses_bounded) simp_all
  then show ?thesis
    using assms(5) w bs unfolding e_def [symmetric]
    by (simp add: preCompressionScore_def Let_def)
qed

text \<open>A repository updated and created at the two clock readings, with moderate counts.\<close>

lemma updateMultiplier_0: "updateMultiplier 0 = 1"
  by (rule updateMultiplier_one) simp_all

lemma creationBoost_0: "creationBoost 0 = 1"
  by (rule creationBoost_one) simp_all

lemma preCompressionScore_fresh:
  assumes "0 \<le> f" "f \<le> 10 ^ 15" "0 \<le> w" "w \<le> 10 ^ 15"
    and "0 \<le> g" "g \<le> 10 ^ 15" "0 \<le> i" "i \<le> 10 ^ 15"
  shows "preCompressionScore now1 now2
     \<lparr>GH = Some (snapshot f w g i d now1 now2), Metadata = Some md\<rparr> =
     Inr (50 + f * 5 + w + g div 3 + i div 5 + 1000 +
      (if 30 < length d \<or> 30 < length (Motivation md) then 50 else 0) +
      (if Guidelines md \<noteq> [] then 100 else 0))"
proof -
  have u: "GetUpdatedAt (snapshot f w g i d now1 now2) = now1"
    "GetCreatedAt (snapshot f w g i d now1 now2) = now2"
    by (simp_all add: GetUpdatedAt_def GetCreatedAt_def snapshot_def)
  have "preCompressionScore now1 now2
     \<lparr>GH = Some (snapshot f w g i d now1 now2), Metadata = Some md\<rparr> =
     Inr ((50 + f * 5 + w + g div 3 + i div 5) *
        updateMultiplier (daysSince now1 (GetUpdatedAt (snapshot f w g i d now1 now2))) +
      boost (daysSince now1 (GetUpdatedAt (snapshot f w g i d now1 now2))) *
        creationBoost (daysSince now2 (GetCreatedAt (snapshot f w g i d now1 now2))) +
      (if 30 < length d \<or> 30 < length (Motivation md) then 50 else 0) +
      (if Guidelines md \<noteq> [] then 100 else 0))"
    using assms by (intro preCompressionScore_bounded) (simp_all add: snapshot_def)
  then show ?thesis by (simp add: u daysSince_self updateMultiplier_0 boost_0 creationBoost_0)
qed

subsection \<open>Bounds of the exponential function\<close>

text \<open>
  Rational bounds of \<open>exp (1317 / 50)\<close>, from sixteen terms of the series at \<open>1317 / 3200\<close>
  and six squarings, each rounded outwards at 24 decimals.
\<close>

lemma exp_Taylor_16:
  "(\<Sum>m<16. (1317 / 3200 :: real) ^ m / fact m) =
     102273019994731412421879102360523598197276450231186191048472117 / 67767545744317653017329401856000000000000000000000000000000000"
  by (simp add: lessThan_nat_numeral fact_numeral power_divide)

lemma exp_step_bounds:
  "1509174028237654790789884 / 1000000000000000000000000 \<le> exp (1317 / 3200 :: real) \<and>
   exp (1317 / 3200 :: real) \<le> 1509174028237654790887042 / 1000000000000000000000000"
proof -
  obtain t :: real where t: "\<bar>t\<bar> \<le> \<bar>1317 / 3200\<bar>"
    and e: "exp (1317 / 3200 :: real) =
      (\<Sum>m<16. (1317 / 3200) ^ m / fact m) + exp t / fact 16 * (1317 / 3200) ^ 16"
    using Maclaurin_exp_le [of "1317 / 3200" 16] by blast
  have "t \<le> 1" using t by simp
  then have "exp t \<le> exp 1" by (simp only: exp_le_cancel_iff)
  then have t3: "exp t \<le> 3" using exp_le by (rule order_trans)
  have t0: "0 \<le> exp t" by simp
  define r where "r = exp t / fact 16 * (1317 / 3200) ^ 16"
  have r0: "0 \<le> r" unfolding r_def using t0 by simp
  have "exp t / fact 16 * (1317 / 3200) ^ 16 \<le> 3 / fact 16 * (1317 / 3200) ^ 16"
    using t3 by (intro mult_right_mono divide_right_mono) simp_all
  also have "\<dots> = 3 * (112368574396919830770331374255229508902249762089 / 3469698342109063834487265375027200000000000000000000000000000000000)" by (simp add: fact_numeral power_divide)
  finally have r1: "r \<le> 3 * (112368574396919830770331374255229508902249762089 / 3469698342109063834487265375027200000000000000000000000000000000000)" unfolding r_def .
  have lo: "1509174028237654790789884 / 1000000000000000000000000 \<le>
    (102273019994731412421879102360523598197276450231186191048472117 / 67767545744317653017329401856000000000000000000000000000000000 :: real)" by simp
  have hi: "102273019994731412421879102360523598197276450231186191048472117 / 67767545744317653017329401856000000000000000000000000000000000 + 3 * (112368574396919830770331374255229508902249762089 / 3469698342109063834487265375027200000000000000000000000000000000000) \<le>
    (1509174028237654790887042 / 1000000000000000000000000 :: real)" by simp
  have "exp (1317 / 3200 :: real) = 102273019994731412421879102360523598197276450231186191048472117 / 67767545744317653017329401856000000000000000000000000000000000 + r"
    unfolding e exp_Taylor_16 r_def ..
  then show ?thesis using r0 r1 lo hi by linarith
qed

lemma exp_square_lower:
  fixes a a' x :: real
  assumes "0 \<le> a" "a \<le> exp x" "a' \<le> a * a"
  shows "a' \<le> exp (2 * x)"
proof -
  have e: "exp (2 * x) = exp x * exp x" by (simp add: exp_double power2_eq_square)
  have "a * a \<le> exp x * exp x" by (rule mult_mono) (simp_all add: assms)
  then show ?thesis unfolding e using assms(3) by simp
qed

lemma exp_square_upper:
  fixes b b' x :: real
  assumes "exp x \<le> b" "b * b \<le> b'"
  shows "exp (2 * x) \<le> b'"
proof -
  have e: "exp (2 * x) = exp x * exp x" by (simp add: exp_double power2_eq_square)
  have "0 \<le> exp x" by simp
  then have "0 \<le> b" using assms(1) by (rule order_trans)
  then have "exp x * exp x \<le> b * b" by (intro mult_mono assms(1)) simp_all
  then show ?thesis unfolding e using assms(2) by simp
qed

lemma exp_bounds_1:
  "2277606247507069659836212 / 1000000000000000000000000 \<le> exp (1317 / 1600 :: real) \<and>
   exp (1317 / 1600 :: real) \<le> 2277606247507069660129470 / 1000000000000000000000000"
proof -
  have p: "1509174028237654790789884 / 1000000000000000000000000 \<le> exp (1317 / 3200 :: real)"
    "exp (1317 / 3200 :: real) \<le> 1509174028237654790887042 / 1000000000000000000000000"
    using exp_step_bounds by simp_all
  have d: "(1317 / 1600 :: real) = 2 * (1317 / 3200)" by simp
  have "2277606247507069659836212 / 1000000000000000000000000 \<le> exp (2 * (1317 / 3200) :: real)"
    by (rule exp_square_lower [OF _ p(1)]) simp_all
  moreover have "exp (2 * (1317 / 3200) :: real) \<le> 2277606247507069660129470 / 1000000000000000000000000"
    by (rule exp_square_upper [OF p(2)]) simp
  ultimately show ?thesis unfolding d by simp
qed

lemma exp_bounds_2:
  "5187490218683235059071362 / 1000000000000000000000000 \<le> exp (1317 / 800 :: real) \<and>
   exp (1317 / 800 :: real) \<le> 5187490218683235060407216 / 1000000000000000000000000"
proof -
  have p: "2277606247507069659836212 / 1000000000000000000000000 \<le> exp (1317 / 1600 :: real)"
    "exp (1317 / 1600 :: real) \<le> 2277606247507069660129470 / 1000000000000000000000000"
    using exp_bounds_1 by simp_all
  have d: "(1317 / 800 :: real) = 2 * (1317 / 1600)" by simp
  have "5187490218683235059071362 / 1000000000000000000000000 \<le> exp (2 * (1317 / 1600) :: real)"
    by (rule exp_square_lower [OF _ p(1)]) simp_all
  moreover have "exp (2 * (1317 / 1600) :: real) \<le> 5187490218683235060407216 / 1000000000000000000000000"
    by (rule exp_square_upper [OF p(2)]) simp
  ultimately show ?thesis unfolding d by simp
qed

lemma exp_bounds_3:
  "26910054768934237895521495 / 1000000000000000000000000 \<le> exp (1317 / 400 :: real) \<and>
   exp (1317 / 400 :: real) \<le> 26910054768934237909380955 / 1000000000000000000000000"
proof -
  have p: "5187490218683235059071362 / 1000000000000000000000000 \<le> exp (1317 / 800 :: real)"
    "exp (1317 / 800 :: real) \<le> 5187490218683235060407216 / 1000000000000000000000000"
    using exp_bounds_2 by simp_all
  have d: "(1317 / 400 :: real) = 2 * (1317 / 800)" by simp
  have "26910054768934237895521495 / 1000000000000000000000000 \<le> exp (2 * (1317 / 800) :: real)"
    by (rule exp_square_lower [OF _ p(1)]) simp_all
  moreover have "exp (2 * (1317 / 800) :: real) \<le> 26910054768934237909380955 / 1000000000000000000000000"
    by (rule exp_square_upper [OF p(2)]) simp
  ultimately show ?thesis unfolding d by simp
qed

lemma exp_bounds_4:
  "724151047667040319694521785 / 1000000000000000000000000 \<le> exp (1317 / 200 :: real) \<and>
   exp (1317 / 200 :: real) \<le> 724151047667040320440439441 / 1000000000000000000000000"
proof -
  have p: "26910054768934237895521495 / 1000000000000000000000000 \<le> exp (1317 / 400 :: real)"
    "exp (1317 / 400 :: real) \<le> 26910054768934237909380955 / 1000000000000000000000000"
    using exp_bounds_3 by simp_all
  have d: "(1317 / 200 :: real) = 2 * (1317 / 400)" by simp
  have "724151047667040319694521785 / 1000000000000000000000000 \<le> exp (2 * (1317 / 400) :: real)"
    by (rule exp_square_lower [OF _ p(1)]) simp_all
  moreover have "exp (2 * (1317 / 400) :: real) \<le> 724151047667040320440439441 / 1000000000000000000000000"
    by (rule exp_square_upper [OF p(2)]) simp
  ultimately show ?thesis unfolding d by simp
qed

lemma exp_bounds_5:
  "524394739837272101240948129642 / 1000000000000000000000000 \<le> exp (1317 / 100 :: real) \<and>
   exp (1317 / 100 :: real) \<le> 524394739837272102321262233774 / 1000000000000000000000000"
proof -
  have p: "724151047667040319694521785 / 1000000000000000000000000 \<le> exp (1317 / 200 :: real)"
    "exp (1317 / 200 :: real) \<le> 724151047667040320440439441 / 1000000000000000000000000"
    using exp_bounds_4 by simp_all
  have d: "(1317 / 100 :: real) = 2 * (1317 / 200)" by simp
  have "524394739837272101240948129642 / 1000000000000000000000000 \<le> exp (2 * (1317 / 200) :: real)"
    by (rule exp_square_lower [OF _ p(1)]) simp_all
  moreover have "exp (2 * (1317 / 200) :: real) \<le> 524394739837272102321262233774 / 1000000000000000000000000"
    by (rule exp_square_upper [OF p(2)]) simp
  ultimately show ?thesis unfolding d by simp
qed

lemma exp_bounds_6:
  "274989843169000291705481712628742001 / 1000000000000000000000000 \<le> exp (1317 / 50 :: real) \<and>
   exp (1317 / 50 :: real) \<le> 274989843169000292838503779786413646 / 1000000000000000000000000"
proof -
  have p: "524394739837272101240948129642 / 1000000000000000000000000 \<le> exp (1317 / 100 :: real)"
    "exp (1317 / 100 :: real) \<le> 524394739837272102321262233774 / 1000000000000000000000000"
    using exp_bounds_5 by simp_all
  have d: "(1317 / 50 :: real) = 2 * (1317 / 100)" by simp
  have "274989843169000291705481712628742001 / 1000000000000000000000000 \<le> exp (2 * (1317 / 100) :: real)"
    by (rule exp_square_lower [OF _ p(1)]) simp_all
  moreover have "exp (2 * (1317 / 100) :: real) \<le> 274989843169000292838503779786413646 / 1000000000000000000000000"
    by (rule exp_square_upper [OF p(2)]) simp
  ultimately show ?thesis unfolding d by simp
qed

subsection \<open>The logarithmic scale\<close>

lemma logScale_eq:
  "3000 < s \<Longrightarrow> logScale s =
     int_of_float64 (round64 (3000 + round64 (round64 (ln (round64 (of_int s))) * 100)))"
  by (simp add: logScale_def float64_add_def float64_mul_def math_Log_def float64_of_int_def)

lemma float64_of_int64_bounds:
  assumes "3000 < s" "in_int64 s"
  shows "3001 \<le> round64 (of_int s) \<and> round64 (of_int s) \<le> 2 ^ 63 \<and>
    \<bar>round64 (of_int s) - of_int s\<bar> \<le> of_int s * 2 powi (- 53)"
proof -
  have "of_int 3001 \<le> real_of_int s" using assms(1) by (simp only: of_int_le_iff)
  then have "of_int 3001 \<le> round64 (real_of_int s)" by (rule round64_ge_int) simp
  then have a: "3001 \<le> round64 (of_int s)" by simp
  have "s \<le> 2 ^ 63" using assms(2) by (simp add: in_int64_def)
  then have "real_of_int s \<le> real_of_int (2 ^ 63)" by (rule of_int_le_iff [THEN iffD2])
  then have "real_of_int s \<le> of_int 1 * 2 powi 63" by simp
  then have "round64 (real_of_int s) \<le> of_int 1 * 2 powi 63" by (rule round64_le) simp
  then have b: "round64 (of_int s) \<le> 2 ^ 63" by simp
  have "0 \<le> real_of_int s" using assms(1) by simp
  then have c: "\<bar>round64 (of_int s) - of_int s\<bar> \<le> of_int s * 2 powi (- 53)"
    using round64_rel_error [of "of_int s"] by simp
  show ?thesis using a b c by simp
qed

lemma ln_close:
  fixes F r :: real
  assumes "0 < r" "\<bar>F - r\<bar> \<le> r * 2 powi (- 53)"
  shows "\<bar>ln F - ln r\<bar> \<le> 2 powi (- 52)"
proof -
  define e :: real where "e = 2 powi (- 53)"
  have e: "0 < e" "e \<le> 1 / 2" "2 * e = 2 powi (- 52)" unfolding e_def by simp_all
  have d: "\<bar>F - r\<bar> \<le> r * e" using assms(2) unfolding e_def .
  have "r * e \<le> r * (1 / 2)" using assms(1) e(2) by (intro mult_left_mono) simp_all
  then have F: "r / 2 \<le> F" using d by simp
  then have Fp: "0 < F" using assms(1) by simp
  have "ln F - ln r = ln (F / r)" using assms(1) Fp by (simp add: ln_div)
  also have "\<dots> \<le> F / r - 1" using assms(1) Fp by (intro ln_le_minus_one) simp
  also have "\<dots> = (F - r) / r" using assms(1) by (simp add: field_simps)
  also have "\<dots> \<le> (r * e) / r" using d assms(1) by (intro divide_right_mono) simp_all
  also have "\<dots> = e" using assms(1) by simp
  finally have up: "ln F - ln r \<le> 2 * e" using e(1) by simp
  have "ln r - ln F = ln (r / F)" using assms(1) Fp by (simp add: ln_div)
  also have "\<dots> \<le> r / F - 1" using assms(1) Fp by (intro ln_le_minus_one) simp
  also have "\<dots> = (r - F) / F" using Fp by (simp add: field_simps)
  also have "\<dots> \<le> (r * e) / F" using d Fp by (intro divide_right_mono) simp_all
  also have "\<dots> \<le> (r * e) / (r / 2)"
    using assms(1) e(1) F by (intro divide_left_mono) simp_all
  also have "\<dots> = 2 * e" using assms(1) by simp
  finally have lo: "ln r - ln F \<le> 2 * e" .
  have "\<bar>ln F - ln r\<bar> \<le> 2 * e" using up lo by linarith
  then show ?thesis by (simp only: e(3))
qed

lemma ln_float64_bound:
  fixes F :: real
  assumes "3001 \<le> F" "F \<le> 2 ^ 63"
  shows "0 \<le> ln F \<and> ln F \<le> 63"
proof -
  have F1: "1 \<le> F" using assms(1) by simp
  define B :: real where "B = 2 ^ 63"
  have "F \<le> B" using assms(2) by (simp add: B_def)
  then have "ln F \<le> ln B" using F1 by (simp add: ln_le_cancel_iff)
  also have "ln B = real 63 * ln 2" unfolding B_def by (rule ln_realpow)
  also have "\<dots> \<le> 63" using ln_2_less_1 by simp
  finally have "ln F \<le> 63" .
  moreover have "0 \<le> ln F" using F1 by simp
  ultimately show ?thesis by simp
qed

text \<open>
  The value \<^verbatim>\<open>logScore64\<close> of line 334 lies within \<open>2 powi (- 38)\<close> of the real number
  \<open>3000 + ln s * 100\<close>.
\<close>

lemma logScore64_close:
  assumes "3000 < s" "in_int64 s"
  shows "3000 \<le> round64 (3000 + round64 (round64 (ln (round64 (of_int s))) * 100)) \<and>
    round64 (3000 + round64 (round64 (ln (round64 (of_int s))) * 100)) \<le> 9300 \<and>
    \<bar>round64 (3000 + round64 (round64 (ln (round64 (of_int s))) * 100)) -
       (3000 + ln (of_int s) * 100)\<bar> \<le> 2 powi (- 38)"
proof -
  define Q where "Q = round64 (3000 + round64 (round64 (ln (round64 (of_int s))) * 100))"
  define r where "r = real_of_int s"
  define F where "F = round64 r"
  define L where "L = round64 (ln F)"
  define P where "P = round64 (L * 100)"
  define e :: real where "e = 2 powi (- 53)"
  have Q: "Q = round64 (3000 + P)" by (simp add: Q_def P_def L_def F_def r_def)
  have e0: "0 \<le> e" unfolding e_def by simp
  have r0: "0 < r" unfolding r_def using assms(1) by simp
  have Fb: "3001 \<le> F" "F \<le> 2 ^ 63" "\<bar>F - r\<bar> \<le> r * 2 powi (- 53)"
    unfolding F_def r_def using float64_of_int64_bounds [OF assms(1,2)] by simp_all
  have lb: "0 \<le> ln F" "ln F \<le> 63" using ln_float64_bound [OF Fb(1,2)] by simp_all
  have d0: "\<bar>ln F - ln r\<bar> \<le> 2 * e"
    using ln_close [OF r0 Fb(3)] unfolding e_def by simp
  have "\<bar>L - ln F\<bar> \<le> \<bar>ln F\<bar> * e" unfolding L_def e_def by (rule round64_rel_error)
  also have "\<dots> \<le> 63 * e" using lb e0 by (intro mult_right_mono) simp_all
  finally have d1: "\<bar>L - ln F\<bar> \<le> 63 * e" .
  have L0: "0 \<le> L" unfolding L_def using lb(1) by (rule round64_nonneg)
  have "ln F \<le> of_int 63" using lb(2) by simp
  then have "L \<le> of_int 63" unfolding L_def by (rule round64_le_int) simp
  then have L1: "L \<le> 63" by simp
  have "\<bar>P - L * 100\<bar> \<le> \<bar>L * 100\<bar> * e" unfolding P_def e_def by (rule round64_rel_error)
  also have "\<dots> \<le> 6300 * e" using L0 L1 e0 by (intro mult_right_mono) simp_all
  finally have d2: "\<bar>P - L * 100\<bar> \<le> 6300 * e" .
  have "0 \<le> L * 100" using L0 by simp
  then have P0: "0 \<le> P" unfolding P_def by (rule round64_nonneg)
  have "L * 100 \<le> of_int 6300" using L1 by simp
  then have "P \<le> of_int 6300" unfolding P_def by (rule round64_le_int) simp
  then have P1: "P \<le> 6300" by simp
  have "\<bar>Q - (3000 + P)\<bar> \<le> \<bar>3000 + P\<bar> * e" unfolding Q e_def by (rule round64_rel_error)
  also have "\<dots> \<le> 9300 * e" using P0 P1 e0 by (intro mult_right_mono) simp_all
  finally have d3: "\<bar>Q - (3000 + P)\<bar> \<le> 9300 * e" .
  have "of_int 3000 \<le> 3000 + P" using P0 by simp
  then have "of_int 3000 \<le> Q" unfolding Q by (rule round64_ge_int) simp
  then have Q0: "3000 \<le> Q" by simp
  have "3000 + P \<le> of_int 9300" using P1 by simp
  then have "Q \<le> of_int 9300" unfolding Q by (rule round64_le_int) simp
  then have Q1: "Q \<le> 9300" by simp
  have "\<bar>Q - (3000 + ln r * 100)\<bar> \<le> 22100 * e" using d0 d1 d2 d3 by linarith
  also have "\<dots> \<le> 2 powi (- 38)" unfolding e_def by simp
  finally show ?thesis using Q0 Q1 unfolding r_def Q_def by simp
qed

lemma logScale_floor:
  assumes "3000 < s" "in_int64 s"
  shows "logScale s = \<lfloor>round64 (3000 + round64 (round64 (ln (round64 (of_int s))) * 100))\<rfloor>"
proof -
  define Q where "Q = round64 (3000 + round64 (round64 (ln (round64 (of_int s))) * 100))"
  have b: "3000 \<le> Q \<and> Q \<le> 9300" unfolding Q_def using logScore64_close [OF assms] by simp
  then have "int_of_float64 Q = \<lfloor>Q\<rfloor>" by (intro int_of_float64_nonneg) simp_all
  then show ?thesis unfolding logScale_eq [OF assms(1)] Q_def .
qed

lemma logScale_range:
  assumes "3000 < s" "in_int64 s"
  shows "3000 \<le> logScale s \<and> logScale s \<le> 9300"
proof -
  define Q where "Q = round64 (3000 + round64 (round64 (ln (round64 (of_int s))) * 100))"
  have b: "3000 \<le> Q \<and> Q \<le> 9300" unfolding Q_def using logScore64_close [OF assms] by simp
  have "3000 \<le> \<lfloor>Q\<rfloor>" using b by (simp add: le_floor_iff)
  moreover have "\<lfloor>Q\<rfloor> \<le> 9300" using b by (simp add: floor_le_iff)
  ultimately show ?thesis unfolding logScale_floor [OF assms] Q_def by simp
qed

lemma finalScore_logScale:
  assumes "3000 < s" "in_int64 s"
  shows "finalScore (logScale s) = logScale s - 50"
  using logScale_range [OF assms] by (intro finalScore_eq) simp_all

lemma ln_increment:
  assumes "3000 < s" "s \<le> t"
  shows "ln (real_of_int t) * 100 \<le> ln (real_of_int s) * 100 + real_of_int (t - s) / 30"
proof -
  have sp: "0 < real_of_int s" using assms(1) by simp
  have tp: "0 < real_of_int t" using assms by simp
  have "ln (real_of_int t) - ln (real_of_int s) = ln (real_of_int t / real_of_int s)"
    using sp tp by (simp add: ln_div)
  also have "\<dots> \<le> real_of_int t / real_of_int s - 1"
    using sp tp by (intro ln_le_minus_one) simp
  also have "\<dots> = real_of_int (t - s) / real_of_int s"
    using sp by (simp add: field_simps)
  also have "\<dots> \<le> real_of_int (t - s) / 3000"
    using assms by (intro divide_left_mono) simp_all
  finally have "ln (real_of_int t) - ln (real_of_int s) \<le> real_of_int (t - s) / 3000" .
  then show ?thesis by linarith
qed

lemma logScale_growth:
  assumes "3000 < s" "s \<le> t" "in_int64 t"
  shows "real_of_int (logScale t - logScale s) < 1 + real_of_int (t - s) / 30 + 2 powi (- 37)"
proof -
  have ins: "in_int64 s" using assms by (simp add: in_int64_def)
  have t3: "3000 < t" using assms by simp
  define Qs where "Qs = round64 (3000 + round64 (round64 (ln (round64 (of_int s))) * 100))"
  define Qt where "Qt = round64 (3000 + round64 (round64 (ln (round64 (of_int t))) * 100))"
  have ls: "logScale s = \<lfloor>Qs\<rfloor>" unfolding Qs_def using assms(1) ins by (rule logScale_floor)
  have lt: "logScale t = \<lfloor>Qt\<rfloor>" unfolding Qt_def using t3 assms(3) by (rule logScale_floor)
  have cs: "\<bar>Qs - (3000 + ln (of_int s) * 100)\<bar> \<le> 2 powi (- 38)"
    unfolding Qs_def using logScore64_close [OF assms(1) ins] by simp
  have ct: "\<bar>Qt - (3000 + ln (of_int t) * 100)\<bar> \<le> 2 powi (- 38)"
    unfolding Qt_def using logScore64_close [OF t3 assms(3)] by simp
  have p: "(2::real) powi (- 37) = 2 * 2 powi (- 38)" by simp
  have a: "real_of_int (logScale t) \<le> Qt" unfolding lt by (rule of_int_floor_le)
  have b: "Qs < real_of_int (logScale s) + 1" unfolding ls by linarith
  have "real_of_int (logScale t) - real_of_int (logScale s)
      < 1 + real_of_int (t - s) / 30 + 2 * 2 powi (- 38)"
    using a b cs ct ln_increment [OF assms(1,2)] by linarith
  then show ?thesis unfolding p by simp
qed

lemma logScale_slower:
  assumes "3000 < s" "s + 2 \<le> t" "in_int64 t"
  shows "logScale t - logScale s < t - s"
proof -
  define k where "k = real_of_int (t - s)"
  have "real_of_int (logScale t - logScale s) < 1 + k / 30 + 2 powi (- 37)"
    unfolding k_def using assms by (intro logScale_growth) simp_all
  moreover have "2 \<le> k" unfolding k_def using assms(2) by simp
  then have "1 + k / 30 + 2 powi (- 37) \<le> k" by simp
  ultimately have "real_of_int (logScale t - logScale s) < k"
    by (rule less_le_trans)
  then show ?thesis unfolding k_def by (simp only: of_int_less_iff)
qed

lemma logScale_not_faster:
  assumes "3000 < s" "s \<le> t" "in_int64 t"
  shows "logScale t - logScale s \<le> t - s"
proof (cases "s = t")
  case True
  then show ?thesis by simp
next
  case False
  define k where "k = real_of_int (t - s)"
  have "real_of_int (logScale t - logScale s) < 1 + k / 30 + 2 powi (- 37)"
    unfolding k_def using assms by (rule logScale_growth)
  moreover have "1 \<le> k" unfolding k_def using False assms(2) by simp
  then have "1 + k / 30 + 2 powi (- 37) \<le> k + 1" by simp
  ultimately have "real_of_int (logScale t - logScale s) < k + 1"
    by (rule less_le_trans)
  then have "real_of_int (logScale t - logScale s) < real_of_int (t - s + 1)"
    unfolding k_def by (simp del: of_int_diff)
  then have "logScale t - logScale s < t - s + 1" by (simp only: of_int_less_iff)
  then show ?thesis by simp
qed

subsection \<open>The logarithmic scale at 274989843169\<close>

lemma ln_274989843169:
  "1317 / 50 - 3 / 2000000000000000 < ln (274989843169 :: real) \<and>
   ln (274989843169 :: real) < 1317 / 50"
proof -
  have lo: "274989843169000291705481712628742001 / 1000000000000000000000000 \<le> exp (1317 / 50 :: real)"
    and hi: "exp (1317 / 50 :: real) \<le> 274989843169000292838503779786413646 / 1000000000000000000000000"
    using exp_bounds_6 by simp_all
  have "(274989843169 :: real) < 274989843169000291705481712628742001 / 1000000000000000000000000"
    by simp
  then have "(274989843169 :: real) < exp (1317 / 50)" using lo by (rule less_le_trans)
  then have "ln (274989843169 :: real) < ln (exp (1317 / 50))"
    by (subst ln_less_cancel_iff) simp_all
  then have up: "ln (274989843169 :: real) < 1317 / 50" by simp
  define dl :: real where "dl = 3 / 2000000000000000"
  have "1 + dl \<le> exp dl" by (rule exp_ge_add_one_self)
  then have "exp (1317 / 50 - dl) * (1 + dl) \<le> exp (1317 / 50 - dl) * exp dl"
    by (intro mult_left_mono) simp_all
  also have "\<dots> = exp (1317 / 50)" by (simp flip: exp_add)
  finally have "exp (1317 / 50 - dl) * (1 + dl) \<le>
      274989843169000292838503779786413646 / 1000000000000000000000000"
    using hi by (rule order_trans)
  moreover have "(274989843169000292838503779786413646 / 1000000000000000000000000 :: real)
      < 274989843169 * (1 + dl)" unfolding dl_def by simp
  ultimately have "exp (1317 / 50 - dl) * (1 + dl) < 274989843169 * (1 + dl)"
    by (rule le_less_trans)
  moreover have "0 < 1 + dl" unfolding dl_def by simp
  ultimately have "exp (1317 / 50 - dl) < 274989843169" by (simp only: mult_less_cancel_right_pos)
  then have "ln (exp (1317 / 50 - dl)) < ln (274989843169 :: real)"
    by (subst ln_less_cancel_iff) simp_all
  then have "1317 / 50 - dl < ln (274989843169 :: real)" by simp
  then show ?thesis using up unfolding dl_def by simp
qed

lemma math_Log_274989843169:
  "round64 (ln (274989843169 :: real)) = of_int 7414050886558679 * 2 powi (- 48)"
proof -
  define x :: real where "x = ln 274989843169"
  have x: "1317 / 50 - 3 / 2000000000000000 < x" "x < 1317 / 50"
    unfolding x_def using ln_274989843169 by simp_all
  have b: "2 powi 4 \<le> \<bar>x\<bar>" "\<bar>x\<bar> < 2 powi (4 + 1)" using x by simp_all
  have e: "round64 x = of_int (rne (x / 2 powi (4 - 52))) * 2 powi (4 - 52)"
    using b by (rule round64_eval)
  have "real_of_int 7414050886558679 - 1 / 2 < x / 2 powi (4 - 52)"
    using x(1) by (simp add: field_simps)
  then have lo: "7414050886558679 \<le> rne (x / 2 powi (4 - 52))" by (rule rne_gt_half)
  have "x / 2 powi (4 - 52) < real_of_int 7414050886558679 + 1 / 2"
    using x(2) by (simp add: field_simps)
  then have hi: "rne (x / 2 powi (4 - 52)) \<le> 7414050886558679" by (rule rne_lt_half)
  have "rne (x / 2 powi (4 - 52)) = 7414050886558679" using lo hi by simp
  then show ?thesis unfolding x_def [symmetric] e by simp
qed

lemma logScale_274989843169:
  "logScale 274989843169 = 5634 \<and> \<lfloor>3000 + ln (274989843169 :: real) * 100\<rfloor> = 5633"
proof -
  have F: "round64 (of_int 274989843169) = of_int 274989843169"
    by (rule round64_of_int) simp
  define y :: real where "y = of_int 7414050886558679 * 2 powi (- 48) * 100"
  have b: "2 powi 11 \<le> \<bar>y\<bar>" "\<bar>y\<bar> < 2 powi (11 + 1)" unfolding y_def by simp_all
  have e: "round64 y = of_int (rne (y / 2 powi (11 - 52))) * 2 powi (11 - 52)"
    using b by (rule round64_eval)
  have "real_of_int 5792227255123968 - 1 / 2 < y / 2 powi (11 - 52)"
    unfolding y_def by simp
  then have lo: "5792227255123968 \<le> rne (y / 2 powi (11 - 52))" by (rule rne_gt_half)
  have "y / 2 powi (11 - 52) < real_of_int 5792227255123968 + 1 / 2"
    unfolding y_def by simp
  then have hi: "rne (y / 2 powi (11 - 52)) \<le> 5792227255123968" by (rule rne_lt_half)
  have "rne (y / 2 powi (11 - 52)) = 5792227255123968" using lo hi by simp
  then have P: "round64 y = 2634" unfolding e by simp
  have Q: "round64 (3000 + 2634) = 5634"
    using round64_of_int [of 5634] by simp
  have 1: "round64 (ln (round64 (of_int 274989843169))) * 100 = y"
  proof -
    have "round64 (of_int 274989843169) = (274989843169 :: real)" using F by simp
    then show ?thesis unfolding y_def by (simp only: math_Log_274989843169)
  qed
  have 2: "round64 (round64 (ln (round64 (of_int 274989843169))) * 100) = 2634"
    unfolding 1 by (rule P)
  have 3: "round64 (3000 + round64 (round64 (ln (round64 (of_int 274989843169))) * 100)) = 5634"
    unfolding 2 by (rule Q)
  have "logScale 274989843169 =
      int_of_float64 (round64 (3000 + round64 (round64 (ln (round64 (of_int 274989843169))) * 100)))"
    by (rule logScale_eq) simp
  also have "\<dots> = int_of_float64 5634" unfolding 3 ..
  also have "\<dots> = 5634" using int_of_float64_of_int [of 5634] by (simp add: in_int64_def)
  finally have a: "logScale 274989843169 = 5634" .
  have "5633 \<le> 3000 + ln (274989843169 :: real) * 100"
    "3000 + ln (274989843169 :: real) * 100 < 5633 + 1"
    using ln_274989843169 by simp_all
  then have "\<lfloor>3000 + ln (274989843169 :: real) * 100\<rfloor> = 5633"
    by (simp add: floor_eq_iff)
  then show ?thesis using a by simp
qed

subsection \<open>Further values\<close>

text \<open>
  The constant \<^verbatim>\<open>2.74\<close> as a \<^verbatim>\<open>float64\<close>, the boost 300 days after the update, where the
  product \<^verbatim>\<open>300 * 2.74\<close> rounds to the \<^verbatim>\<open>float64\<close> above 822, and the final score of a
  score beyond \<open>2 ^ 53\<close>, where \<^verbatim>\<open>float64(score)\<close> is a multiple of 1024.
\<close>

lemma const_274: "round64 (274 / 100) = of_int 1542482872374395 * 2 powi (- 49)"
proof -
  define x :: real where "x = 274 / 100"
  have b: "2 powi 1 \<le> \<bar>x\<bar>" "\<bar>x\<bar> < 2 powi (1 + 1)" unfolding x_def by simp_all
  have e: "round64 x = of_int (rne (x / 2 powi (1 - 52))) * 2 powi (1 - 52)"
    using b by (rule round64_eval)
  have "real_of_int 6169931489497580 - 1 / 2 < x / 2 powi (1 - 52)"
    unfolding x_def by simp
  then have lo: "6169931489497580 \<le> rne (x / 2 powi (1 - 52))" by (rule rne_gt_half)
  have "x / 2 powi (1 - 52) < real_of_int 6169931489497580 + 1 / 2"
    unfolding x_def by simp
  then have hi: "rne (x / 2 powi (1 - 52)) \<le> 6169931489497580" by (rule rne_lt_half)
  have "rne (x / 2 powi (1 - 52)) = 6169931489497580" using lo hi by simp
  then show ?thesis unfolding x_def [symmetric] e by simp
qed

lemma boost_300: "boost 300 = 177"
proof -
  define y :: real where "y = 300 * (of_int 1542482872374395 * 2 powi (- 49))"
  have b: "2 powi 9 \<le> \<bar>y\<bar>" "\<bar>y\<bar> < 2 powi (9 + 1)" unfolding y_def by simp_all
  have e: "round64 y = of_int (rne (y / 2 powi (9 - 52))) * 2 powi (9 - 52)"
    using b by (rule round64_eval)
  have "real_of_int 7230388464254977 - 1 / 2 < y / 2 powi (9 - 52)"
    unfolding y_def by simp
  then have lo: "7230388464254977 \<le> rne (y / 2 powi (9 - 52))" by (rule rne_gt_half)
  have "y / 2 powi (9 - 52) < real_of_int 7230388464254977 + 1 / 2"
    unfolding y_def by simp
  then have hi: "rne (y / 2 powi (9 - 52)) \<le> 7230388464254977" by (rule rne_lt_half)
  have "rne (y / 2 powi (9 - 52)) = 7230388464254977" using lo hi by simp
  then have p: "round64 y = of_int 7230388464254977 * 2 powi (- 43)" unfolding e by simp
  have "round64 (of_int 1565704557953023 * 2 powi (- 43)) = of_int 1565704557953023 * 2 powi (- 43)"
    by (rule round64_exact) simp
  moreover have "1000 - of_int 7230388464254977 * 2 powi (- 43) =
      (of_int 1565704557953023 * 2 powi (- 43) :: real)" by simp
  ultimately have q: "round64 (1000 - of_int 7230388464254977 * 2 powi (- 43)) =
      of_int 1565704557953023 * 2 powi (- 43)" by (simp only:)
  have "boost64 300 = round64 (1000 - round64 y)"
    unfolding boost64_eq y_def const_274 by simp
  then have v: "boost64 300 = of_int 1565704557953023 * 2 powi (- 43)"
    unfolding p q .
  have "of_int 177 \<le> boost64 300" "boost64 300 < of_int 177 + 1" unfolding v by simp_all
  then have "int_of_float64 (boost64 300) = 177" by (rule int_of_float64_between) simp_all
  then show ?thesis by (simp add: boost_def)
qed

lemma round64_wrapped:
  assumes "- (2 ^ 63) + 974 \<le> x" "x \<le> - (2 ^ 63) + 1052"
  shows "round64 x = - (2 ^ 63) + 1024"
proof -
  have b: "2 powi 62 \<le> \<bar>- x\<bar>" "\<bar>- x\<bar> < 2 powi (62 + 1)" using assms by simp_all
  have e: "round64 (- x) = of_int (rne (- x / 2 powi (62 - 52))) * 2 powi (62 - 52)"
    using b by (rule round64_eval)
  have "real_of_int (2 ^ 53 - 1) - 1 / 2 < - x / 2 powi (62 - 52)"
    using assms(2) by (simp add: field_simps)
  then have lo: "2 ^ 53 - 1 \<le> rne (- x / 2 powi (62 - 52))" by (rule rne_gt_half)
  have "- x / 2 powi (62 - 52) < real_of_int (2 ^ 53 - 1) + 1 / 2"
    using assms(1) by (simp add: field_simps)
  then have hi: "rne (- x / 2 powi (62 - 52)) \<le> 2 ^ 53 - 1" by (rule rne_lt_half)
  have "rne (- x / 2 powi (62 - 52)) = 2 ^ 53 - 1" using lo hi by simp
  then have "round64 (- x) = 2 ^ 63 - 1024" unfolding e by simp
  then show ?thesis by (simp add: round64_minus)
qed

lemma finalScore_wrapped: "finalScore (- 9223372036854774756) = - 9223372036854774784"
proof -
  have a: "float64_of_int (- 9223372036854774756) = - (2 ^ 63) + 1024"
    unfolding float64_of_int_def by (rule round64_wrapped) simp_all
  have b: "float64_sub (- (2 ^ 63) + 1024) 50 = - (2 ^ 63) + 1024"
    unfolding float64_sub_def by (rule round64_wrapped) simp_all
  have "math_Round (real_of_int (- 9223372036854774784)) = real_of_int (- 9223372036854774784)"
    by (rule math_Round_of_int)
  then have c: "math_Round (- (2 ^ 63) + 1024) = real_of_int (- 9223372036854774784)" by simp
  have "int_of_float64 (real_of_int (- 9223372036854774784)) = - 9223372036854774784"
    by (rule int_of_float64_of_int) (simp add: in_int64_def)
  then show ?thesis unfolding finalScore_def a b c .
qed

section \<open>The claims\<close>

subsection \<open>C1: the baseline scenario\<close>

text \<open>
  Claim C1. For the baseline input (all four counts 0, \<^verbatim>\<open>updatedAt\<close> and \<^verbatim>\<open>createdAt\<close> equal
  to the clock readings, empty description, motivation and guidelines) the function returns
  exactly 1000 and sets \<^verbatim>\<open>Metadata.Score\<close> to 1000, whatever the other metadata fields are:
  the weighted score is 50 (the counts contribute 0), the recency multiplier is 1, the boost
  is 1000, the creation factor is 1, the score before the logarithmic scale is 1050, the
  scale leaves it alone and the final score is 1050 - 50.
\<close>

theorem baseline_scenario_score:
  "weightedScore (snapshot 0 0 0 0 '''' now\<^sub>1 now\<^sub>2) = Inr 50 \<and>
   updateMultiplier (daysSince now\<^sub>1 now\<^sub>1) = 1 \<and>
   boost (daysSince now\<^sub>1 now\<^sub>1) = 1000 \<and>
   creationBoost (daysSince now\<^sub>2 now\<^sub>2) = 1 \<and>
   preCompressionScore now\<^sub>1 now\<^sub>2
     \<lparr>GH = Some (snapshot 0 0 0 0 '''' now\<^sub>1 now\<^sub>2),
      Metadata = Some (md\<lparr>Motivation := '''', Guidelines := ''''\<rparr>)\<rparr> = Inr 1050 \<and>
   logScale 1050 = 1050 \<and> finalScore 1050 = 1000 \<and>
   GetRepositoryActivityScore now\<^sub>1 now\<^sub>2
     (Some \<lparr>GH = Some (snapshot 0 0 0 0 '''' now\<^sub>1 now\<^sub>2),
            Metadata = Some (md\<lparr>Motivation := '''', Guidelines := ''''\<rparr>)\<rparr>) =
     (Inr 1000,
      Some \<lparr>GH = Some (snapshot 0 0 0 0 '''' now\<^sub>1 now\<^sub>2),
            Metadata = Some (md\<lparr>Motivation := '''', Guidelines := '''', Score := 1000\<rparr>)\<rparr>)"
proof -
  have w: "weightedScore (snapshot 0 0 0 0 '''' now\<^sub>1 now\<^sub>2) = Inr 50"
    by (simp add: weightedScore_def snapshot_def go_quo_def wrap64_def)
  have m: "updateMultiplier 0 = 1" by (rule updateMultiplier_0)
  have b: "boost 0 = 1000" by (rule boost_0)
  have c: "creationBoost 0 = 1" by (rule creationBoost_0)
  have u: "GetUpdatedAt (snapshot 0 0 0 0 '''' now\<^sub>1 now\<^sub>2) = now\<^sub>1"
    "GetCreatedAt (snapshot 0 0 0 0 '''' now\<^sub>1 now\<^sub>2) = now\<^sub>2"
    by (simp_all add: GetUpdatedAt_def GetCreatedAt_def snapshot_def)
  have s: "boostedScore now\<^sub>1 now\<^sub>2 (snapshot 0 0 0 0 '''' now\<^sub>1 now\<^sub>2) 50 = 1050"
    by (simp add: boostedScore_def u daysSince_self m b c wrap64_def)
  have d: "Description (snapshot 0 0 0 0 '''' now\<^sub>1 now\<^sub>2) = Some ''''"
    by (simp add: snapshot_def)
  have p: "preCompressionScore now\<^sub>1 now\<^sub>2
     \<lparr>GH = Some (snapshot 0 0 0 0 '''' now\<^sub>1 now\<^sub>2),
      Metadata = Some (md\<lparr>Motivation := '''', Guidelines := ''''\<rparr>)\<rparr> = Inr 1050"
    by (simp add: preCompressionScore_Some w d s descriptionBonus_def guidelinesBonus_def)
  have l: "logScale 1050 = 1050"
    by (simp add: logScale_def)
  have f: "finalScore 1050 = 1000"
    using finalScore_eq [of 1050] by simp
  have g: "GetRepositoryActivityScore now\<^sub>1 now\<^sub>2
     (Some \<lparr>GH = Some (snapshot 0 0 0 0 '''' now\<^sub>1 now\<^sub>2),
            Metadata = Some (md\<lparr>Motivation := '''', Guidelines := ''''\<rparr>)\<rparr>) =
     (Inr 1000,
      Some \<lparr>GH = Some (snapshot 0 0 0 0 '''' now\<^sub>1 now\<^sub>2),
            Metadata = Some (md\<lparr>Motivation := '''', Guidelines := '''', Score := 1000\<rparr>)\<rparr>)"
    by (simp add: GetRepositoryActivityScore_def p l f)
  show ?thesis
    using w m b c p l f g by (simp add: daysSince_self)
qed

text \<open>The baseline scenario at a concrete instant and a concrete metadata record.\<close>

theorem baseline_scenario_score_witness:
  "GetRepositoryActivityScore exampleNow exampleNow
     (Some \<lparr>GH = Some (snapshot 0 0 0 0 '''' exampleNow exampleNow),
            Metadata = Some exampleMetadata\<rparr>) =
     (Inr 1000,
      Some \<lparr>GH = Some (snapshot 0 0 0 0 '''' exampleNow exampleNow),
            Metadata = Some (exampleMetadata\<lparr>Score := 1000\<rparr>)\<rparr>)"
  using baseline_scenario_score [of exampleNow exampleNow exampleMetadata]
  by (simp add: exampleMetadata_def)

subsection \<open>C2: the recency multiplier\<close>

text \<open>
  Claim C2 says that the truncated recency multiplier is 1 only when \<^verbatim>\<open>daysSinceLastUpdate\<close>
  is 0 and is 0 for every positive \<^verbatim>\<open>daysSinceLastUpdate\<close>. It fails twelve hours after the
  update: there \<^verbatim>\<open>daysSinceLastUpdate\<close> is 1/2, \<^verbatim>\<open>updateMultiplier64\<close> is the \<^verbatim>\<open>float64\<close>
  nearest to 1.005 and the multiplier is 1.
\<close>

theorem recency_multiplier_counterexample:
  "daysSince exampleNow (exampleNow - 12 * Hour) = 1 / 2 \<and>
   0 < daysSince exampleNow (exampleNow - 12 * Hour) \<and>
   daysSince exampleNow (exampleNow - 12 * Hour) \<noteq> 0 \<and>
   updateMultiplier64 (daysSince exampleNow (exampleNow - 12 * Hour)) = round64 (201 / 200) \<and>
   updateMultiplier (daysSince exampleNow (exampleNow - 12 * Hour)) = 1 \<and>
   updateMultiplier (daysSince exampleNow (exampleNow - 12 * Hour)) \<noteq> 0"
proof -
  have d: "daysSince exampleNow (exampleNow - 12 * Hour) = 1 / 2"
    by (rule daysSince_half_day)
  have m: "updateMultiplier (1 / 2) = 1"
    by (rule updateMultiplier_one) simp_all
  have a: "round64 (199 / 2) = 199 / 2" using round64_exact [of 199 "- 1"] by simp
  have b: "round64 (201 / 2) = 201 / 2" using round64_exact [of 201 "- 1"] by simp
  have x: "updateMultiplier64 (1 / 2) = round64 (201 / 200)"
    by (simp add: updateMultiplier64_eq a b)
  show ?thesis unfolding d using m x by simp
qed

text \<open>
  Claim C2, amended. The truncated recency multiplier is 1 for every
  \<^verbatim>\<open>daysSinceLastUpdate\<close> from 0 to 1, and it is 0 for every \<^verbatim>\<open>daysSinceLastUpdate\<close> above
  \<open>1 + 2 powi (- 47)\<close>; up to that bound \<^verbatim>\<open>100 - daysSinceLastUpdate\<close> still rounds to 99 or
  more in \<^verbatim>\<open>float64\<close>, and the multiplier is 1. In terms of the timestamp: the multiplier is
  1 when the update lies between 0 and 24 hours before the clock reading, and 0 when it
  lies more than 24 hours before it.
\<close>

theorem recency_multiplier_cases:
  "(0 \<le> d \<and> d \<le> 1 + 2 powi (- 47) \<longrightarrow> updateMultiplier d = 1) \<and>
   (1 + 2 powi (- 47) < d \<longrightarrow> updateMultiplier d = 0) \<and>
   (0 \<le> Since now t \<and> Since now t \<le> day \<longrightarrow> updateMultiplier (daysSince now t) = 1) \<and>
   (day < Since now t \<longrightarrow> updateMultiplier (daysSince now t) = 0)"
proof -
  have a: "updateMultiplier (daysSince now t) = 1" if "0 \<le> Since now t" "Since now t \<le> day"
  proof -
    have "0 \<le> daysSince now t \<and> daysSince now t \<le> 1"
      using that by (intro daysSince_within_day) (simp_all add: day_def)
    then show ?thesis by (intro updateMultiplier_one) simp_all
  qed
  have b: "updateMultiplier (daysSince now t) = 0" if "day < Since now t"
  proof -
    have "1 + 2 powi (- 47) < daysSince now t"
      using that by (intro daysSince_after_day) (simp add: day_def)
    then show ?thesis by (rule updateMultiplier_zero)
  qed
  show ?thesis using a b updateMultiplier_one [of d] updateMultiplier_zero [of d] by blast
qed

text \<open>The amended claim twelve hours and two days after the update.\<close>

theorem recency_multiplier_cases_witness:
  "updateMultiplier (1 / 2) = 1 \<and> updateMultiplier 2 = 0 \<and>
   updateMultiplier (daysSince exampleNow (exampleNow - 12 * Hour)) = 1 \<and>
   updateMultiplier (daysSince exampleNow (exampleNow - 2 * day)) = 0"
  using recency_multiplier_cases [where d = "1 / 2" and now = exampleNow
      and t = "exampleNow - 12 * Hour"]
    recency_multiplier_cases [where d = 2 and now = exampleNow and t = "exampleNow - 2 * day"]
  by (simp add: Since_def Time_Sub_def minDuration_def maxDuration_def Hour_def day_def)

subsection \<open>C3: a missing count\<close>

text \<open>
  Claim C3 says that a snapshot without \<^verbatim>\<open>forksCount\<close> makes the call fail with a
  \<open>MissingFieldError\<close> naming the field, an explicit reported error. The function has no
  error result: the call panics with a nil dereference, which names no field.
\<close>

theorem missing_field_counterexample:
  "GetRepositoryActivityScore exampleNow exampleNow
     (Some \<lparr>GH = Some ((snapshot 0 0 0 0 '''' exampleNow exampleNow)\<lparr>ForksCount := None\<rparr>),
            Metadata = Some exampleMetadata\<rparr>) =
     (Inl NilPointerDereference,
      Some \<lparr>GH = Some ((snapshot 0 0 0 0 '''' exampleNow exampleNow)\<lparr>ForksCount := None\<rparr>),
            Metadata = Some exampleMetadata\<rparr>) \<and>
   fst (GetRepositoryActivityScore exampleNow exampleNow
     (Some \<lparr>GH = Some ((snapshot 0 0 0 0 '''' exampleNow exampleNow)\<lparr>ForksCount := None\<rparr>),
            Metadata = Some exampleMetadata\<rparr>)) \<noteq> Inl (MissingFieldError ''forksCount'') \<and>
   fst (GetRepositoryActivityScore exampleNow exampleNow
     (Some \<lparr>GH = Some ((snapshot 0 0 0 0 '''' exampleNow exampleNow)\<lparr>ForksCount := None\<rparr>),
            Metadata = Some exampleMetadata\<rparr>)) \<noteq> Inl (MissingFieldError ''ForksCount'')"
  by (simp add: GetRepositoryActivityScore_def preCompressionScore_def weightedScore_def
      snapshot_def)

text \<open>
  Claim C3, amended. For every snapshot in which one of the four counts is absent, the call
  panics with a nil dereference (a run-time fault that names no field), and the \<^verbatim>\<open>Repo\<close>,
  with it \<^verbatim>\<open>Metadata.Score\<close>, is left as it was: no partial score is written.
\<close>

theorem missing_field_panics:
  assumes "GH repo = Some gh"
    and "ForksCount gh = None \<or> SubscribersCount gh = None \<or> StargazersCount gh = None
       \<or> OpenIssuesCount gh = None"
  shows "GetRepositoryActivityScore now\<^sub>1 now\<^sub>2 (Some repo) =
     (Inl NilPointerDereference, Some repo)"
  using assms(1) weightedScore_None [OF assms(2)]
  by (simp add: GetRepositoryActivityScore_def preCompressionScore_def)

text \<open>The amended claim for a snapshot without \<^verbatim>\<open>StargazersCount\<close>.\<close>

theorem missing_field_panics_witness:
  "GetRepositoryActivityScore exampleNow exampleNow
     (Some \<lparr>GH = Some ((snapshot 4 2 9 1 '''' exampleNow exampleNow)\<lparr>StargazersCount := None\<rparr>),
            Metadata = Some exampleMetadata\<rparr>) =
     (Inl NilPointerDereference,
      Some \<lparr>GH = Some ((snapshot 4 2 9 1 '''' exampleNow exampleNow)\<lparr>StargazersCount := None\<rparr>),
            Metadata = Some exampleMetadata\<rparr>)"
  using missing_field_panics [of
      "\<lparr>GH = Some ((snapshot 4 2 9 1 '''' exampleNow exampleNow)\<lparr>StargazersCount := None\<rparr>),
        Metadata = Some exampleMetadata\<rparr>"
      "(snapshot 4 2 9 1 '''' exampleNow exampleNow)\<lparr>StargazersCount := None\<rparr>"
      exampleNow exampleNow]
  by (simp add: snapshot_def)

subsection \<open>C4: what the score depends on\<close>

text \<open>
  Claim C4. For a fixed snapshot, fixed \<^verbatim>\<open>Motivation\<close> and \<^verbatim>\<open>Guidelines\<close> and fixed clock
  readings, the outcome of the call (the score, or the panic) is the same whatever the
  other metadata fields are, the previous \<^verbatim>\<open>Score\<close> among them: the outcome is a function
  of these inputs alone.
\<close>

theorem score_depends_on_motivation_and_guidelines_only:
  assumes "Motivation md = Motivation md'" "Guidelines md = Guidelines md'"
  shows "fst (GetRepositoryActivityScore now\<^sub>1 now\<^sub>2 (Some \<lparr>GH = gh, Metadata = Some md\<rparr>)) =
     fst (GetRepositoryActivityScore now\<^sub>1 now\<^sub>2 (Some \<lparr>GH = gh, Metadata = Some md'\<rparr>))"
  using preCompressionScore_cong [OF assms, of now\<^sub>1 now\<^sub>2 gh]
  by (simp add: GetRepositoryActivityScore_def Let_def split: sum.splits)

text \<open>Two metadata records that differ in every field the score does not read.\<close>

theorem score_depends_on_motivation_and_guidelines_only_witness:
  "fst (GetRepositoryActivityScore exampleNow exampleNow
     (Some \<lparr>GH = Some (snapshot 4 2 9 1 longDescription exampleNow (exampleNow - day)),
            Metadata = Some exampleMetadata\<rparr>)) =
   fst (GetRepositoryActivityScore exampleNow exampleNow
     (Some \<lparr>GH = Some (snapshot 4 2 9 1 longDescription exampleNow (exampleNow - day)),
            Metadata = Some (exampleMetadata\<lparr>Title := ''other'', Contributions := [''Docs''],
              Skills := [''Go''], Logo := ''logo.png'', Docs := ''docs'', Language := ''C'',
              Participation := ''weekly'', Score := 77\<rparr>)\<rparr>))"
  using score_depends_on_motivation_and_guidelines_only [of exampleMetadata
      "exampleMetadata\<lparr>Title := ''other'', Contributions := [''Docs''],
              Skills := [''Go''], Logo := ''logo.png'', Docs := ''docs'', Language := ''C'',
              Participation := ''weekly'', Score := 77\<rparr>"
      exampleNow exampleNow
      "Some (snapshot 4 2 9 1 longDescription exampleNow (exampleNow - day))"]
  by simp

subsection \<open>C5: the only write\<close>

text \<open>
  Claim C5. A call changes nothing but \<^verbatim>\<open>Metadata.Score\<close>, and it writes that field exactly
  when it returns: if the call panics, the \<^verbatim>\<open>Repo\<close> is exactly as before; if it returns a
  score \<open>v\<close>, the \<^verbatim>\<open>Repo\<close> is the one before with the single field \<^verbatim>\<open>Metadata.Score\<close> set to
  \<open>v\<close>, so that the snapshot and every other metadata field are unchanged and the score
  written is the score returned.
\<close>

theorem only_score_is_written:
  "(\<forall>e. fst (GetRepositoryActivityScore now\<^sub>1 now\<^sub>2 p) = Inl e \<longrightarrow>
      snd (GetRepositoryActivityScore now\<^sub>1 now\<^sub>2 p) = p) \<and>
   (\<forall>v. fst (GetRepositoryActivityScore now\<^sub>1 now\<^sub>2 p) = Inr v \<longrightarrow>
      (\<exists>gh md. p = Some \<lparr>GH = Some gh, Metadata = Some md\<rparr> \<and>
         snd (GetRepositoryActivityScore now\<^sub>1 now\<^sub>2 p) =
           Some \<lparr>GH = Some gh, Metadata = Some (md\<lparr>Score := v\<rparr>)\<rparr>))"
proof (cases p)
  case None
  then show ?thesis by (simp add: GetRepositoryActivityScore_def)
next
  case (Some repo)
  show ?thesis
  proof (cases "preCompressionScore now\<^sub>1 now\<^sub>2 repo")
    case (Inl e)
    then show ?thesis using Some by (simp add: GetRepositoryActivityScore_def)
  next
    case (Inr s)
    then obtain gh md where g: "GH repo = Some gh" and m: "Metadata repo = Some md"
      by (auto simp add: preCompressionScore_def split: option.splits sum.splits)
    then have r: "repo = \<lparr>GH = Some gh, Metadata = Some md\<rparr>" by (cases repo) simp
    show ?thesis using Some Inr r by (simp add: GetRepositoryActivityScore_def Let_def)
  qed
qed

text \<open>
  The claim at the baseline input, a call that returns 1000, and at the nil \<^verbatim>\<open>repo\<close>, a call
  that panics.
\<close>

theorem only_score_is_written_witness:
  "fst (GetRepositoryActivityScore exampleNow exampleNow
      (Some \<lparr>GH = Some (snapshot 0 0 0 0 '''' exampleNow exampleNow),
             Metadata = Some exampleMetadata\<rparr>)) = Inr 1000 \<and>
   snd (GetRepositoryActivityScore exampleNow exampleNow
      (Some \<lparr>GH = Some (snapshot 0 0 0 0 '''' exampleNow exampleNow),
             Metadata = Some exampleMetadata\<rparr>)) =
      Some \<lparr>GH = Some (snapshot 0 0 0 0 '''' exampleNow exampleNow),
            Metadata = Some (exampleMetadata\<lparr>Score := 1000\<rparr>)\<rparr> \<and>
   fst (GetRepositoryActivityScore exampleNow exampleNow None) = Inl NilPointerDereference \<and>
   snd (GetRepositoryActivityScore exampleNow exampleNow None) = None"
proof -
  have p: "preCompressionScore exampleNow exampleNow
     \<lparr>GH = Some (snapshot 0 0 0 0 '''' exampleNow exampleNow),
      Metadata = Some exampleMetadata\<rparr> = Inr 1050"
    by (simp add: preCompressionScore_fresh exampleMetadata_def)
  have a: "fst (GetRepositoryActivityScore exampleNow exampleNow
      (Some \<lparr>GH = Some (snapshot 0 0 0 0 '''' exampleNow exampleNow),
             Metadata = Some exampleMetadata\<rparr>)) = Inr 1000"
    using score_below_threshold [OF p] by simp
  have b: "fst (GetRepositoryActivityScore exampleNow exampleNow None) =
      Inl NilPointerDereference"
    by (simp add: GetRepositoryActivityScore_def)
  show ?thesis
    using a b
      only_score_is_written [of exampleNow exampleNow
        "Some \<lparr>GH = Some (snapshot 0 0 0 0 '''' exampleNow exampleNow),
               Metadata = Some exampleMetadata\<rparr>"]
      only_score_is_written [of exampleNow exampleNow None]
    by auto
qed

subsection \<open>C6: the creation factor\<close>

text \<open>
  Claim C6 says that the creation factor \<^verbatim>\<open>creationBoost\<close>, the truncation of
  \<^verbatim>\<open>(365 - min(daysSinceCreation, 365)) / 365\<close>, is 0 for every positive
  \<^verbatim>\<open>daysSinceCreation\<close>, so that no boost is added. It fails for a repository created one
  nanosecond before the clock reading: \<^verbatim>\<open>daysSinceCreation\<close> is positive, but
  \<^verbatim>\<open>365 - daysSinceCreation\<close> rounds to 365 in \<^verbatim>\<open>float64\<close>, the factor is 1, the whole boost
  of 1000 is added and the call returns 1000.
\<close>

theorem creation_factor_counterexample:
  "0 < daysSince exampleNow (exampleNow - 1) \<and>
   creationBoost (daysSince exampleNow (exampleNow - 1)) = 1 \<and>
   creationBoost (daysSince exampleNow (exampleNow - 1)) \<noteq> 0 \<and>
   boostedScore exampleNow exampleNow (snapshot 0 0 0 0 '''' exampleNow (exampleNow - 1)) 50 =
     1050 \<and>
   fst (GetRepositoryActivityScore exampleNow exampleNow
      (Some \<lparr>GH = Some (snapshot 0 0 0 0 '''' exampleNow (exampleNow - 1)),
             Metadata = Some exampleMetadata\<rparr>)) = Inr 1000"
proof -
  have s: "Since exampleNow (exampleNow - 1) = 1"
    by (simp add: Since_def Time_Sub_def minDuration_def maxDuration_def)
  have d: "0 < daysSince exampleNow (exampleNow - 1)"
    by (rule daysSince_pos) (simp add: s)
  have "0 \<le> daysSince exampleNow (exampleNow - 1) \<and>
      daysSince exampleNow (exampleNow - 1) \<le> 2 powi (- 45)"
    by (rule daysSince_upto_2ns) (simp_all add: s)
  then have c: "creationBoost (daysSince exampleNow (exampleNow - 1)) = 1"
    by (intro creationBoost_one) simp_all
  have u: "GetUpdatedAt (snapshot 0 0 0 0 '''' exampleNow (exampleNow - 1)) = exampleNow"
    "GetCreatedAt (snapshot 0 0 0 0 '''' exampleNow (exampleNow - 1)) = exampleNow - 1"
    by (simp_all add: GetUpdatedAt_def GetCreatedAt_def snapshot_def)
  have b: "boostedScore exampleNow exampleNow
      (snapshot 0 0 0 0 '''' exampleNow (exampleNow - 1)) 50 = 1050"
    by (simp add: boostedScore_def u daysSince_self updateMultiplier_0 boost_0 c wrap64_def)
  have w: "weightedScore (snapshot 0 0 0 0 '''' exampleNow (exampleNow - 1)) = Inr 50"
    by (simp add: weightedScore_def snapshot_def go_quo_def wrap64_def)
  have e: "Description (snapshot 0 0 0 0 '''' exampleNow (exampleNow - 1)) = Some ''''"
    by (simp add: snapshot_def)
  have p: "preCompressionScore exampleNow exampleNow
     \<lparr>GH = Some (snapshot 0 0 0 0 '''' exampleNow (exampleNow - 1)),
      Metadata = Some exampleMetadata\<rparr> = Inr 1050"
    by (simp add: preCompressionScore_Some w e b descriptionBonus_def guidelinesBonus_def
        exampleMetadata_def)
  have r: "fst (GetRepositoryActivityScore exampleNow exampleNow
      (Some \<lparr>GH = Some (snapshot 0 0 0 0 '''' exampleNow (exampleNow - 1)),
             Metadata = Some exampleMetadata\<rparr>)) = Inr 1000"
    using score_below_threshold [OF p] by simp
  show ?thesis using d c b r by simp
qed

text \<open>
  Claim C6, amended. The creation factor is 0 for every \<^verbatim>\<open>daysSinceCreation\<close> above
  \<open>2 powi (- 45)\<close> and 1 for every \<^verbatim>\<open>daysSinceCreation\<close> from 0 to \<open>2 powi (- 45)\<close>; where it
  is 0, the boost added at line 317 is zero. In terms of the timestamp: for a repository
  created 3 nanoseconds or more before the clock reading the factor is 0, and the score
  after line 317 is the weighted score times the recency multiplier; for a repository
  created 0, 1 or 2 nanoseconds before the clock reading the factor is 1.
\<close>

theorem creation_factor_collapses:
  "(2 powi (- 45) < d \<longrightarrow> creationBoost d = 0) \<and>
   (0 \<le> d \<and> d \<le> 2 powi (- 45) \<longrightarrow> creationBoost d = 1) \<and>
   (2 powi (- 45) < d \<longrightarrow> wrap64 (boost d\<^sub>u * creationBoost d) = 0) \<and>
   (3 \<le> Since now\<^sub>2 (GetCreatedAt gh) \<longrightarrow>
      creationBoost (daysSince now\<^sub>2 (GetCreatedAt gh)) = 0 \<and>
      boostedScore now\<^sub>1 now\<^sub>2 gh s =
        wrap64 (s * updateMultiplier (daysSince now\<^sub>1 (GetUpdatedAt gh)))) \<and>
   (0 \<le> Since now\<^sub>2 (GetCreatedAt gh) \<and> Since now\<^sub>2 (GetCreatedAt gh) \<le> 2 \<longrightarrow>
      creationBoost (daysSince now\<^sub>2 (GetCreatedAt gh)) = 1)"
proof -
  have a: "creationBoost d = 0" if "2 powi (- 45) < d"
    using that by (rule creationBoost_zero)
  have b: "creationBoost d = 1" if "0 \<le> d" "d \<le> 2 powi (- 45)"
    using that by (rule creationBoost_one)
  have c: "wrap64 (boost d\<^sub>u * creationBoost d) = 0" if "2 powi (- 45) < d"
    using a [OF that] by (simp add: wrap64_0)
  have e: "creationBoost (daysSince now\<^sub>2 (GetCreatedAt gh)) = 0"
    if "3 \<le> Since now\<^sub>2 (GetCreatedAt gh)"
    using that by (intro creationBoost_zero daysSince_from_3ns)
  have f: "boostedScore now\<^sub>1 now\<^sub>2 gh s =
        wrap64 (s * updateMultiplier (daysSince now\<^sub>1 (GetUpdatedAt gh)))"
    if "3 \<le> Since now\<^sub>2 (GetCreatedAt gh)"
    using e [OF that] by (rule boostedScore_no_boost)
  have g: "creationBoost (daysSince now\<^sub>2 (GetCreatedAt gh)) = 1"
    if "0 \<le> Since now\<^sub>2 (GetCreatedAt gh)" "Since now\<^sub>2 (GetCreatedAt gh) \<le> 2"
  proof -
    have "0 \<le> daysSince now\<^sub>2 (GetCreatedAt gh) \<and>
        daysSince now\<^sub>2 (GetCreatedAt gh) \<le> 2 powi (- 45)"
      using that by (rule daysSince_upto_2ns)
    then show ?thesis by (intro creationBoost_one) simp_all
  qed
  show ?thesis using a b c e f g by blast
qed

text \<open>
  The amended claim for a repository created one day before the call and updated at the
  call, with the weighted score 75: the boost of 1000 is multiplied by 0. For a repository
  created two nanoseconds before the call the factor is 1.
\<close>

theorem creation_factor_collapses_witness:
  "creationBoost 1 = 0 \<and> creationBoost 0 = 1 \<and>
   wrap64 (boost 0 * creationBoost 1) = 0 \<and>
   creationBoost (daysSince exampleNow (exampleNow - day)) = 0 \<and>
   boostedScore exampleNow exampleNow (snapshot 4 2 9 1 '''' exampleNow (exampleNow - day)) 75 = 75 \<and>
   creationBoost (daysSince exampleNow (exampleNow - 2)) = 1"
proof -
  have u: "GetUpdatedAt (snapshot 4 2 9 1 '''' exampleNow t) = exampleNow"
    "GetCreatedAt (snapshot 4 2 9 1 '''' exampleNow t) = t" for t
    by (simp_all add: GetUpdatedAt_def GetCreatedAt_def snapshot_def)
  have s: "Since exampleNow (exampleNow - 86400000000000) = 86400000000000"
    "Since exampleNow (exampleNow - 2) = 2"
    by (simp_all add: Since_def Time_Sub_def minDuration_def maxDuration_def)
  show ?thesis
    using creation_factor_collapses [where d = 1 and d\<^sub>u = 0 and now\<^sub>1 = exampleNow
        and now\<^sub>2 = exampleNow and gh = "snapshot 4 2 9 1 '''' exampleNow (exampleNow - day)"
        and s = 75]
      creation_factor_collapses [where d = 0 and d\<^sub>u = 0 and now\<^sub>1 = exampleNow
        and now\<^sub>2 = exampleNow and gh = "snapshot 4 2 9 1 '''' exampleNow (exampleNow - 2)"
        and s = 75]
    by (simp add: u s day_def daysSince_self updateMultiplier_0 wrap64_def)
qed

subsection \<open>C7: the logarithmic scale\<close>

text \<open>
  Claim C7 says that a score \<open>s\<close> above 3000 becomes the truncation of
  \<open>3000 + ln s * 100\<close>. It fails for a repository with 274989842119 subscribers, updated
  and created at the clock readings: the score before the scale is 274989843169, whose
  logarithm lies just below 26.34, so that the truncation of \<open>3000 + ln s * 100\<close> is 5633;
  but \<^verbatim>\<open>math.Log\<close> returns the \<^verbatim>\<open>float64\<close> nearest to 26.34, its product with 100 rounds to
  2634, line 335 gives 5634 and the call returns 5584 instead of 5583.
\<close>

theorem logarithmic_scale_counterexample:
  "preCompressionScore exampleNow exampleNow
     \<lparr>GH = Some (snapshot 0 274989842119 0 0 '''' exampleNow exampleNow),
      Metadata = Some exampleMetadata\<rparr> = Inr 274989843169 \<and>
   (3000 :: int) < 274989843169 \<and>
   \<lfloor>3000 + ln (274989843169 :: real) * 100\<rfloor> = 5633 \<and>
   logScale 274989843169 = 5634 \<and>
   fst (GetRepositoryActivityScore exampleNow exampleNow
     (Some \<lparr>GH = Some (snapshot 0 274989842119 0 0 '''' exampleNow exampleNow),
            Metadata = Some exampleMetadata\<rparr>)) = Inr 5584 \<and>
   fst (GetRepositoryActivityScore exampleNow exampleNow
     (Some \<lparr>GH = Some (snapshot 0 274989842119 0 0 '''' exampleNow exampleNow),
            Metadata = Some exampleMetadata\<rparr>)) \<noteq>
     Inr (\<lfloor>3000 + ln (274989843169 :: real) * 100\<rfloor> - 50)"
proof -
  have p: "preCompressionScore exampleNow exampleNow
     \<lparr>GH = Some (snapshot 0 274989842119 0 0 '''' exampleNow exampleNow),
      Metadata = Some exampleMetadata\<rparr> = Inr 274989843169"
    by (simp add: preCompressionScore_fresh exampleMetadata_def)
  have l: "logScale 274989843169 = 5634"
    and t: "\<lfloor>3000 + ln (274989843169 :: real) * 100\<rfloor> = 5633"
    using logScale_274989843169 by simp_all
  have f: "finalScore 5634 = 5584" using finalScore_eq [of 5634] by simp
  have r: "fst (GetRepositoryActivityScore exampleNow exampleNow
     (Some \<lparr>GH = Some (snapshot 0 274989842119 0 0 '''' exampleNow exampleNow),
            Metadata = Some exampleMetadata\<rparr>)) = Inr 5584"
    using GetRepositoryActivityScore_fst [OF p] by (simp add: l f)
  show ?thesis using p l t r by simp
qed

text \<open>
  Claim C7, amended. The logarithmic scale is applied exactly when the score \<open>s\<close> after line
  329 exceeds 3000; otherwise \<open>s\<close> goes unchanged to the final subtraction of 50. Above
  the threshold the score becomes the truncation of the \<^verbatim>\<open>float64\<close> value
  \<^verbatim>\<open>3000 + math.Log(float64(s))*100\<close>, which differs from the real number
  \<open>3000 + ln s * 100\<close> by at most \<open>2 powi (- 38)\<close>: the scaled score is the truncation of
  \<open>3000 + ln s * 100\<close> unless that number lies within \<open>2 powi (- 38)\<close> of an integer, where
  it can be the neighbouring integer. Beyond the threshold the scaled score grows slower
  than the score it is computed from: when a second call has a greater or equal score \<open>t\<close>
  before the scale, the returned score of the second call exceeds that of the first by at
  most \<open>t - s\<close>, and by strictly less as soon as \<open>t\<close> exceeds \<open>s\<close> by 2 or more.
\<close>

theorem logarithmic_scale:
  assumes "preCompressionScore now\<^sub>1 now\<^sub>2 repo = Inr s"
    and "preCompressionScore now\<^sub>1' now\<^sub>2' repo' = Inr t"
  shows "(s \<le> 3000 \<longrightarrow> logScale s = s) \<and>
     fst (GetRepositoryActivityScore now\<^sub>1 now\<^sub>2 (Some repo)) = Inr (finalScore (logScale s)) \<and>
     (3000 < s \<longrightarrow>
        \<bar>float64_add 3000 (float64_mul (math_Log (float64_of_int s)) 100) -
           (3000 + ln (real_of_int s) * 100)\<bar> \<le> 2 powi (- 38) \<and>
        fst (GetRepositoryActivityScore now\<^sub>1 now\<^sub>2 (Some repo)) =
          Inr (\<lfloor>float64_add 3000 (float64_mul (math_Log (float64_of_int s)) 100)\<rfloor> - 50))
     \<and> (3000 < s \<and> s \<le> t \<longrightarrow>
          (\<exists>a b. fst (GetRepositoryActivityScore now\<^sub>1 now\<^sub>2 (Some repo)) = Inr a \<and>
             fst (GetRepositoryActivityScore now\<^sub>1' now\<^sub>2' (Some repo')) = Inr b \<and>
             b - a \<le> t - s \<and> (s + 2 \<le> t \<longrightarrow> b - a < t - s)))"
proof -
  have ins: "in_int64 s" using assms(1) by (rule in_int64_preCompressionScore)
  have int: "in_int64 t" using assms(2) by (rule in_int64_preCompressionScore)
  have q: "float64_add 3000 (float64_mul (math_Log (float64_of_int s)) 100) =
      round64 (3000 + round64 (round64 (ln (round64 (of_int s))) * 100))"
    by (simp add: float64_add_def float64_mul_def math_Log_def float64_of_int_def)
  have l: "logScale s = s" if "s \<le> 3000"
    using that by (simp add: logScale_def)
  have a: "fst (GetRepositoryActivityScore now\<^sub>1 now\<^sub>2 (Some repo)) = Inr (finalScore (logScale s))"
    using assms(1) by (rule GetRepositoryActivityScore_fst)
  have b: "fst (GetRepositoryActivityScore now\<^sub>1' now\<^sub>2' (Some repo')) = Inr (finalScore (logScale t))"
    using assms(2) by (rule GetRepositoryActivityScore_fst)
  have c: "\<bar>float64_add 3000 (float64_mul (math_Log (float64_of_int s)) 100) -
           (3000 + ln (real_of_int s) * 100)\<bar> \<le> 2 powi (- 38)" if "3000 < s"
    unfolding q using logScore64_close [OF that ins] by simp
  have f: "finalScore (logScale s) =
      \<lfloor>float64_add 3000 (float64_mul (math_Log (float64_of_int s)) 100)\<rfloor> - 50" if "3000 < s"
    unfolding q using finalScore_logScale [OF that ins] logScale_floor [OF that ins] by simp
  have d: "finalScore (logScale t) - finalScore (logScale s) = logScale t - logScale s"
    if "3000 < s" "s \<le> t"
  proof -
    have "3000 < t" using that by simp
    then have "finalScore (logScale t) = logScale t - 50" using int by (rule finalScore_logScale)
    moreover have "finalScore (logScale s) = logScale s - 50"
      using that(1) ins by (rule finalScore_logScale)
    ultimately show ?thesis by simp
  qed
  have g: "finalScore (logScale t) - finalScore (logScale s) \<le> t - s" if "3000 < s" "s \<le> t"
    using d [OF that] logScale_not_faster [OF that int] by simp
  have h: "finalScore (logScale t) - finalScore (logScale s) < t - s" if "3000 < s" "s + 2 \<le> t"
  proof -
    have "s \<le> t" using that(2) by simp
    then show ?thesis using d [OF that(1)] logScale_slower [OF that int] by simp
  qed
  show ?thesis using a b c f g h l by simp
qed

text \<open>
  The amended claim for two repositories updated and created at the call, with 1000 and 2000
  forks: the scores before the scale are 6050 and 11050, and the returned scores differ by
  less than 5000.
\<close>

theorem logarithmic_scale_witness:
  "preCompressionScore exampleNow exampleNow
     \<lparr>GH = Some (snapshot 1000 0 0 0 '''' exampleNow exampleNow),
      Metadata = Some exampleMetadata\<rparr> = Inr 6050 \<and>
   preCompressionScore exampleNow exampleNow
     \<lparr>GH = Some (snapshot 2000 0 0 0 '''' exampleNow exampleNow),
      Metadata = Some exampleMetadata\<rparr> = Inr 11050 \<and>
   \<bar>float64_add 3000 (float64_mul (math_Log (float64_of_int 6050)) 100) -
      (3000 + ln (6050 :: real) * 100)\<bar> \<le> 2 powi (- 38) \<and>
   fst (GetRepositoryActivityScore exampleNow exampleNow
     (Some \<lparr>GH = Some (snapshot 1000 0 0 0 '''' exampleNow exampleNow),
            Metadata = Some exampleMetadata\<rparr>)) =
     Inr (\<lfloor>float64_add 3000 (float64_mul (math_Log (float64_of_int 6050)) 100)\<rfloor> - 50) \<and>
   (\<exists>a b. fst (GetRepositoryActivityScore exampleNow exampleNow
       (Some \<lparr>GH = Some (snapshot 1000 0 0 0 '''' exampleNow exampleNow),
              Metadata = Some exampleMetadata\<rparr>)) = Inr a \<and>
      fst (GetRepositoryActivityScore exampleNow exampleNow
       (Some \<lparr>GH = Some (snapshot 2000 0 0 0 '''' exampleNow exampleNow),
              Metadata = Some exampleMetadata\<rparr>)) = Inr b \<and>
      b - a < 5000)"
proof -
  have s: "preCompressionScore exampleNow exampleNow
     \<lparr>GH = Some (snapshot 1000 0 0 0 '''' exampleNow exampleNow),
      Metadata = Some exampleMetadata\<rparr> = Inr 6050"
    by (simp add: preCompressionScore_fresh exampleMetadata_def)
  have t: "preCompressionScore exampleNow exampleNow
     \<lparr>GH = Some (snapshot 2000 0 0 0 '''' exampleNow exampleNow),
      Metadata = Some exampleMetadata\<rparr> = Inr 11050"
    by (simp add: preCompressionScore_fresh exampleMetadata_def)
  note r = logarithmic_scale [OF s t, THEN conjunct2, THEN conjunct2]
  have a: "\<bar>float64_add 3000 (float64_mul (math_Log (float64_of_int 6050)) 100) -
      (3000 + ln (6050 :: real) * 100)\<bar> \<le> 2 powi (- 38) \<and>
    fst (GetRepositoryActivityScore exampleNow exampleNow
     (Some \<lparr>GH = Some (snapshot 1000 0 0 0 '''' exampleNow exampleNow),
            Metadata = Some exampleMetadata\<rparr>)) =
     Inr (\<lfloor>float64_add 3000 (float64_mul (math_Log (float64_of_int 6050)) 100)\<rfloor> - 50)"
    using r [THEN conjunct1] by simp
  have b: "\<exists>a b. fst (GetRepositoryActivityScore exampleNow exampleNow
       (Some \<lparr>GH = Some (snapshot 1000 0 0 0 '''' exampleNow exampleNow),
              Metadata = Some exampleMetadata\<rparr>)) = Inr a \<and>
      fst (GetRepositoryActivityScore exampleNow exampleNow
       (Some \<lparr>GH = Some (snapshot 2000 0 0 0 '''' exampleNow exampleNow),
              Metadata = Some exampleMetadata\<rparr>)) = Inr b \<and>
      b - a < 5000"
    using r [THEN conjunct2] by auto
  show ?thesis using s t a b by (simp only: simp_thms)
qed

subsection \<open>C8: the description and guidelines bonuses\<close>

text \<open>
  Claim C8 says that below the threshold of the logarithmic scale a description longer than
  30 bytes adds exactly 50 to the returned score. It fails where the score before the
  bonuses is the least \<^verbatim>\<open>int\<close>: with 9223372036854775758 subscribers the sum at line 271
  wraps around to \<open>- 2 ^ 63\<close>, line 341 cannot return less than that (in \<^verbatim>\<open>float64\<close> both
  \<^verbatim>\<open>float64(score)\<close> and \<^verbatim>\<open>float64(score) - 50\<close> round to \<open>- 2 ^ 63\<close>), and the returned
  score is \<open>- 2 ^ 63\<close> with the empty description and with the description of 31 bytes
  alike.
\<close>

theorem bonuses_counterexample:
  "length longDescription = 31 \<and>
   preCompressionScore exampleNow exampleNow
     \<lparr>GH = Some (snapshot 0 9223372036854775758 0 0 '''' exampleNow (exampleNow - day)),
      Metadata = Some exampleMetadata\<rparr> = Inr (- 9223372036854775808) \<and>
   preCompressionScore exampleNow exampleNow
     \<lparr>GH = Some (snapshot 0 9223372036854775758 0 0 longDescription exampleNow (exampleNow - day)),
      Metadata = Some exampleMetadata\<rparr> = Inr (- 9223372036854775758) \<and>
   fst (GetRepositoryActivityScore exampleNow exampleNow
     (Some \<lparr>GH = Some (snapshot 0 9223372036854775758 0 0 '''' exampleNow (exampleNow - day)),
            Metadata = Some exampleMetadata\<rparr>)) = Inr (- 9223372036854775808) \<and>
   fst (GetRepositoryActivityScore exampleNow exampleNow
     (Some \<lparr>GH = Some (snapshot 0 9223372036854775758 0 0 longDescription exampleNow
                        (exampleNow - day)),
            Metadata = Some exampleMetadata\<rparr>)) = Inr (- 9223372036854775808) \<and>
   fst (GetRepositoryActivityScore exampleNow exampleNow
     (Some \<lparr>GH = Some (snapshot 0 9223372036854775758 0 0 longDescription exampleNow
                        (exampleNow - day)),
            Metadata = Some exampleMetadata\<rparr>)) \<noteq> Inr (- 9223372036854775808 + 50)"
proof -
  have d: "daysSince exampleNow (exampleNow - day) = 1"
    using daysSince_days [of 1 exampleNow] by simp
  have m: "updateMultiplier 0 = 1" by (rule updateMultiplier_0)
  have c: "creationBoost 1 = 0" by (rule creationBoost_zero) simp
  have w: "weightedScore (snapshot 0 9223372036854775758 0 0 x exampleNow (exampleNow - day)) =
      Inr (- 9223372036854775808)" for x
    by (simp add: weightedScore_def snapshot_def go_quo_def wrap64_def)
  have u: "GetUpdatedAt (snapshot 0 9223372036854775758 0 0 x exampleNow (exampleNow - day)) =
      exampleNow"
    "GetCreatedAt (snapshot 0 9223372036854775758 0 0 x exampleNow (exampleNow - day)) =
      exampleNow - day"
    "Description (snapshot 0 9223372036854775758 0 0 x exampleNow (exampleNow - day)) = Some x"
    for x
    by (simp_all add: GetUpdatedAt_def GetCreatedAt_def snapshot_def)
  have b: "boostedScore exampleNow exampleNow
      (snapshot 0 9223372036854775758 0 0 x exampleNow (exampleNow - day))
      (- 9223372036854775808) = - 9223372036854775808" for x
    by (simp add: boostedScore_def u d m c daysSince_self wrap64_def)
  have n: "length longDescription = 31" by (simp add: longDescription_def)
  have pa: "preCompressionScore exampleNow exampleNow
     \<lparr>GH = Some (snapshot 0 9223372036854775758 0 0 '''' exampleNow (exampleNow - day)),
      Metadata = Some exampleMetadata\<rparr> = Inr (- 9223372036854775808)"
    by (simp add: preCompressionScore_Some w u b descriptionBonus_def guidelinesBonus_def
        exampleMetadata_def)
  have pb: "preCompressionScore exampleNow exampleNow
     \<lparr>GH = Some (snapshot 0 9223372036854775758 0 0 longDescription exampleNow (exampleNow - day)),
      Metadata = Some exampleMetadata\<rparr> = Inr (- 9223372036854775758)"
    by (simp add: preCompressionScore_Some w u b descriptionBonus_def guidelinesBonus_def
        exampleMetadata_def n wrap64_def)
  have la: "logScale (- 9223372036854775808) = - 9223372036854775808"
    and lb: "logScale (- 9223372036854775758) = - 9223372036854775758"
    by (simp_all add: logScale_def)
  have fa: "finalScore (- 9223372036854775808) = - 9223372036854775808"
    using finalScore_least [of "- 9223372036854775808"] by simp
  have fb: "finalScore (- 9223372036854775758) = - 9223372036854775808"
    using finalScore_least [of "- 9223372036854775758"] by simp
  show ?thesis
    using n pa pb GetRepositoryActivityScore_fst [OF pa] GetRepositoryActivityScore_fst [OF pb]
    by (simp add: la lb fa fb)
qed

text \<open>
  Claim C8, amended. Hold the snapshot, the motivation and the clock readings fixed, let the
  description and the motivation be at most 30 bytes and the guidelines empty, and let the
  score \<open>s\<close> before the logarithmic scale be at least \<open>- 2 ^ 53 + 50\<close>, so that \<open>s - 50\<close>
  lies where \<^verbatim>\<open>float64\<close> holds every integer (as it does unless a count is negative or the
  64-bit arithmetic has wrapped around); the returned score is then \<open>s - 50\<close>. As long as
  the scores stay at or below the threshold 3000, a description longer than 30 bytes makes
  the returned score exactly 50 greater, non-empty guidelines make it exactly 100 greater,
  and both together make it exactly 150 greater.
\<close>

theorem bonuses_exact:
  assumes "Description gh = Some d0" "length d0 \<le> 30" "length (Motivation md) \<le> 30"
    "Guidelines md = []"
    and "30 < length d1" "g1 \<noteq> []"
    and "preCompressionScore now\<^sub>1 now\<^sub>2 \<lparr>GH = Some gh, Metadata = Some md\<rparr> = Inr s"
    and "- (2 ^ 53) + 50 \<le> s"
  shows "(s \<le> 3000 \<longrightarrow>
      fst (GetRepositoryActivityScore now\<^sub>1 now\<^sub>2 (Some \<lparr>GH = Some gh, Metadata = Some md\<rparr>))
        = Inr (s - 50)) \<and>
    (s + 50 \<le> 3000 \<longrightarrow>
      fst (GetRepositoryActivityScore now\<^sub>1 now\<^sub>2
        (Some \<lparr>GH = Some (gh\<lparr>Description := Some d1\<rparr>), Metadata = Some md\<rparr>))
        = Inr (s - 50 + 50)) \<and>
    (s + 100 \<le> 3000 \<longrightarrow>
      fst (GetRepositoryActivityScore now\<^sub>1 now\<^sub>2
        (Some \<lparr>GH = Some gh, Metadata = Some (md\<lparr>Guidelines := g1\<rparr>)\<rparr>))
        = Inr (s - 50 + 100)) \<and>
    (s + 150 \<le> 3000 \<longrightarrow>
      fst (GetRepositoryActivityScore now\<^sub>1 now\<^sub>2
        (Some \<lparr>GH = Some (gh\<lparr>Description := Some d1\<rparr>),
               Metadata = Some (md\<lparr>Guidelines := g1\<rparr>)\<rparr>))
        = Inr (s - 50 + 150))"
proof -
  have lo: "- (2 ^ 53) + 50 \<le> s" using assms(8) .
  obtain w where w: "weightedScore gh = Inr w"
    using assms(7) by (auto simp add: preCompressionScore_Some split: sum.splits)
  have s: "s = boostedScore now\<^sub>1 now\<^sub>2 gh w"
    using assms(1-4,7) w
    by (simp add: preCompressionScore_Some descriptionBonus_def guidelinesBonus_def)
  have w50: "wrap64 (s + 50) = s + 50" if "s + 50 \<le> 3000"
    using that lo by (intro wrap64_id) (simp add: in_int64_def)
  have w100: "wrap64 (s + 100) = s + 100" if "s + 100 \<le> 3000"
    using that lo by (intro wrap64_id) (simp add: in_int64_def)
  have w150: "wrap64 (s + 50 + 100) = s + 150" if "s + 150 \<le> 3000"
    using that lo by (subst wrap64_id) (simp_all add: in_int64_def)
  have a: "fst (GetRepositoryActivityScore now\<^sub>1 now\<^sub>2 (Some \<lparr>GH = Some gh, Metadata = Some md\<rparr>))
        = Inr (s - 50)" if "s \<le> 3000"
    using assms(7) that lo by (rule score_below_threshold)
  have b: "fst (GetRepositoryActivityScore now\<^sub>1 now\<^sub>2
        (Some \<lparr>GH = Some (gh\<lparr>Description := Some d1\<rparr>), Metadata = Some md\<rparr>))
        = Inr (s - 50 + 50)" if t: "s + 50 \<le> 3000"
  proof -
    have "preCompressionScore now\<^sub>1 now\<^sub>2
        \<lparr>GH = Some (gh\<lparr>Description := Some d1\<rparr>), Metadata = Some md\<rparr> = Inr (s + 50)"
      using assms(4,5) w w50 [OF t]
      by (simp add: preCompressionScore_Some weightedScore_Description_update
          boostedScore_Description_update descriptionBonus_def guidelinesBonus_def s [symmetric])
    then have "fst (GetRepositoryActivityScore now\<^sub>1 now\<^sub>2
        (Some \<lparr>GH = Some (gh\<lparr>Description := Some d1\<rparr>), Metadata = Some md\<rparr>))
        = Inr (s + 50 - 50)"
      using t lo by (intro score_below_threshold) simp_all
    then show ?thesis by simp
  qed
  have c: "fst (GetRepositoryActivityScore now\<^sub>1 now\<^sub>2
        (Some \<lparr>GH = Some gh, Metadata = Some (md\<lparr>Guidelines := g1\<rparr>)\<rparr>))
        = Inr (s - 50 + 100)" if t: "s + 100 \<le> 3000"
  proof -
    have "preCompressionScore now\<^sub>1 now\<^sub>2
        \<lparr>GH = Some gh, Metadata = Some (md\<lparr>Guidelines := g1\<rparr>)\<rparr> = Inr (s + 100)"
      using assms(1,2,3,6) w w100 [OF t]
      by (simp add: preCompressionScore_Some descriptionBonus_def guidelinesBonus_def s [symmetric])
    then have "fst (GetRepositoryActivityScore now\<^sub>1 now\<^sub>2
        (Some \<lparr>GH = Some gh, Metadata = Some (md\<lparr>Guidelines := g1\<rparr>)\<rparr>))
        = Inr (s + 100 - 50)"
      using t lo by (intro score_below_threshold) simp_all
    then show ?thesis by simp
  qed
  have d: "fst (GetRepositoryActivityScore now\<^sub>1 now\<^sub>2
        (Some \<lparr>GH = Some (gh\<lparr>Description := Some d1\<rparr>),
               Metadata = Some (md\<lparr>Guidelines := g1\<rparr>)\<rparr>))
        = Inr (s - 50 + 150)" if t: "s + 150 \<le> 3000"
  proof -
    have t50: "s + 50 \<le> 3000" using t by simp
    have "preCompressionScore now\<^sub>1 now\<^sub>2
        \<lparr>GH = Some (gh\<lparr>Description := Some d1\<rparr>),
         Metadata = Some (md\<lparr>Guidelines := g1\<rparr>)\<rparr> = Inr (s + 150)"
      using assms(5,6) w w50 [OF t50] w150 [OF t]
      by (simp add: preCompressionScore_Some weightedScore_Description_update
          boostedScore_Description_update descriptionBonus_def guidelinesBonus_def s [symmetric])
    then have "fst (GetRepositoryActivityScore now\<^sub>1 now\<^sub>2
        (Some \<lparr>GH = Some (gh\<lparr>Description := Some d1\<rparr>),
               Metadata = Some (md\<lparr>Guidelines := g1\<rparr>)\<rparr>))
        = Inr (s + 150 - 50)"
      using t lo by (intro score_below_threshold) simp_all
    then show ?thesis by simp
  qed
  show ?thesis using a b c d by blast
qed

text \<open>
  The amended claim at the baseline input: 1000 without a bonus, 1050 with the description
  of 31 bytes, 1100 with guidelines and 1150 with both.
\<close>

theorem bonuses_exact_witness:
  "fst (GetRepositoryActivityScore exampleNow exampleNow
     (Some \<lparr>GH = Some (snapshot 0 0 0 0 '''' exampleNow exampleNow),
            Metadata = Some exampleMetadata\<rparr>)) = Inr 1000 \<and>
   fst (GetRepositoryActivityScore exampleNow exampleNow
     (Some \<lparr>GH = Some ((snapshot 0 0 0 0 '''' exampleNow exampleNow)
                   \<lparr>Description := Some longDescription\<rparr>),
            Metadata = Some exampleMetadata\<rparr>)) = Inr 1050 \<and>
   fst (GetRepositoryActivityScore exampleNow exampleNow
     (Some \<lparr>GH = Some (snapshot 0 0 0 0 '''' exampleNow exampleNow),
            Metadata = Some (exampleMetadata\<lparr>Guidelines := ''CONTRIBUTING.md''\<rparr>)\<rparr>))
     = Inr 1100 \<and>
   fst (GetRepositoryActivityScore exampleNow exampleNow
     (Some \<lparr>GH = Some ((snapshot 0 0 0 0 '''' exampleNow exampleNow)
                   \<lparr>Description := Some longDescription\<rparr>),
            Metadata = Some (exampleMetadata\<lparr>Guidelines := ''CONTRIBUTING.md''\<rparr>)\<rparr>))
     = Inr 1150"
proof -
  have p: "preCompressionScore exampleNow exampleNow
     \<lparr>GH = Some (snapshot 0 0 0 0 '''' exampleNow exampleNow),
      Metadata = Some exampleMetadata\<rparr> = Inr 1050"
    by (simp add: preCompressionScore_fresh exampleMetadata_def)
  have d: "Description (snapshot 0 0 0 0 '''' exampleNow exampleNow) = Some ''''"
    by (simp add: snapshot_def)
  have m: "length (Motivation exampleMetadata) \<le> 30" "Guidelines exampleMetadata = []"
    by (simp_all add: exampleMetadata_def)
  have n: "30 < length longDescription" by (simp add: longDescription_def)
  show ?thesis
    using bonuses_exact [OF d _ m n _ p, of "''CONTRIBUTING.md''"] by simp
qed

subsection \<open>C9: more forks, subscribers or stargazers\<close>

text \<open>
  Claim C9 says that increasing \<^verbatim>\<open>forksCount\<close>, with everything else fixed, never decreases
  the score before the logarithmic scale. It fails where line 270 overflows: with
  1844674407370955162 forks the product \<^verbatim>\<open>*ghRepo.ForksCount * 5\<close> wraps around to
  \<open>- 2 ^ 63 + 2\<close>, and the score before the scale falls from 1050 (no forks) to
  -9223372036854774756.
\<close>

theorem monotone_counterexample:
  "(0 :: int) \<le> 1844674407370955162 \<and>
   preCompressionScore exampleNow exampleNow
     \<lparr>GH = Some (snapshot 0 0 0 0 '''' exampleNow exampleNow),
      Metadata = Some exampleMetadata\<rparr> = Inr 1050 \<and>
   preCompressionScore exampleNow exampleNow
     \<lparr>GH = Some (snapshot 1844674407370955162 0 0 0 '''' exampleNow exampleNow),
      Metadata = Some exampleMetadata\<rparr> = Inr (- 9223372036854774756) \<and>
   \<not> (1050 :: int) \<le> - 9223372036854774756"
proof -
  have m: "updateMultiplier 0 = 1" by (rule updateMultiplier_0)
  have b: "boost 0 = 1000" by (rule boost_0)
  have c: "creationBoost 0 = 1" by (rule creationBoost_0)
  have w: "weightedScore (snapshot 1844674407370955162 0 0 0 '''' exampleNow exampleNow) =
      Inr (- 9223372036854775756)"
    by (simp add: weightedScore_def snapshot_def go_quo_def wrap64_def)
  have u: "GetUpdatedAt (snapshot 1844674407370955162 0 0 0 '''' exampleNow exampleNow) =
      exampleNow"
    "GetCreatedAt (snapshot 1844674407370955162 0 0 0 '''' exampleNow exampleNow) =
      exampleNow"
    "Description (snapshot 1844674407370955162 0 0 0 '''' exampleNow exampleNow) = Some ''''"
    by (simp_all add: GetUpdatedAt_def GetCreatedAt_def snapshot_def)
  have s: "boostedScore exampleNow exampleNow
      (snapshot 1844674407370955162 0 0 0 '''' exampleNow exampleNow)
      (- 9223372036854775756) = - 9223372036854774756"
    by (simp add: boostedScore_def u m b c daysSince_self wrap64_def)
  have p0: "preCompressionScore exampleNow exampleNow
     \<lparr>GH = Some (snapshot 0 0 0 0 '''' exampleNow exampleNow),
      Metadata = Some exampleMetadata\<rparr> = Inr 1050"
    by (simp add: preCompressionScore_fresh exampleMetadata_def)
  have p1: "preCompressionScore exampleNow exampleNow
     \<lparr>GH = Some (snapshot 1844674407370955162 0 0 0 '''' exampleNow exampleNow),
      Metadata = Some exampleMetadata\<rparr> = Inr (- 9223372036854774756)"
    by (simp add: preCompressionScore_Some w u s descriptionBonus_def guidelinesBonus_def
        exampleMetadata_def)
  show ?thesis using p0 p1 by simp
qed

text \<open>
  Claim C9, amended. Take two snapshots that differ only by greater or equal \<^verbatim>\<open>forksCount\<close>,
  \<^verbatim>\<open>subscribersCount\<close> and \<^verbatim>\<open>stargazersCount\<close>, with the metadata and the clock readings
  fixed, and let all counts lie between 0 and \<open>10 ^ 15\<close>, where no 64-bit operation of the
  function overflows. Then both calls reach the logarithmic scale, and the score before it
  is for the greater snapshot at least that of the smaller.
\<close>

theorem monotone_without_overflow:
  assumes "ForksCount gh = Some f" "SubscribersCount gh = Some w"
    "StargazersCount gh = Some g" "OpenIssuesCount gh = Some i"
    "Description gh = Some d"
    and "gh' = gh\<lparr>ForksCount := Some f', SubscribersCount := Some w', StargazersCount := Some g'\<rparr>"
    and "f \<le> f'" "w \<le> w'" "g \<le> g'"
    and "0 \<le> f" "f' \<le> 10 ^ 15" "0 \<le> w" "w' \<le> 10 ^ 15"
    and "0 \<le> g" "g' \<le> 10 ^ 15" "0 \<le> i" "i \<le> 10 ^ 15"
  shows "\<exists>s s'. preCompressionScore now\<^sub>1 now\<^sub>2 \<lparr>GH = Some gh, Metadata = Some md\<rparr> = Inr s \<and>
     preCompressionScore now\<^sub>1 now\<^sub>2 \<lparr>GH = Some gh', Metadata = Some md\<rparr> = Inr s' \<and> s \<le> s'"
proof -
  define m where "m = updateMultiplier (daysSince now\<^sub>1 (GetUpdatedAt gh))"
  define k where "k = boost (daysSince now\<^sub>1 (GetUpdatedAt gh)) * creationBoost (daysSince now\<^sub>2 (GetCreatedAt gh)) +
      (if 30 < length d \<or> 30 < length (Motivation md) then 50 else 0) +
      (if Guidelines md \<noteq> [] then 100 else 0)"
  have u: "GetUpdatedAt gh' = GetUpdatedAt gh" "GetCreatedAt gh' = GetCreatedAt gh"
    unfolding assms(6) by (simp_all add: GetUpdatedAt_def GetCreatedAt_def)
  have m0: "0 \<le> m"
    unfolding m_def using updateMultiplier_bounds [OF daysSince_lower] by blast
  have p: "preCompressionScore now\<^sub>1 now\<^sub>2 \<lparr>GH = Some gh, Metadata = Some md\<rparr> =
      Inr ((50 + f * 5 + w + g div 3 + i div 5) * m + k)"
    unfolding m_def k_def using assms(1-5,7-17)
    by (subst preCompressionScore_bounded [of gh f w g i d]) simp_all
  have p': "preCompressionScore now\<^sub>1 now\<^sub>2 \<lparr>GH = Some gh', Metadata = Some md\<rparr> =
      Inr ((50 + f' * 5 + w' + g' div 3 + i div 5) * m + k)"
    unfolding m_def k_def using assms(1-5,7-17) u
    by (subst preCompressionScore_bounded [of gh' f' w' g' i d]) (simp_all add: assms(6))
  have "g div 3 \<le> g' div 3" using assms(9) by (rule zdiv_mono1) simp
  then have "50 + f * 5 + w + g div 3 + i div 5 \<le> 50 + f' * 5 + w' + g' div 3 + i div 5"
    using assms(7,8) by simp
  then have "(50 + f * 5 + w + g div 3 + i div 5) * m + k \<le> (50 + f' * 5 + w' + g' div 3 + i div 5) * m + k"
    using m0 by (simp add: mult_right_mono)
  then show ?thesis using p p' by simp
qed

text \<open>
  The amended claim for a repository updated twelve hours and created one day before the
  call, as the counts grow from (4, 2, 9) to (40, 20, 90).
\<close>

theorem monotone_without_overflow_witness:
  "\<exists>s s'. preCompressionScore exampleNow exampleNow
       \<lparr>GH = Some (snapshot 4 2 9 1 '''' (exampleNow - 12 * Hour) (exampleNow - day)),
        Metadata = Some exampleMetadata\<rparr> = Inr s \<and>
     preCompressionScore exampleNow exampleNow
       \<lparr>GH = Some (snapshot 40 20 90 1 '''' (exampleNow - 12 * Hour) (exampleNow - day)),
        Metadata = Some exampleMetadata\<rparr> = Inr s' \<and> s \<le> s'"
  by (rule monotone_without_overflow [where f = 4 and w = 2 and g = 9 and i = 1
        and d = "''''" and f' = 40 and w' = 20 and g' = 90])
    (simp_all add: snapshot_def)

subsection \<open>C10: a repository not updated within the last day\<close>

text \<open>
  Claim C10 says that the call returns -50 whenever \<^verbatim>\<open>daysSinceLastUpdate\<close> is greater than
  1 and \<^verbatim>\<open>daysSinceCreation\<close> is positive (short description and motivation, no
  guidelines). It fails for a repository updated two days and created one nanosecond before
  the call: the recency multiplier is 0, but the creation factor is 1 (in \<^verbatim>\<open>float64\<close>,
  \<^verbatim>\<open>365 - daysSinceCreation\<close> rounds to 365), the boost of 994 is added and the call returns
  944.
\<close>

theorem stale_repository_counterexample:
  "1 < daysSince exampleNow
         (GetUpdatedAt (snapshot 12 3 50 7 ''ghcrawl'' (exampleNow - 2 * day) (exampleNow - 1))) \<and>
   0 < daysSince exampleNow
         (GetCreatedAt (snapshot 12 3 50 7 ''ghcrawl'' (exampleNow - 2 * day) (exampleNow - 1))) \<and>
   length ''ghcrawl'' \<le> 30 \<and> length (Motivation exampleMetadata) \<le> 30 \<and>
   Guidelines exampleMetadata = [] \<and>
   GetRepositoryActivityScore exampleNow exampleNow
     (Some \<lparr>GH = Some (snapshot 12 3 50 7 ''ghcrawl'' (exampleNow - 2 * day) (exampleNow - 1)),
            Metadata = Some exampleMetadata\<rparr>) =
     (Inr 944,
      Some \<lparr>GH = Some (snapshot 12 3 50 7 ''ghcrawl'' (exampleNow - 2 * day) (exampleNow - 1)),
            Metadata = Some (exampleMetadata\<lparr>Score := 944\<rparr>)\<rparr>) \<and>
   (944 :: int) \<noteq> - 50"
proof -
  have u: "GetUpdatedAt (snapshot 12 3 50 7 ''ghcrawl'' (exampleNow - 2 * day) (exampleNow - 1))
      = exampleNow - 2 * day"
    "GetCreatedAt (snapshot 12 3 50 7 ''ghcrawl'' (exampleNow - 2 * day) (exampleNow - 1))
      = exampleNow - 1"
    "Description (snapshot 12 3 50 7 ''ghcrawl'' (exampleNow - 2 * day) (exampleNow - 1))
      = Some ''ghcrawl''"
    by (simp_all add: GetUpdatedAt_def GetCreatedAt_def snapshot_def)
  have d: "daysSince exampleNow (exampleNow - 2 * day) = 2"
    using daysSince_days [of 2 exampleNow] by simp
  have s: "Since exampleNow (exampleNow - 1) = 1"
    by (simp add: Since_def Time_Sub_def minDuration_def maxDuration_def)
  have e: "0 < daysSince exampleNow (exampleNow - 1)"
    by (rule daysSince_pos) (simp add: s)
  have "0 \<le> daysSince exampleNow (exampleNow - 1) \<and>
      daysSince exampleNow (exampleNow - 1) \<le> 2 powi (- 45)"
    by (rule daysSince_upto_2ns) (simp_all add: s)
  then have c: "creationBoost (daysSince exampleNow (exampleNow - 1)) = 1"
    by (intro creationBoost_one) simp_all
  have m: "updateMultiplier 2 = 0" by (rule updateMultiplier_zero) simp
  have w: "weightedScore (snapshot 12 3 50 7 ''ghcrawl'' (exampleNow - 2 * day) (exampleNow - 1))
      = Inr 130"
    by (simp add: weightedScore_def snapshot_def go_quo_def wrap64_def)
  have b: "boostedScore exampleNow exampleNow
      (snapshot 12 3 50 7 ''ghcrawl'' (exampleNow - 2 * day) (exampleNow - 1)) 130 = 994"
    by (simp add: boostedScore_def u d m boost_2 c wrap64_def)
  have p: "preCompressionScore exampleNow exampleNow
     \<lparr>GH = Some (snapshot 12 3 50 7 ''ghcrawl'' (exampleNow - 2 * day) (exampleNow - 1)),
      Metadata = Some exampleMetadata\<rparr> = Inr 994"
    by (simp add: preCompressionScore_Some w u b descriptionBonus_def guidelinesBonus_def
        exampleMetadata_def)
  have l: "logScale 994 = 994" by (simp add: logScale_def)
  have f: "finalScore 994 = 944" using finalScore_eq [of 994] by simp
  have g: "GetRepositoryActivityScore exampleNow exampleNow
     (Some \<lparr>GH = Some (snapshot 12 3 50 7 ''ghcrawl'' (exampleNow - 2 * day) (exampleNow - 1)),
            Metadata = Some exampleMetadata\<rparr>) =
     (Inr 944,
      Some \<lparr>GH = Some (snapshot 12 3 50 7 ''ghcrawl'' (exampleNow - 2 * day) (exampleNow - 1)),
            Metadata = Some (exampleMetadata\<lparr>Score := 944\<rparr>)\<rparr>)"
    by (simp add: GetRepositoryActivityScore_def p l f)
  show ?thesis using g e by (simp add: u d exampleMetadata_def)
qed

text \<open>
  Claim C10, amended. When the repository was updated more than 24 hours before the first
  clock reading (or \<^verbatim>\<open>daysSinceLastUpdate\<close> is greater than \<open>1 + 2 powi (- 47)\<close>) and created 3
  nanoseconds or more before the second (or \<^verbatim>\<open>daysSinceCreation\<close> is greater than
  \<open>2 powi (- 45)\<close>), the description and the motivation are at most 30 bytes and the
  guidelines are empty, the call returns exactly -50 and writes -50 to \<^verbatim>\<open>Metadata.Score\<close>,
  whatever the four counts are: the recency multiplier and the creation factor are both 0.
\<close>

theorem stale_repository_scores_minus_50:
  assumes "1 + 2 powi (- 47) < daysSince now\<^sub>1 (GetUpdatedAt gh) \<or>
      day < Since now\<^sub>1 (GetUpdatedAt gh)"
    "2 powi (- 45) < daysSince now\<^sub>2 (GetCreatedAt gh) \<or> 3 \<le> Since now\<^sub>2 (GetCreatedAt gh)"
    "ForksCount gh = Some f" "SubscribersCount gh = Some w"
    "StargazersCount gh = Some g" "OpenIssuesCount gh = Some i"
    "Description gh = Some description" "length description \<le> 30"
    "length (Motivation md) \<le> 30" "Guidelines md = []"
  shows "GetRepositoryActivityScore now\<^sub>1 now\<^sub>2 (Some \<lparr>GH = Some gh, Metadata = Some md\<rparr>) =
    (Inr (- 50), Some \<lparr>GH = Some gh, Metadata = Some (md\<lparr>Score := - 50\<rparr>)\<rparr>)"
proof -
  have "1 + 2 powi (- 47) < daysSince now\<^sub>1 (GetUpdatedAt gh)"
    using assms(1) daysSince_after_day [of now\<^sub>1 "GetUpdatedAt gh"] by (auto simp add: day_def)
  then have m: "updateMultiplier (daysSince now\<^sub>1 (GetUpdatedAt gh)) = 0"
    by (rule updateMultiplier_zero)
  have "2 powi (- 45) < daysSince now\<^sub>2 (GetCreatedAt gh)"
    using assms(2) daysSince_from_3ns [of now\<^sub>2 "GetCreatedAt gh"] by auto
  then have c: "creationBoost (daysSince now\<^sub>2 (GetCreatedAt gh)) = 0"
    by (rule creationBoost_zero)
  have b: "boostedScore now\<^sub>1 now\<^sub>2 gh s = 0" for s
    by (simp add: boostedScore_no_boost [OF c] m wrap64_0)
  have p: "preCompressionScore now\<^sub>1 now\<^sub>2 \<lparr>GH = Some gh, Metadata = Some md\<rparr> = Inr 0"
    using assms(3-10)
    by (simp add: preCompressionScore_def weightedScore_Some b descriptionBonus_def guidelinesBonus_def)
  have l: "logScale 0 = 0" by (simp add: logScale_def)
  have f: "finalScore 0 = - 50" using finalScore_eq [of 0] by simp
  show ?thesis by (simp add: GetRepositoryActivityScore_def p l f)
qed

text \<open>
  The amended claim for a repository with 12 forks, 3 subscribers, 50 stargazers and 7 open
  issues, updated two days and created 400 days before the call.
\<close>

theorem stale_repository_scores_minus_50_witness:
  "day < Since exampleNow
         (GetUpdatedAt (snapshot 12 3 50 7 ''ghcrawl'' (exampleNow - 2 * day) (exampleNow - 400 * day)))
   \<and> 3 \<le> Since exampleNow
         (GetCreatedAt (snapshot 12 3 50 7 ''ghcrawl'' (exampleNow - 2 * day) (exampleNow - 400 * day)))
   \<and> GetRepositoryActivityScore exampleNow exampleNow
     (Some \<lparr>GH = Some (snapshot 12 3 50 7 ''ghcrawl'' (exampleNow - 2 * day) (exampleNow - 400 * day)),
            Metadata = Some exampleMetadata\<rparr>) =
     (Inr (- 50),
      Some \<lparr>GH = Some (snapshot 12 3 50 7 ''ghcrawl'' (exampleNow - 2 * day) (exampleNow - 400 * day)),
            Metadata = Some (exampleMetadata\<lparr>Score := - 50\<rparr>)\<rparr>)"
proof -
  have u: "GetUpdatedAt (snapshot 12 3 50 7 ''ghcrawl'' t\<^sub>u t\<^sub>c) = t\<^sub>u"
    "GetCreatedAt (snapshot 12 3 50 7 ''ghcrawl'' t\<^sub>u t\<^sub>c) = t\<^sub>c" for t\<^sub>u t\<^sub>c
    by (simp_all add: GetUpdatedAt_def GetCreatedAt_def snapshot_def)
  have c: "Since exampleNow (exampleNow - 172800000000000) = 172800000000000"
    "Since exampleNow (exampleNow - 34560000000000000) = 34560000000000000"
    by (simp_all add: Since_def Time_Sub_def minDuration_def maxDuration_def)
  have f: "ForksCount (snapshot 12 3 50 7 ''ghcrawl'' (exampleNow - 2 * day) (exampleNow - 400 * day))
      = Some 12"
    "SubscribersCount (snapshot 12 3 50 7 ''ghcrawl'' (exampleNow - 2 * day) (exampleNow - 400 * day))
      = Some 3"
    "StargazersCount (snapshot 12 3 50 7 ''ghcrawl'' (exampleNow - 2 * day) (exampleNow - 400 * day))
      = Some 50"
    "OpenIssuesCount (snapshot 12 3 50 7 ''ghcrawl'' (exampleNow - 2 * day) (exampleNow - 400 * day))
      = Some 7"
    "Description (snapshot 12 3 50 7 ''ghcrawl'' (exampleNow - 2 * day) (exampleNow - 400 * day))
      = Some ''ghcrawl''"
    by (simp_all add: snapshot_def)
  have m: "length (Motivation exampleMetadata) \<le> 30" "Guidelines exampleMetadata = []"
    by (simp_all add: exampleMetadata_def)
  have "GetRepositoryActivityScore exampleNow exampleNow
     (Some \<lparr>GH = Some (snapshot 12 3 50 7 ''ghcrawl'' (exampleNow - 2 * day) (exampleNow - 400 * day)),
            Metadata = Some exampleMetadata\<rparr>) =
     (Inr (- 50),
      Some \<lparr>GH = Some (snapshot 12 3 50 7 ''ghcrawl'' (exampleNow - 2 * day) (exampleNow - 400 * day)),
            Metadata = Some (exampleMetadata\<lparr>Score := - 50\<rparr>)\<rparr>)"
    by (rule stale_repository_scores_minus_50 [OF _ _ f _ m]) (simp_all add: u c day_def)
  then show ?thesis by (simp add: u c day_def)
qed

end
